theory Spec2Isabelle
  imports Main "HOL-Library.Sublist"
begin

section \<open>The application command registry\<close>

text \<open>
  A shallow embedding of \<^verbatim>\<open>ApplicationCommandRegistry.ts\<close>. The class becomes a
  record of its fields together with the three pieces of ambient state its methods
  write: the module-level set \<^verbatim>\<open>allGuildIdsToFetchCommandsFor\<close>, the process-wide
  logger, and the requests sent to the platform. Every method becomes a function from
  the state to the new state; a method that can throw returns the thrown value beside
  the state, since the mutations made before a throw stay.

  A JavaScript \<^verbatim>\<open>Set\<close> is modelled by its members and a \<^verbatim>\<open>Collection\<close> used as
  a dictionary by a map. A \<^verbatim>\<open>Collection\<close> of remote commands that is only searched
  with \<^verbatim>\<open>find\<close> is the list of its values in iteration order.
\<close>

subsection \<open>Enumerations and data\<close>

datatype RegisterBehavior = LogToConsole | Overwrite | VerboseOverwrite | BulkOverwrite

datatype InternalRegistryAPIType = ChatInput | ContextMenu

datatype ApplicationCommandType = CmdChatInput | CmdUser | CmdMessage

text \<open>
  The body of a command as sent to the platform: the registry reads its \<^verbatim>\<open>name\<close> and
  its optional \<^verbatim>\<open>type\<close>; everything else is carried along untouched.
\<close>

record 'd APIData =
  data_name :: string
  data_type :: "ApplicationCommandType option"
  data_rest :: 'd

text \<open>A command as the platform lists it.\<close>

record 'd ApplicationCommand =
  ac_id :: string
  ac_name :: string
  ac_type :: ApplicationCommandType
  ac_rest :: 'd

record RegisterOptions =
  guildIds :: "string list option"
  registerCommandIfMissing :: "bool option"
  behaviorWhenNotIdentical :: "RegisterBehavior option"
  idHints :: "string list option"

record 'd InternalAPICall =
  builtData :: "'d APIData"
  registerOptions :: RegisterOptions
  call_type :: InternalRegistryAPIType

record CommandDifference =
  key :: string
  original :: string
  expected :: string

text \<open>The two values the registry throws.\<close>

datatype exn =
  RangeError_runAPICalls_BulkOverwrite
  | Error_Invalid_behaviorIfNotEqual

subsection \<open>The logger\<close>

text \<open>
  Each message of the source is one constructor holding the values interpolated into
  its text. The two timing messages drop the elapsed milliseconds.
\<close>

datatype level = LInfo | LError | LWarn | LDebug | LTrace

datatype message =
  MsgRegisteringName InternalRegistryAPIType string
  | MsgRegisteringId InternalRegistryAPIType string
  | MsgNameNotRecommended InternalRegistryAPIType string
  | MsgNameBypassNotRecommended InternalRegistryAPIType string
  | MsgNoAPICalls
  | MsgPreparing nat
  | MsgReceivedErrors nat
  | MsgRejection exn
  | MsgCheckingGlobal string string string
  | MsgCreatingGlobal string string
  | MsgDoingNothingGlobal string string
  | MsgNoCommandsForGuild string string string
  | MsgCheckingGuild string string string
  | MsgCreatingGuild string string string
  | MsgDoingNothingGuild string string string
  | MsgBulkOverwriteInvalid string
  | MsgTookComputing
  | MsgTookFast
  | MsgIdentical bool string string string
  | MsgFoundDifferences string string "CommandDifference list"
  | MsgUpdated string string
  | MsgFailedToUpdate string string
  | MsgCreated string "string option" string string
  | MsgFailedToRegister "string option" string

subsection \<open>The platform and the environment\<close>

text \<open>
  A request to the platform together with its outcome: \<^verbatim>\<open>commandsManager.create\<close>
  resolves to the created command or rejects (\<open>None\<close>), \<^verbatim>\<open>applicationCommand.edit\<close>
  resolves (\<open>True\<close>) or rejects (\<open>False\<close>).
\<close>

datatype 'd remote_call =
  Create "'d APIData" "string option" "'d ApplicationCommand option"
  | Edit "'d ApplicationCommand" "'d APIData" bool

text \<open>
  The platform behind \<^verbatim>\<open>commandsManager.create\<close> and \<^verbatim>\<open>applicationCommand.edit\<close>.
  Its answer may depend on every request made so far, so each of the two operations
  takes that history. The platform also decides when each request settles, and with it
  the order in which the suspended executions of a flush go on: at the \<open>k\<close>-th
  continuation of a flush, \<open>resumes k\<close> picks one of the executions that are still
  suspended, counted in the order of the pending calls.
\<close>

record 'd platform =
  create :: "'d remote_call list \<Rightarrow> 'd APIData \<Rightarrow> string option \<Rightarrow> 'd ApplicationCommand option"
  edit :: "'d remote_call list \<Rightarrow> 'd ApplicationCommand \<Rightarrow> 'd APIData \<Rightarrow> bool"
  resumes :: "nat \<Rightarrow> nat"

text \<open>
  What the file imports from modules that are not part of the sources, and the one
  builtin whose result is only logged: the two process-wide defaults of
  \<^verbatim>\<open>ApplicationCommandRegistries\<close>, whether \<^verbatim>\<open>BigInt(entry)\<close> accepts a string, the
  conversion of \<^verbatim>\<open>normalizeInputs\<close> and the two functions of \<^verbatim>\<open>computeDifferences\<close>.
\<close>

record 'd env =
  getDefaultBehaviorWhenNotIdentical :: RegisterBehavior
  getDefaultGuildIds :: "string list option"
  BigInt_accepts :: "string \<Rightarrow> bool"
  convertApplicationCommandToApiData :: "'d ApplicationCommand \<Rightarrow> 'd APIData"
  getCommandDifferences :: "'d APIData \<Rightarrow> 'd APIData \<Rightarrow> bool \<Rightarrow> CommandDifference list"
  getCommandDifferencesFast :: "'d APIData \<Rightarrow> 'd APIData \<Rightarrow> bool \<Rightarrow> bool"

subsection \<open>The registry\<close>

record 'd registry =
  commandName :: string
  chatInputCommands :: "string set"
  contextMenuCommands :: "string set"
  guildIdsToFetch :: "string set"
  globalCommandId :: "string option"
  globalChatInputCommandIds :: "string set"
  globalContextMenuCommandIds :: "string set"
  guildCommandIds :: "string \<rightharpoonup> string"
  guildIdToChatInputCommandIds :: "string \<rightharpoonup> string set"
  guildIdToContextMenuCommandIds :: "string \<rightharpoonup> string set"
  apiCalls :: "'d InternalAPICall list"
  allGuildIdsToFetchCommandsFor :: "string set"
  logger :: "(level \<times> message) list"
  remote :: "'d remote_call list"

text \<open>
  The constructor: every field of the class starts empty. The ambient state is what it
  was before the registry was made.
\<close>

definition new_ApplicationCommandRegistry ::
  "string \<Rightarrow> string set \<Rightarrow> (level \<times> message) list \<Rightarrow> 'd remote_call list \<Rightarrow> 'd registry" where
  "new_ApplicationCommandRegistry nm fetch lg rq =
     \<lparr> commandName = nm, chatInputCommands = {}, contextMenuCommands = {},
       guildIdsToFetch = {}, globalCommandId = None, globalChatInputCommandIds = {},
       globalContextMenuCommandIds = {}, guildCommandIds = Map.empty,
       guildIdToChatInputCommandIds = Map.empty,
       guildIdToContextMenuCommandIds = Map.empty, apiCalls = [],
       allGuildIdsToFetchCommandsFor = fetch, logger = lg, remote = rq \<rparr>"

definition log_at :: "level \<Rightarrow> message \<Rightarrow> 'd registry \<Rightarrow> 'd registry" where
  "log_at l m s = s\<lparr>logger := logger s @ [(l, m)]\<rparr>"

abbreviation info :: "message \<Rightarrow> 'd registry \<Rightarrow> 'd registry" where
  "info \<equiv> log_at LInfo"

abbreviation error :: "message \<Rightarrow> 'd registry \<Rightarrow> 'd registry" where
  "error \<equiv> log_at LError"

abbreviation warn :: "message \<Rightarrow> 'd registry \<Rightarrow> 'd registry" where
  "warn \<equiv> log_at LWarn"

abbreviation debug :: "message \<Rightarrow> 'd registry \<Rightarrow> 'd registry" where
  "debug \<equiv> log_at LDebug"

abbreviation trace :: "message \<Rightarrow> 'd registry \<Rightarrow> 'd registry" where
  "trace \<equiv> log_at LTrace"

subsection \<open>JavaScript helpers\<close>

text \<open>\<^verbatim>\<open>isNullishOrEmpty\<close> of \<^verbatim>\<open>@sapphire/utilities\<close>, on an optional array.\<close>

definition isNullishOrEmpty :: "'a list option \<Rightarrow> bool" where
  "isNullishOrEmpty v = (case v of None \<Rightarrow> True | Some xs \<Rightarrow> xs = [])"

text \<open>
  A condition on an optional string, \<^verbatim>\<open>if (guildId)\<close>: \<^verbatim>\<open>undefined\<close>, \<^verbatim>\<open>null\<close> and
  the empty string are false. \<open>truthy\<close> returns the string when the condition holds.
\<close>

definition truthy :: "string option \<Rightarrow> string option" where
  "truthy v = (case v of None \<Rightarrow> None | Some g \<Rightarrow> if g = [] then None else Some g)"

text \<open>
  The rest parameter \<^verbatim>\<open>...names: string[] | string[][]\<close> and its flattening
  \<^verbatim>\<open>names.flat(Infinity)\<close>.
\<close>

datatype rest_args = Strings "string list" | Arrays "string list list"

fun flat_Infinity :: "rest_args \<Rightarrow> string list" where
  "flat_Infinity (Strings xs) = xs"
| "flat_Infinity (Arrays xss) = concat xss"

text \<open>
  Whether \<^verbatim>\<open>BigInt(entry)\<close> returns, for a string of ASCII characters: white space at both
  ends is dropped, and what is left must be empty, decimal digits with an optional
  sign, or digits behind one of the prefixes \<^verbatim>\<open>0x\<close>, \<^verbatim>\<open>0o\<close> and \<^verbatim>\<open>0b\<close> in either case.
\<close>

definition js_whitespace :: "char \<Rightarrow> bool" where
  "js_whitespace c = (c \<in> set [CHR 0x09, CHR 0x0A, CHR 0x0B, CHR 0x0C, CHR 0x0D, CHR 0x20])"

definition js_trim :: "string \<Rightarrow> string" where
  "js_trim entry = rev (dropWhile js_whitespace (rev (dropWhile js_whitespace entry)))"

definition digits_of :: "string \<Rightarrow> string \<Rightarrow> bool" where
  "digits_of allowed text = (text \<noteq> [] \<and> list_all (\<lambda>c. c \<in> set allowed) text)"

definition BigInt_accepts_ascii :: "string \<Rightarrow> bool" where
  "BigInt_accepts_ascii entry =
     (case js_trim entry of
        [] \<Rightarrow> True
      | c # rest \<Rightarrow>
          if c = CHR ''+'' \<or> c = CHR ''-'' then digits_of ''0123456789'' rest
          else if digits_of ''0123456789'' (c # rest) then True
          else
            (case rest of
               [] \<Rightarrow> False
             | x # digits \<Rightarrow>
                 c = CHR ''0'' \<and>
                 (if x = CHR ''x'' \<or> x = CHR ''X'' then digits_of ''0123456789abcdefABCDEF'' digits
                  else if x = CHR ''o'' \<or> x = CHR ''O'' then digits_of ''01234567'' digits
                  else if x = CHR ''b'' \<or> x = CHR ''B'' then digits_of ''01'' digits
                  else False)))"

text \<open>\<^verbatim>\<open>collection.ensure(guildId, () => new Set()).add(id)\<close>\<close>

definition ensure_add :: "(string \<rightharpoonup> string set) \<Rightarrow> string \<Rightarrow> string \<Rightarrow> (string \<rightharpoonup> string set)" where
  "ensure_add m g i = m(g \<mapsto> insert i (case m g of None \<Rightarrow> {} | Some ids \<Rightarrow> ids))"

subsection \<open>Adding names and ids\<close>

definition addChatInputCommandNames :: "rest_args \<Rightarrow> 'd registry \<Rightarrow> 'd registry" where
  "addChatInputCommandNames names s =
     fold (\<lambda>command s.
       let s = debug (MsgRegisteringName ChatInput command) s;
           s = warn (MsgNameNotRecommended ChatInput command) s
       in s\<lparr>chatInputCommands := insert command (chatInputCommands s)\<rparr>)
     (flat_Infinity names) s"

definition addContextMenuCommandNames :: "rest_args \<Rightarrow> 'd registry \<Rightarrow> 'd registry" where
  "addContextMenuCommandNames names s =
     fold (\<lambda>command s.
       let s = debug (MsgRegisteringName ContextMenu command) s;
           s = warn (MsgNameNotRecommended ContextMenu command) s
       in s\<lparr>contextMenuCommands := insert command (contextMenuCommands s)\<rparr>)
     (flat_Infinity names) s"

definition addChatInputCommandIds :: "'d env \<Rightarrow> rest_args \<Rightarrow> 'd registry \<Rightarrow> 'd registry" where
  "addChatInputCommandIds e commandIds s =
     fold (\<lambda>entry s.
       let s = (if BigInt_accepts e entry then debug (MsgRegisteringId ChatInput entry) s
                else warn (MsgNameBypassNotRecommended ChatInput entry)
                       (debug (MsgRegisteringName ChatInput entry) s))
       in s\<lparr>chatInputCommands := insert entry (chatInputCommands s)\<rparr>)
     (flat_Infinity commandIds) s"

definition addContextMenuCommandIds :: "'d env \<Rightarrow> rest_args \<Rightarrow> 'd registry \<Rightarrow> 'd registry" where
  "addContextMenuCommandIds e commandIds s =
     fold (\<lambda>entry s.
       let s = (if BigInt_accepts e entry then debug (MsgRegisteringId ContextMenu entry) s
                else warn (MsgNameBypassNotRecommended ContextMenu entry)
                       (debug (MsgRegisteringName ContextMenu entry) s))
       in s\<lparr>contextMenuCommands := insert entry (contextMenuCommands s)\<rparr>)
     (flat_Infinity commandIds) s"

subsection \<open>Registering a command\<close>

definition getGuildIdsToRegister :: "'d env \<Rightarrow> RegisterOptions option \<Rightarrow> string list option" where
  "getGuildIdsToRegister e options =
     (if \<not> isNullishOrEmpty (Option.bind options guildIds) then Option.bind options guildIds
      else if \<not> isNullishOrEmpty (getDefaultGuildIds e) then getDefaultGuildIds e
      else None)"

definition processGuildIds :: "string list option \<Rightarrow> 'd registry \<Rightarrow> 'd registry" where
  "processGuildIds guildIdsToRegister s =
     (if \<not> isNullishOrEmpty guildIdsToRegister
      then (case guildIdsToRegister of
              None \<Rightarrow> s
            | Some ids \<Rightarrow>
                fold (\<lambda>i s. s\<lparr>guildIdsToFetch := insert i (guildIdsToFetch s),
                        allGuildIdsToFetchCommandsFor := insert i (allGuildIdsToFetchCommandsFor s)\<rparr>)
                  ids s)
      else s)"

text \<open>
  The argument \<open>command\<close> is the value \<^verbatim>\<open>normalizeChatInputCommand\<close> returns (the
  normalisation of the several input shapes is outside the sources). When no options
  are given the call stores options built from the defaults; otherwise it stores the
  options as they were given.
\<close>

definition registerChatInputCommand ::
  "'d env \<Rightarrow> 'd APIData \<Rightarrow> RegisterOptions option \<Rightarrow> 'd registry \<Rightarrow> 'd registry" where
  "registerChatInputCommand e command options s =
     (let s = s\<lparr>chatInputCommands := insert (data_name command) (chatInputCommands s)\<rparr>;
          guildIdsToRegister = getGuildIdsToRegister e options;
          s = s\<lparr>apiCalls := apiCalls s @
                [\<lparr> builtData = command,
                   registerOptions =
                     (case options of
                        Some opts \<Rightarrow> opts
                      | None \<Rightarrow>
                          \<lparr> guildIds = guildIdsToRegister,
                            registerCommandIfMissing = Some True,
                            behaviorWhenNotIdentical = Some (getDefaultBehaviorWhenNotIdentical e),
                            idHints = None \<rparr>),
                   call_type = ChatInput \<rparr>]\<rparr>;
          s = (case Option.bind options idHints of
                 Some hints \<Rightarrow>
                   fold (\<lambda>hint s. s\<lparr>chatInputCommands := insert hint (chatInputCommands s)\<rparr>) hints s
               | None \<Rightarrow> s)
      in processGuildIds guildIdsToRegister s)"

definition registerContextMenuCommand ::
  "'d env \<Rightarrow> 'd APIData \<Rightarrow> RegisterOptions option \<Rightarrow> 'd registry \<Rightarrow> 'd registry" where
  "registerContextMenuCommand e command options s =
     (let s = s\<lparr>contextMenuCommands := insert (data_name command) (contextMenuCommands s)\<rparr>;
          guildIdsToRegister = getGuildIdsToRegister e options;
          s = s\<lparr>apiCalls := apiCalls s @
                [\<lparr> builtData = command,
                   registerOptions =
                     (case options of
                        Some opts \<Rightarrow> opts
                      | None \<Rightarrow>
                          \<lparr> guildIds = guildIdsToRegister,
                            registerCommandIfMissing = Some True,
                            behaviorWhenNotIdentical = Some (getDefaultBehaviorWhenNotIdentical e),
                            idHints = None \<rparr>),
                   call_type = ContextMenu \<rparr>]\<rparr>;
          s = (case Option.bind options idHints of
                 Some hints \<Rightarrow>
                   fold (\<lambda>hint s. s\<lparr>contextMenuCommands := insert hint (contextMenuCommands s)\<rparr>) hints s
               | None \<Rightarrow> s)
      in processGuildIds guildIdsToRegister s)"

subsection \<open>Recording an id\<close>

definition handleIdAddition ::
  "'d env \<Rightarrow> InternalRegistryAPIType \<Rightarrow> string \<Rightarrow> string option \<Rightarrow> 'd registry \<Rightarrow> 'd registry" where
  "handleIdAddition e t i guildId s =
     (let s = (case t of
                 ChatInput \<Rightarrow>
                   (let s = addChatInputCommandIds e (Strings [i]) s
                    in case truthy guildId of
                         Some g \<Rightarrow>
                           s\<lparr>guildIdToChatInputCommandIds :=
                               ensure_add (guildIdToChatInputCommandIds s) g i\<rparr>
                       | None \<Rightarrow>
                           s\<lparr>globalChatInputCommandIds := insert i (globalChatInputCommandIds s)\<rparr>)
               | ContextMenu \<Rightarrow>
                   (let s = addContextMenuCommandIds e (Strings [i]) s
                    in case truthy guildId of
                         Some g \<Rightarrow>
                           s\<lparr>guildIdToContextMenuCommandIds :=
                               ensure_add (guildIdToContextMenuCommandIds s) g i\<rparr>
                       | None \<Rightarrow>
                           s\<lparr>globalContextMenuCommandIds := insert i (globalContextMenuCommandIds s)\<rparr>))
      in case truthy guildId of
           Some g \<Rightarrow>
             (if guildCommandIds s g = None
              then s\<lparr>guildCommandIds := (guildCommandIds s)(g \<mapsto> i)\<rparr>
              else s)
         | None \<Rightarrow>
             s\<lparr>globalCommandId :=
                 (case globalCommandId s of None \<Rightarrow> Some i | Some old \<Rightarrow> Some old)\<rparr>)"

subsection \<open>Matching a remote command\<close>

definition findCallback :: "'d InternalAPICall \<Rightarrow> 'd ApplicationCommand \<Rightarrow> bool" where
  "findCallback apiCall entry =
     (if call_type apiCall = ChatInput \<and> ac_type entry \<noteq> CmdChatInput then False
      else if call_type apiCall = ContextMenu \<and> ac_type entry = CmdChatInput then False
      else if call_type apiCall = ContextMenu \<and> data_type (builtData apiCall) \<noteq> Some (ac_type entry)
      then False
      else (case idHints (registerOptions apiCall) of
              Some hints \<Rightarrow>
                ac_id entry \<in> set hints \<or> ac_name entry = data_name (builtData apiCall)
            | None \<Rightarrow> ac_name entry = data_name (builtData apiCall)))"

text \<open>The word for the kind of command that \<^verbatim>\<open>handleAPICall\<close> puts into its messages.\<close>

definition type_label :: "'d InternalAPICall \<Rightarrow> string" where
  "type_label apiCall =
     (case call_type apiCall of
        ChatInput \<Rightarrow> ''chat input''
      | ContextMenu \<Rightarrow>
          (case data_type (builtData apiCall) of
             Some CmdMessage \<Rightarrow> ''message context menu''
           | Some CmdUser \<Rightarrow> ''user context menu''
           | _ \<Rightarrow> ''unknown-type context menu''))"

subsection \<open>A command that is present\<close>

definition logCommandDifferencesFound ::
  "'d ApplicationCommand \<Rightarrow> bool \<Rightarrow> CommandDifference list \<Rightarrow> 'd registry \<Rightarrow> 'd registry" where
  "logCommandDifferencesFound applicationCommand logAsWarn differences s =
     log_at (if logAsWarn then LWarn else LDebug)
       (MsgFoundDifferences (ac_name applicationCommand) (ac_id applicationCommand) differences) s"

text \<open>
  The part of \<^verbatim>\<open>handleCommandPresent\<close> after the guard on \<^verbatim>\<open>BulkOverwrite\<close>: compute the
  differences, return when there are none, log them, and edit the command unless the
  behaviour is \<^verbatim>\<open>LogToConsole\<close>. A rejected edit is caught and logged.
\<close>

definition updatePresentCommand ::
  "'d platform \<Rightarrow> 'd env \<Rightarrow> 'd ApplicationCommand \<Rightarrow> 'd APIData \<Rightarrow> RegisterBehavior \<Rightarrow>
   string option \<Rightarrow> 'd registry \<Rightarrow> 'd registry" where
  "updatePresentCommand p e applicationCommand apiData behaviorIfNotEqual guildId s =
     (let differences =
            (if behaviorIfNotEqual = VerboseOverwrite
             then getCommandDifferences e (convertApplicationCommandToApiData e applicationCommand)
                    apiData (guildId \<noteq> None)
             else []);
          s = (if behaviorIfNotEqual = VerboseOverwrite then debug MsgTookComputing s else s);
          identical = MsgIdentical (truthy guildId \<noteq> None) (data_name apiData)
                        (ac_name applicationCommand) (ac_id applicationCommand)
      in if behaviorIfNotEqual = VerboseOverwrite \<and> differences = [] then debug identical s
         else
           (let fast = (behaviorIfNotEqual = Overwrite \<or> behaviorIfNotEqual = LogToConsole);
                areThereDifferences =
                  getCommandDifferencesFast e (convertApplicationCommandToApiData e applicationCommand)
                    apiData (guildId \<noteq> None);
                s = (if fast then debug MsgTookFast s else s)
            in if fast \<and> \<not> areThereDifferences then debug identical s
               else
                 (let s = logCommandDifferencesFound applicationCommand
                            (behaviorIfNotEqual = LogToConsole) differences s
                  in if behaviorIfNotEqual = LogToConsole then s
                     else
                       (let ok = edit p (remote s) applicationCommand apiData;
                            s = s\<lparr>remote := remote s @ [Edit applicationCommand apiData ok]\<rparr>
                        in if ok
                           then debug (MsgUpdated (ac_name applicationCommand) (ac_id applicationCommand)) s
                           else error (MsgFailedToUpdate (ac_name applicationCommand)
                                         (ac_id applicationCommand)) s))))"

definition handleCommandPresent ::
  "'d platform \<Rightarrow> 'd env \<Rightarrow> 'd ApplicationCommand \<Rightarrow> 'd APIData \<Rightarrow> RegisterBehavior \<Rightarrow>
   string option \<Rightarrow> 'd registry \<Rightarrow> exn option \<times> 'd registry" where
  "handleCommandPresent p e applicationCommand apiData behaviorIfNotEqual guildId s =
     (if behaviorIfNotEqual = BulkOverwrite
      then
        (let s = debug (MsgBulkOverwriteInvalid (commandName s)) s;
             behaviorIfNotEqual = getDefaultBehaviorWhenNotIdentical e
         in if behaviorIfNotEqual = BulkOverwrite then (Some Error_Invalid_behaviorIfNotEqual, s)
            else (None, updatePresentCommand p e applicationCommand apiData behaviorIfNotEqual guildId s))
      else (None, updatePresentCommand p e applicationCommand apiData behaviorIfNotEqual guildId s))"

subsection \<open>A command that is missing\<close>

text \<open>A rejected create is caught and logged; the id of a created command is recorded.\<close>

definition createMissingCommand ::
  "'d platform \<Rightarrow> 'd env \<Rightarrow> 'd APIData \<Rightarrow> string \<Rightarrow> string option \<Rightarrow> 'd registry \<Rightarrow> 'd registry" where
  "createMissingCommand p e apiData label guildId s =
     (let result = create p (remote s) apiData guildId;
          s = s\<lparr>remote := remote s @ [Create apiData guildId result]\<rparr>
      in case result of
           None \<Rightarrow> error (MsgFailedToRegister (truthy guildId) (data_name apiData)) s
         | Some created \<Rightarrow>
             (let s = info (MsgCreated label (truthy guildId) (data_name apiData) (ac_id created)) s
              in case data_type apiData of
                   None \<Rightarrow> handleIdAddition e ChatInput (ac_id created) guildId s
                 | Some CmdChatInput \<Rightarrow> handleIdAddition e ChatInput (ac_id created) guildId s
                 | Some CmdMessage \<Rightarrow> handleIdAddition e ContextMenu (ac_id created) guildId s
                 | Some CmdUser \<Rightarrow> handleIdAddition e ContextMenu (ac_id created) guildId s))"

subsection \<open>One pending call\<close>

definition behaviorOf :: "'d env \<Rightarrow> 'd InternalAPICall \<Rightarrow> RegisterBehavior" where
  "behaviorOf e apiCall =
     (case behaviorWhenNotIdentical (registerOptions apiCall) of
        None \<Rightarrow> getDefaultBehaviorWhenNotIdentical e
      | Some b \<Rightarrow> b)"

definition registerIfMissing :: "'d InternalAPICall \<Rightarrow> bool" where
  "registerIfMissing apiCall =
     (case registerCommandIfMissing (registerOptions apiCall) of None \<Rightarrow> True | Some b \<Rightarrow> b)"

text \<open>The global branch of \<^verbatim>\<open>handleAPICall\<close>.\<close>

definition handleAPICall_global ::
  "'d platform \<Rightarrow> 'd env \<Rightarrow> 'd ApplicationCommand list \<Rightarrow> 'd InternalAPICall \<Rightarrow>
   'd registry \<Rightarrow> exn option \<times> 'd registry" where
  "handleAPICall_global p e globalCommands apiCall s =
     (let commandName = data_name (builtData apiCall);
          label = type_label apiCall
      in case find (findCallback apiCall) globalCommands of
           Some globalCommand \<Rightarrow>
             (let s = debug (MsgCheckingGlobal commandName label (ac_id globalCommand)) s;
                  s = handleIdAddition e (call_type apiCall) (ac_id globalCommand) None s
              in handleCommandPresent p e globalCommand (builtData apiCall) (behaviorOf e apiCall) None s)
         | None \<Rightarrow>
             if registerIfMissing apiCall
             then (None, createMissingCommand p e (builtData apiCall) label None
                           (debug (MsgCreatingGlobal label commandName) s))
             else (None, debug (MsgDoingNothingGlobal label commandName) s))"

text \<open>The body of the loop over the guild ids of \<^verbatim>\<open>handleAPICall\<close>.\<close>

definition handleAPICall_guild ::
  "'d platform \<Rightarrow> 'd env \<Rightarrow> (string \<rightharpoonup> 'd ApplicationCommand list) \<Rightarrow> 'd InternalAPICall \<Rightarrow>
   string \<Rightarrow> 'd registry \<Rightarrow> exn option \<times> 'd registry" where
  "handleAPICall_guild p e allGuildsCommands apiCall guildId s =
     (let commandName = data_name (builtData apiCall);
          label = type_label apiCall
      in case allGuildsCommands guildId of
           None \<Rightarrow>
             (None, createMissingCommand p e (builtData apiCall) label (Some guildId)
                      (debug (MsgNoCommandsForGuild guildId label commandName) s))
         | Some guildCommands \<Rightarrow>
             (case find (findCallback apiCall) guildCommands of
                Some existingGuildCommand \<Rightarrow>
                  (let s = debug (MsgCheckingGuild label commandName (ac_id existingGuildCommand)) s;
                       s = handleIdAddition e (call_type apiCall) (ac_id existingGuildCommand)
                             (Some guildId) s
                   in handleCommandPresent p e existingGuildCommand (builtData apiCall)
                        (behaviorOf e apiCall) (Some guildId) s)
              | None \<Rightarrow>
                  if registerIfMissing apiCall
                  then (None, createMissingCommand p e (builtData apiCall) label (Some guildId)
                                (debug (MsgCreatingGuild label commandName guildId) s))
                  else (None, debug (MsgDoingNothingGuild label commandName guildId) s)))"

text \<open>The loop itself: a throw in one iteration ends it.\<close>

fun handleAPICall_guilds ::
  "'d platform \<Rightarrow> 'd env \<Rightarrow> (string \<rightharpoonup> 'd ApplicationCommand list) \<Rightarrow> 'd InternalAPICall \<Rightarrow>
   string list \<Rightarrow> 'd registry \<Rightarrow> exn option \<times> 'd registry" where
  "handleAPICall_guilds p e allGuildsCommands apiCall [] s = (None, s)"
| "handleAPICall_guilds p e allGuildsCommands apiCall (guildId # rest) s =
     (case handleAPICall_guild p e allGuildsCommands apiCall guildId s of
        (Some thrown, s') \<Rightarrow> (Some thrown, s')
      | (None, s') \<Rightarrow> handleAPICall_guilds p e allGuildsCommands apiCall rest s')"

definition handleAPICall ::
  "'d platform \<Rightarrow> 'd env \<Rightarrow> 'd ApplicationCommand list \<Rightarrow>
   (string \<rightharpoonup> 'd ApplicationCommand list) \<Rightarrow> 'd InternalAPICall \<Rightarrow>
   'd registry \<Rightarrow> exn option \<times> 'd registry" where
  "handleAPICall p e globalCommands allGuildsCommands apiCall s =
     (case guildIds (registerOptions apiCall) of
        None \<Rightarrow> handleAPICall_global p e globalCommands apiCall s
      | Some ids \<Rightarrow>
          if ids = [] then handleAPICall_global p e globalCommands apiCall s
          else handleAPICall_guilds p e allGuildsCommands apiCall ids s)"

subsection \<open>The suspension points of a call\<close>

text \<open>
  \<^verbatim>\<open>handleAPICall\<close> is an async function: it runs without interruption up to an
  \<^verbatim>\<open>await\<close>, and goes on later, after the awaited promise has settled. Between the two,
  the other calls of the same flush run. An execution of a call is therefore in one of
  four states: settled, with the thrown value if it was rejected; waiting for an edit
  that was requested; waiting for a create that was requested; or waiting for a promise
  that is fulfilled already, which is the case after \<^verbatim>\<open>handleCommandPresent\<close> has returned
  without an edit. The three waiting states hold the guild ids that the loop has yet to
  visit, none for the global scope.
\<close>

datatype 'd execution =
  Settled "exn option"
  | AwaitEdit "'d ApplicationCommand" bool "string list"
  | AwaitCreate "'d APIData" string "string option" "'d ApplicationCommand option" "string list"
  | Continue "string list"

text \<open>
  \<^verbatim>\<open>handleCommandPresent\<close> after its guard and up to the edit: the result is \<open>None\<close>
  when it returns without an edit and the outcome of the edit when it has requested one.
\<close>

definition comparePresentCommand ::
  "'d platform \<Rightarrow> 'd env \<Rightarrow> 'd ApplicationCommand \<Rightarrow> 'd APIData \<Rightarrow> RegisterBehavior \<Rightarrow>
   string option \<Rightarrow> 'd registry \<Rightarrow> bool option \<times> 'd registry" where
  "comparePresentCommand p e applicationCommand apiData behaviorIfNotEqual guildId s =
     (let differences =
            (if behaviorIfNotEqual = VerboseOverwrite
             then getCommandDifferences e (convertApplicationCommandToApiData e applicationCommand)
                    apiData (guildId \<noteq> None)
             else []);
          s = (if behaviorIfNotEqual = VerboseOverwrite then debug MsgTookComputing s else s);
          identical = MsgIdentical (truthy guildId \<noteq> None) (data_name apiData)
                        (ac_name applicationCommand) (ac_id applicationCommand)
      in if behaviorIfNotEqual = VerboseOverwrite \<and> differences = [] then (None, debug identical s)
         else
           (let fast = (behaviorIfNotEqual = Overwrite \<or> behaviorIfNotEqual = LogToConsole);
                areThereDifferences =
                  getCommandDifferencesFast e (convertApplicationCommandToApiData e applicationCommand)
                    apiData (guildId \<noteq> None);
                s = (if fast then debug MsgTookFast s else s)
            in if fast \<and> \<not> areThereDifferences then (None, debug identical s)
               else
                 (let s = logCommandDifferencesFound applicationCommand
                            (behaviorIfNotEqual = LogToConsole) differences s
                  in if behaviorIfNotEqual = LogToConsole then (None, s)
                     else
                       (let ok = edit p (remote s) applicationCommand apiData
                        in (Some ok,
                            s\<lparr>remote := remote s @ [Edit applicationCommand apiData ok]\<rparr>)))))"

text \<open>\<^verbatim>\<open>handleCommandPresent\<close> after the edit has settled.\<close>

definition editSettled :: "'d ApplicationCommand \<Rightarrow> bool \<Rightarrow> 'd registry \<Rightarrow> 'd registry" where
  "editSettled applicationCommand ok s =
     (if ok then debug (MsgUpdated (ac_name applicationCommand) (ac_id applicationCommand)) s
      else error (MsgFailedToUpdate (ac_name applicationCommand) (ac_id applicationCommand)) s)"

text \<open>
  \<^verbatim>\<open>handleCommandPresent\<close> from its start to the point where the calling loop is
  suspended: rejected by the guard, returned without an edit, or waiting for the edit.
\<close>

definition beginCommandPresent ::
  "'d platform \<Rightarrow> 'd env \<Rightarrow> 'd ApplicationCommand \<Rightarrow> 'd APIData \<Rightarrow> RegisterBehavior \<Rightarrow>
   string option \<Rightarrow> string list \<Rightarrow> 'd registry \<Rightarrow> 'd execution \<times> 'd registry" where
  "beginCommandPresent p e applicationCommand apiData behaviorIfNotEqual guildId rest s =
     (let s = (if behaviorIfNotEqual = BulkOverwrite
               then debug (MsgBulkOverwriteInvalid (commandName s)) s else s);
          behaviorIfNotEqual =
            (if behaviorIfNotEqual = BulkOverwrite then getDefaultBehaviorWhenNotIdentical e
             else behaviorIfNotEqual)
      in if behaviorIfNotEqual = BulkOverwrite then (Settled (Some Error_Invalid_behaviorIfNotEqual), s)
         else
           (case comparePresentCommand p e applicationCommand apiData behaviorIfNotEqual guildId s of
              (None, s') \<Rightarrow> (Continue rest, s')
            | (Some ok, s') \<Rightarrow> (AwaitEdit applicationCommand ok rest, s')))"

text \<open>\<^verbatim>\<open>createMissingCommand\<close> up to the create request, and after the request has settled.\<close>

definition requestCreate ::
  "'d platform \<Rightarrow> 'd APIData \<Rightarrow> string \<Rightarrow> string option \<Rightarrow> string list \<Rightarrow> 'd registry \<Rightarrow>
   'd execution \<times> 'd registry" where
  "requestCreate p apiData label guildId rest s =
     (let result = create p (remote s) apiData guildId
      in (AwaitCreate apiData label guildId result rest,
          s\<lparr>remote := remote s @ [Create apiData guildId result]\<rparr>))"

definition createSettled ::
  "'d env \<Rightarrow> 'd APIData \<Rightarrow> string \<Rightarrow> string option \<Rightarrow> 'd ApplicationCommand option \<Rightarrow>
   'd registry \<Rightarrow> 'd registry" where
  "createSettled e apiData label guildId result s =
     (case result of
        None \<Rightarrow> error (MsgFailedToRegister (truthy guildId) (data_name apiData)) s
      | Some created \<Rightarrow>
          (let s = info (MsgCreated label (truthy guildId) (data_name apiData) (ac_id created)) s
           in case data_type apiData of
                None \<Rightarrow> handleIdAddition e ChatInput (ac_id created) guildId s
              | Some CmdChatInput \<Rightarrow> handleIdAddition e ChatInput (ac_id created) guildId s
              | Some CmdMessage \<Rightarrow> handleIdAddition e ContextMenu (ac_id created) guildId s
              | Some CmdUser \<Rightarrow> handleIdAddition e ContextMenu (ac_id created) guildId s))"

text \<open>
  The global branch of \<^verbatim>\<open>handleAPICall\<close> up to its first suspension. The branch that
  does nothing about a missing command has no \<^verbatim>\<open>await\<close> and settles at once.
\<close>

definition startGlobal ::
  "'d platform \<Rightarrow> 'd env \<Rightarrow> 'd ApplicationCommand list \<Rightarrow> 'd InternalAPICall \<Rightarrow>
   'd registry \<Rightarrow> 'd execution \<times> 'd registry" where
  "startGlobal p e globalCommands apiCall s =
     (let commandName = data_name (builtData apiCall);
          label = type_label apiCall
      in case find (findCallback apiCall) globalCommands of
           Some globalCommand \<Rightarrow>
             (let s = debug (MsgCheckingGlobal commandName label (ac_id globalCommand)) s;
                  s = handleIdAddition e (call_type apiCall) (ac_id globalCommand) None s
              in beginCommandPresent p e globalCommand (builtData apiCall) (behaviorOf e apiCall)
                   None [] s)
         | None \<Rightarrow>
             if registerIfMissing apiCall
             then requestCreate p (builtData apiCall) label None []
                    (debug (MsgCreatingGlobal label commandName) s)
             else (Settled None, debug (MsgDoingNothingGlobal label commandName) s))"

text \<open>
  The loop over the guild ids from one suspension to the next. An iteration that does
  nothing about a missing command has no \<^verbatim>\<open>await\<close>, so the loop goes on to the next guild
  id at once; when no guild id is left the call is fulfilled.
\<close>

fun continueGuilds ::
  "'d platform \<Rightarrow> 'd env \<Rightarrow> (string \<rightharpoonup> 'd ApplicationCommand list) \<Rightarrow> 'd InternalAPICall \<Rightarrow>
   string list \<Rightarrow> 'd registry \<Rightarrow> 'd execution \<times> 'd registry" where
  "continueGuilds p e allGuildsCommands apiCall [] s = (Settled None, s)"
| "continueGuilds p e allGuildsCommands apiCall (guildId # rest) s =
     (let commandName = data_name (builtData apiCall);
          label = type_label apiCall
      in case allGuildsCommands guildId of
           None \<Rightarrow>
             requestCreate p (builtData apiCall) label (Some guildId) rest
               (debug (MsgNoCommandsForGuild guildId label commandName) s)
         | Some guildCommands \<Rightarrow>
             (case find (findCallback apiCall) guildCommands of
                Some existingGuildCommand \<Rightarrow>
                  (let s = debug (MsgCheckingGuild label commandName (ac_id existingGuildCommand)) s;
                       s = handleIdAddition e (call_type apiCall) (ac_id existingGuildCommand)
                             (Some guildId) s
                   in beginCommandPresent p e existingGuildCommand (builtData apiCall)
                        (behaviorOf e apiCall) (Some guildId) rest s)
              | None \<Rightarrow>
                  if registerIfMissing apiCall
                  then requestCreate p (builtData apiCall) label (Some guildId) rest
                         (debug (MsgCreatingGuild label commandName guildId) s)
                  else continueGuilds p e allGuildsCommands apiCall rest
                         (debug (MsgDoingNothingGuild label commandName guildId) s)))"

text \<open>\<^verbatim>\<open>handleAPICall\<close> from its call to its first suspension.\<close>

definition start ::
  "'d platform \<Rightarrow> 'd env \<Rightarrow> 'd ApplicationCommand list \<Rightarrow>
   (string \<rightharpoonup> 'd ApplicationCommand list) \<Rightarrow> 'd InternalAPICall \<Rightarrow>
   'd registry \<Rightarrow> 'd execution \<times> 'd registry" where
  "start p e globalCommands allGuildsCommands apiCall s =
     (case guildIds (registerOptions apiCall) of
        None \<Rightarrow> startGlobal p e globalCommands apiCall s
      | Some ids \<Rightarrow>
          if ids = [] then startGlobal p e globalCommands apiCall s
          else continueGuilds p e allGuildsCommands apiCall ids s)"

text \<open>A suspended execution goes on to its next suspension.\<close>

definition resume ::
  "'d platform \<Rightarrow> 'd env \<Rightarrow> (string \<rightharpoonup> 'd ApplicationCommand list) \<Rightarrow> 'd InternalAPICall \<Rightarrow>
   'd execution \<Rightarrow> 'd registry \<Rightarrow> 'd execution \<times> 'd registry" where
  "resume p e allGuildsCommands apiCall x s =
     (case x of
        Settled outcome \<Rightarrow> (Settled outcome, s)
      | AwaitEdit applicationCommand ok rest \<Rightarrow> (Continue rest, editSettled applicationCommand ok s)
      | AwaitCreate apiData label guildId result rest \<Rightarrow>
          (Continue rest, createSettled e apiData label guildId result s)
      | Continue rest \<Rightarrow> continueGuilds p e allGuildsCommands apiCall rest s)"

text \<open>
  The number of suspensions an execution can still go through: it goes down with every
  continuation.
\<close>

fun remaining :: "'d execution \<Rightarrow> nat" where
  "remaining (Settled outcome) = 0"
| "remaining (AwaitEdit applicationCommand ok rest) = 2 * length rest + 2"
| "remaining (AwaitCreate apiData label guildId result rest) = 2 * length rest + 2"
| "remaining (Continue rest) = 2 * length rest + 1"

definition settled :: "'d execution \<Rightarrow> bool" where
  "settled x = (case x of Settled outcome \<Rightarrow> True | _ \<Rightarrow> False)"

definition outcome_of :: "'d execution \<Rightarrow> exn option" where
  "outcome_of x = (case x of Settled outcome \<Rightarrow> outcome | _ \<Rightarrow> None)"

text \<open>An execution that runs alone, from a suspension to its end.\<close>

function runAlone ::
  "'d platform \<Rightarrow> 'd env \<Rightarrow> (string \<rightharpoonup> 'd ApplicationCommand list) \<Rightarrow> 'd InternalAPICall \<Rightarrow>
   'd execution \<Rightarrow> 'd registry \<Rightarrow> exn option \<times> 'd registry" where
  "runAlone p e allGuildsCommands apiCall x s =
     (if settled x then (outcome_of x, s)
      else runAlone p e allGuildsCommands apiCall
             (fst (resume p e allGuildsCommands apiCall x s))
             (snd (resume p e allGuildsCommands apiCall x s)))"
  by pat_completeness auto

subsection \<open>The flush\<close>

text \<open>
  \<^verbatim>\<open>this.apiCalls.map((call) => this.handleAPICall(...))\<close> calls \<^verbatim>\<open>handleAPICall\<close> for
  every pending call in the order of the list, and each of these calls runs to its first
  suspension before the next one starts.
\<close>

fun startAll ::
  "'d platform \<Rightarrow> 'd env \<Rightarrow> 'd ApplicationCommand list \<Rightarrow>
   (string \<rightharpoonup> 'd ApplicationCommand list) \<Rightarrow> 'd InternalAPICall list \<Rightarrow>
   'd registry \<Rightarrow> ('d InternalAPICall \<times> 'd execution) list \<times> 'd registry" where
  "startAll p e globalCommands guildCommands [] s = ([], s)"
| "startAll p e globalCommands guildCommands (call # calls) s =
     (case start p e globalCommands guildCommands call s of
        (x, s') \<Rightarrow>
          (case startAll p e globalCommands guildCommands calls s' of
             (xs, s'') \<Rightarrow> ((call, x) # xs, s'')))"

text \<open>
  The positions of the executions that are suspended, the one the platform lets go on
  at the \<open>k\<close>-th continuation, and that continuation.
\<close>

definition suspended :: "('d InternalAPICall \<times> 'd execution) list \<Rightarrow> nat list" where
  "suspended xs = filter (\<lambda>i. \<not> settled (snd (xs ! i))) [0..<length xs]"

definition chosen :: "'d platform \<Rightarrow> nat \<Rightarrow> ('d InternalAPICall \<times> 'd execution) list \<Rightarrow> nat" where
  "chosen p k xs = suspended xs ! (resumes p k mod length (suspended xs))"

definition resumeAt ::
  "'d platform \<Rightarrow> 'd env \<Rightarrow> (string \<rightharpoonup> 'd ApplicationCommand list) \<Rightarrow> nat \<Rightarrow>
   ('d InternalAPICall \<times> 'd execution) list \<Rightarrow> 'd registry \<Rightarrow>
   ('d InternalAPICall \<times> 'd execution) list \<times> 'd registry" where
  "resumeAt p e guildCommands j xs s =
     (case resume p e guildCommands (fst (xs ! j)) (snd (xs ! j)) s of
        (x, s') \<Rightarrow> (xs[j := (fst (xs ! j), x)], s'))"

text \<open>
  The suspended executions go on, one continuation at a time and in the order the
  platform decides, until every execution is settled. Every order in which the awaited
  promises of a flush can settle is the order of some platform.
\<close>

function settle ::
  "'d platform \<Rightarrow> 'd env \<Rightarrow> (string \<rightharpoonup> 'd ApplicationCommand list) \<Rightarrow> nat \<Rightarrow>
   ('d InternalAPICall \<times> 'd execution) list \<Rightarrow> 'd registry \<Rightarrow>
   ('d InternalAPICall \<times> 'd execution) list \<times> 'd registry" where
  "settle p e guildCommands k xs s =
     (if suspended xs = [] then (xs, s)
      else settle p e guildCommands (Suc k)
             (fst (resumeAt p e guildCommands (chosen p k xs) xs s))
             (snd (resumeAt p e guildCommands (chosen p k xs) xs s)))"
  by pat_completeness auto

text \<open>
  \<^verbatim>\<open>Promise.allSettled\<close> over the started calls: when every execution is settled, the
  outcomes are collected in the order of the calls, \<open>None\<close> for a promise that is
  fulfilled and \<open>Some\<close> of the thrown value for one that is rejected.
\<close>

definition allSettled ::
  "'d platform \<Rightarrow> 'd env \<Rightarrow> 'd ApplicationCommand list \<Rightarrow>
   (string \<rightharpoonup> 'd ApplicationCommand list) \<Rightarrow> 'd InternalAPICall list \<Rightarrow>
   'd registry \<Rightarrow> exn option list \<times> 'd registry" where
  "allSettled p e globalCommands guildCommands calls s =
     (case startAll p e globalCommands guildCommands calls s of
        (xs, s') \<Rightarrow>
          (case settle p e guildCommands 0 xs s' of
             (ys, s'') \<Rightarrow> (map (\<lambda>(call, x). outcome_of x) ys, s'')))"

text \<open>
  The end of \<^verbatim>\<open>runAPICalls\<close>: the rejected outcomes are counted and each reason is logged.
\<close>

definition reportErrored :: "exn option list \<Rightarrow> 'd registry \<Rightarrow> 'd registry" where
  "reportErrored results s =
     (let errored = List.filter (\<lambda>r. r \<noteq> None) results
      in if errored \<noteq> []
         then fold (\<lambda>r s. case r of Some reason \<Rightarrow> error (MsgRejection reason) s | None \<Rightarrow> s)
                errored (error (MsgReceivedErrors (length errored)) s)
         else s)"

definition runAPICalls ::
  "'d platform \<Rightarrow> 'd env \<Rightarrow> 'd ApplicationCommand list \<Rightarrow>
   (string \<rightharpoonup> 'd ApplicationCommand list) \<Rightarrow> 'd registry \<Rightarrow> exn option \<times> 'd registry" where
  "runAPICalls p e globalCommands guildCommands s =
     (if apiCalls s = [] then (None, trace MsgNoAPICalls s)
      else if getDefaultBehaviorWhenNotIdentical e = BulkOverwrite
      then (Some RangeError_runAPICalls_BulkOverwrite, s)
      else
        (case allSettled p e globalCommands guildCommands (apiCalls s)
                (debug (MsgPreparing (length (apiCalls s))) s) of
           (results, s') \<Rightarrow> (None, reportErrored results s')))"

section \<open>The difference engine of the specification\<close>

text \<open>
  Modelled from the spec: the module \<^verbatim>\<open>computeDifferences\<close> (\<^verbatim>\<open>getCommandDifferences\<close> and
  \<^verbatim>\<open>getCommandDifferencesFast\<close>) is not among the sources. The specification compares
  the fields the platform recognises: name, description, options, permissions,
  localization and contexts. An option has a name, a description, a numeric type, a
  flag, and nested options.
\<close>

datatype command_option =
  CommandOption (option_name: string) (option_description: string) (option_kind: nat)
    (option_required: bool) (option_options: "command_option list")

record command_fields =
  field_name :: string
  field_description :: "string option"
  field_options :: "command_option list option"
  field_permissions :: "string option"
  field_localization :: "(string \<times> string) list option"
  field_contexts :: "nat list option"

text \<open>
  Modelled from the spec: a difference record holds a path, the original value and the
  expected value.
\<close>

datatype field_value =
  Absent
  | Text string
  | Number nat
  | Flag bool
  | Numbers "nat list"
  | Pairs "(string \<times> string) list"
  | Nested command_option

record difference_record =
  path :: string
  original_value :: field_value
  expected_value :: field_value

text \<open>
  Modelled from the spec: a field that the platform omits when it is empty is compared
  as the empty value.
\<close>

definition omitted_as_empty :: "'a list option \<Rightarrow> 'a list" where
  "omitted_as_empty v = (case v of None \<Rightarrow> [] | Some xs \<Rightarrow> xs)"

text \<open>Modelled from the spec: a path rooted at an index, the index written in decimal.\<close>

definition digit :: "nat \<Rightarrow> char" where
  "digit n = ''0123456789'' ! (n mod 10)"

function index_text :: "nat \<Rightarrow> string" where
  "index_text n = (if n < 10 then [digit n] else index_text (n div 10) @ [digit n])"
  by pat_completeness auto
termination
  by (relation "measure id") auto

definition at_index :: "string \<Rightarrow> nat \<Rightarrow> string" where
  "at_index p i = p @ ''['' @ index_text i @ '']''"

text \<open>
  Modelled from the spec: the verbose path yields one record for each field that
  differs. Lists of options are compared position by position: a position that only one
  side has gives a record at that index, and a position that both have is compared
  field by field under that index.
\<close>

definition field_difference ::
  "string \<Rightarrow> ('a \<Rightarrow> field_value) \<Rightarrow> 'a \<Rightarrow> 'a \<Rightarrow> difference_record list" where
  "field_difference p render a b =
     (if a = b then []
      else [\<lparr> path = p, original_value = render a, expected_value = render b \<rparr>])"

fun verbose_option :: "string \<Rightarrow> command_option \<Rightarrow> command_option \<Rightarrow> difference_record list"
  and verbose_options ::
    "string \<Rightarrow> nat \<Rightarrow> command_option list \<Rightarrow> command_option list \<Rightarrow> difference_record list" where
  "verbose_option p (CommandOption n d k r os) (CommandOption n' d' k' r' os') =
     field_difference (p @ ''.name'') Text n n' @
     field_difference (p @ ''.description'') Text d d' @
     field_difference (p @ ''.type'') Number k k' @
     field_difference (p @ ''.required'') Flag r r' @
     verbose_options (p @ ''.options'') 0 os os'"
| "verbose_options p i [] [] = []"
| "verbose_options p i (x # xs) [] =
     \<lparr> path = at_index p i, original_value = Nested x, expected_value = Absent \<rparr> #
     verbose_options p (Suc i) xs []"
| "verbose_options p i [] (y # ys) =
     \<lparr> path = at_index p i, original_value = Absent, expected_value = Nested y \<rparr> #
     verbose_options p (Suc i) [] ys"
| "verbose_options p i (x # xs) (y # ys) =
     verbose_option (at_index p i) x y @ verbose_options p (Suc i) xs ys"

text \<open>
  Modelled from the spec: the fast path answers as soon as the first field that differs
  is found.
\<close>

fun fast_option :: "command_option \<Rightarrow> command_option \<Rightarrow> bool"
  and fast_options :: "command_option list \<Rightarrow> command_option list \<Rightarrow> bool" where
  "fast_option (CommandOption n d k r os) (CommandOption n' d' k' r' os') =
     (if n \<noteq> n' then True
      else if d \<noteq> d' then True
      else if k \<noteq> k' then True
      else if r \<noteq> r' then True
      else fast_options os os')"
| "fast_options [] [] = False"
| "fast_options (x # xs) [] = True"
| "fast_options [] (y # ys) = True"
| "fast_options (x # xs) (y # ys) = (if fast_option x y then True else fast_options xs ys)"

text \<open>Modelled from the spec: the verbose difference of a remote command and a definition.\<close>

definition verboseDiff :: "command_fields \<Rightarrow> command_fields \<Rightarrow> difference_record list" where
  "verboseDiff a b =
     field_difference ''name'' Text (field_name a) (field_name b) @
     field_difference ''description'' Text
       (omitted_as_empty (field_description a)) (omitted_as_empty (field_description b)) @
     verbose_options ''options'' 0
       (omitted_as_empty (field_options a)) (omitted_as_empty (field_options b)) @
     field_difference ''permissions'' Text
       (omitted_as_empty (field_permissions a)) (omitted_as_empty (field_permissions b)) @
     field_difference ''localization'' Pairs
       (omitted_as_empty (field_localization a)) (omitted_as_empty (field_localization b)) @
     field_difference ''contexts'' Numbers
       (omitted_as_empty (field_contexts a)) (omitted_as_empty (field_contexts b))"

text \<open>Modelled from the spec: the fast difference of a remote command and a definition.\<close>

definition fastDiff :: "command_fields \<Rightarrow> command_fields \<Rightarrow> bool" where
  "fastDiff a b =
     (if field_name a \<noteq> field_name b then True
      else if omitted_as_empty (field_description a) \<noteq> omitted_as_empty (field_description b) then True
      else if fast_options (omitted_as_empty (field_options a)) (omitted_as_empty (field_options b))
      then True
      else if omitted_as_empty (field_permissions a) \<noteq> omitted_as_empty (field_permissions b) then True
      else if omitted_as_empty (field_localization a) \<noteq> omitted_as_empty (field_localization b)
      then True
      else omitted_as_empty (field_contexts a) \<noteq> omitted_as_empty (field_contexts b))"

section \<open>Example inputs\<close>

text \<open>
  The scenario of the specification: the registry \<^verbatim>\<open>ping\<close> declares a chat input command
  \<^verbatim>\<open>ping\<close> whose description is \<^verbatim>\<open>new\<close>, and the platform lists a command \<^verbatim>\<open>ping\<close>
  with id \<^verbatim>\<open>1\<close> whose description is \<^verbatim>\<open>old\<close>. The remainder of a command is its
  description, and the example difference functions compare descriptions.
\<close>

definition example_env :: "RegisterBehavior \<Rightarrow> string list option \<Rightarrow> string env" where
  "example_env b gs =
     \<lparr> getDefaultBehaviorWhenNotIdentical = b,
       getDefaultGuildIds = gs,
       BigInt_accepts = BigInt_accepts_ascii,
       convertApplicationCommandToApiData =
         (\<lambda>c. \<lparr> data_name = ac_name c, data_type = Some (ac_type c), data_rest = ac_rest c \<rparr>),
       getCommandDifferences =
         (\<lambda>a b guild. if data_rest a = data_rest b then []
                   else [\<lparr> key = ''description'', original = data_rest a, expected = data_rest b \<rparr>]),
       getCommandDifferencesFast = (\<lambda>a b guild. data_rest a \<noteq> data_rest b) \<rparr>"

definition accepting :: "string platform" where
  "accepting =
     \<lparr> create = (\<lambda>history d g.
                  Some \<lparr> ac_id = ''2'', ac_name = data_name d,
                         ac_type = (case data_type d of None \<Rightarrow> CmdChatInput | Some t \<Rightarrow> t),
                         ac_rest = data_rest d \<rparr>),
       edit = (\<lambda>history c d. True),
       resumes = (\<lambda>k. 0) \<rparr>"

definition rejecting :: "string platform" where
  "rejecting =
     \<lparr> create = (\<lambda>history d g. None), edit = (\<lambda>history c d. False), resumes = (\<lambda>k. 0) \<rparr>"

text \<open>A platform that lets the second of the suspended executions go on first.\<close>

definition second_first :: "string platform \<Rightarrow> string platform" where
  "second_first p = p\<lparr>resumes := (\<lambda>k. 1)\<rparr>"

definition ping :: "string APIData" where
  "ping = \<lparr> data_name = ''ping'', data_type = None, data_rest = ''new'' \<rparr>"

definition remote_ping :: "string ApplicationCommand" where
  "remote_ping = \<lparr> ac_id = ''1'', ac_name = ''ping'', ac_type = CmdChatInput, ac_rest = ''old'' \<rparr>"

definition remote_pong :: "string ApplicationCommand" where
  "remote_pong = \<lparr> ac_id = ''1'', ac_name = ''pong'', ac_type = CmdChatInput, ac_rest = ''old'' \<rparr>"

definition options_of ::
  "string list option \<Rightarrow> bool option \<Rightarrow> RegisterBehavior option \<Rightarrow> string list option \<Rightarrow> RegisterOptions" where
  "options_of gs missing behavior hints =
     \<lparr> guildIds = gs, registerCommandIfMissing = missing,
       behaviorWhenNotIdentical = behavior, idHints = hints \<rparr>"

definition ping_call :: "RegisterOptions \<Rightarrow> string InternalAPICall" where
  "ping_call opts = \<lparr> builtData = ping, registerOptions = opts, call_type = ChatInput \<rparr>"

definition fresh :: "string registry" where
  "fresh = new_ApplicationCommandRegistry ''ping'' {} [] []"

definition two_guilds_call :: "string InternalAPICall" where
  "two_guilds_call = ping_call (options_of (Some [''g1'', ''g2'']) None None None)"

definition pending :: "string InternalAPICall list \<Rightarrow> string registry" where
  "pending calls = fresh\<lparr>apiCalls := calls\<rparr>"

lemmas example_defs =
  example_env_def accepting_def rejecting_def second_first_def ping_def remote_ping_def remote_pong_def
  options_of_def ping_call_def fresh_def new_ApplicationCommandRegistry_def
  two_guilds_call_def pending_def

lemmas executor_defs =
  handleAPICall_def handleAPICall_global_def handleAPICall_guild_def findCallback_def
  type_label_def behaviorOf_def registerIfMissing_def handleCommandPresent_def
  updatePresentCommand_def createMissingCommand_def handleIdAddition_def
  addChatInputCommandIds_def addContextMenuCommandIds_def truthy_def ensure_add_def
  logCommandDifferencesFound_def Let_def

lemmas flush_defs =
  allSettled_def start_def startGlobal_def resume_def beginCommandPresent_def
  comparePresentCommand_def editSettled_def requestCreate_def createSettled_def
  suspended_def chosen_def resumeAt_def settled_def outcome_of_def
  js_trim_def js_whitespace_def digits_of_def BigInt_accepts_ascii_def

section \<open>Properties of states and executions\<close>

subsection \<open>Kinds\<close>

text \<open>
  The kind of a remote entry equals the kind of the call: a chat input call wants a chat
  input entry, a context menu call wants an entry of the context menu type of its data.
\<close>

definition sameKind :: "'d InternalAPICall \<Rightarrow> 'd ApplicationCommand \<Rightarrow> bool" where
  "sameKind apiCall entry =
     (case call_type apiCall of
        ChatInput \<Rightarrow> ac_type entry = CmdChatInput
      | ContextMenu \<Rightarrow>
          ac_type entry \<noteq> CmdChatInput \<and> data_type (builtData apiCall) = Some (ac_type entry))"

subsection \<open>The identity state\<close>

text \<open>The fields in which the registry records names and ids.\<close>

definition identity ::
  "'d registry \<Rightarrow>
   string set \<times> string set \<times> string option \<times> string set \<times> string set \<times>
   (string \<rightharpoonup> string) \<times> (string \<rightharpoonup> string set) \<times> (string \<rightharpoonup> string set)" where
  "identity s =
     (chatInputCommands s, contextMenuCommands s, globalCommandId s,
      globalChatInputCommandIds s, globalContextMenuCommandIds s, guildCommandIds s,
      guildIdToChatInputCommandIds s, guildIdToContextMenuCommandIds s)"

text \<open>
  Every id recorded for the global scope or for a guild is also among the names and ids
  of its kind that point to the registry.
\<close>

definition ids_known :: "'d registry \<Rightarrow> bool" where
  "ids_known s =
     (globalChatInputCommandIds s \<subseteq> chatInputCommands s \<and>
      (\<forall>g ids. guildIdToChatInputCommandIds s g = Some ids \<longrightarrow> ids \<subseteq> chatInputCommands s) \<and>
      globalContextMenuCommandIds s \<subseteq> contextMenuCommands s \<and>
      (\<forall>g ids. guildIdToContextMenuCommandIds s g = Some ids \<longrightarrow> ids \<subseteq> contextMenuCommands s))"

text \<open>The operations of the registry that other code can call, as one step function.\<close>

datatype 'd operation =
  RegisterChatInputCommand "'d APIData" "RegisterOptions option"
  | RegisterContextMenuCommand "'d APIData" "RegisterOptions option"
  | AddChatInputCommandNames rest_args
  | AddContextMenuCommandNames rest_args
  | AddChatInputCommandIds rest_args
  | AddContextMenuCommandIds rest_args
  | RunAPICalls "'d ApplicationCommand list" "string \<rightharpoonup> 'd ApplicationCommand list"
  | HandleIdAddition InternalRegistryAPIType string "string option"

fun perform :: "'d platform \<Rightarrow> 'd env \<Rightarrow> 'd operation \<Rightarrow> 'd registry \<Rightarrow> 'd registry" where
  "perform p e (RegisterChatInputCommand command options) s =
     registerChatInputCommand e command options s"
| "perform p e (RegisterContextMenuCommand command options) s =
     registerContextMenuCommand e command options s"
| "perform p e (AddChatInputCommandNames names) s = addChatInputCommandNames names s"
| "perform p e (AddContextMenuCommandNames names) s = addContextMenuCommandNames names s"
| "perform p e (AddChatInputCommandIds commandIds) s = addChatInputCommandIds e commandIds s"
| "perform p e (AddContextMenuCommandIds commandIds) s = addContextMenuCommandIds e commandIds s"
| "perform p e (RunAPICalls globalCommands guildCommands) s =
     snd (runAPICalls p e globalCommands guildCommands s)"
| "perform p e (HandleIdAddition t i guildId) s = handleIdAddition e t i guildId s"

subsection \<open>Growth\<close>

text \<open>
  A later state extends an earlier one: the sets and the sets of the maps have gained
  members, the first-come fields keep what they held, the log and the requests have
  been appended to, and the pending calls are those of the earlier state.
\<close>

definition sets_grow :: "(string \<rightharpoonup> string set) \<Rightarrow> (string \<rightharpoonup> string set) \<Rightarrow> bool" where
  "sets_grow m m' = (\<forall>g ids. m g = Some ids \<longrightarrow> (\<exists>ids'. m' g = Some ids' \<and> ids \<subseteq> ids'))"

definition grows :: "'d registry \<Rightarrow> 'd registry \<Rightarrow> bool" where
  "grows s s' =
     (commandName s' = commandName s \<and> apiCalls s' = apiCalls s \<and>
      chatInputCommands s \<subseteq> chatInputCommands s' \<and>
      contextMenuCommands s \<subseteq> contextMenuCommands s' \<and>
      guildIdsToFetch s \<subseteq> guildIdsToFetch s' \<and>
      allGuildIdsToFetchCommandsFor s \<subseteq> allGuildIdsToFetchCommandsFor s' \<and>
      (\<forall>i. globalCommandId s = Some i \<longrightarrow> globalCommandId s' = Some i) \<and>
      globalChatInputCommandIds s \<subseteq> globalChatInputCommandIds s' \<and>
      globalContextMenuCommandIds s \<subseteq> globalContextMenuCommandIds s' \<and>
      guildCommandIds s \<subseteq>\<^sub>m guildCommandIds s' \<and>
      sets_grow (guildIdToChatInputCommandIds s) (guildIdToChatInputCommandIds s') \<and>
      sets_grow (guildIdToContextMenuCommandIds s) (guildIdToContextMenuCommandIds s') \<and>
      prefix (logger s) (logger s') \<and> prefix (remote s) (remote s'))"

subsection \<open>What a flush leaves behind\<close>

text \<open>
  The scopes a pending call targets: the global scope (\<open>None\<close>) when it has no guild
  ids, otherwise each of its guild ids.
\<close>

definition buckets :: "'d InternalAPICall \<Rightarrow> string option list" where
  "buckets apiCall =
     (case guildIds (registerOptions apiCall) of
        None \<Rightarrow> [None]
      | Some ids \<Rightarrow> if ids = [] then [None] else map Some ids)"

text \<open>The id is in the set of its kind for the scope.\<close>

definition recorded :: "InternalRegistryAPIType \<Rightarrow> string \<Rightarrow> string option \<Rightarrow> 'd registry \<Rightarrow> bool" where
  "recorded t i guildId s =
     (case t of
        ChatInput \<Rightarrow>
          (case truthy guildId of
             None \<Rightarrow> i \<in> globalChatInputCommandIds s
           | Some g \<Rightarrow>
               (case guildIdToChatInputCommandIds s g of None \<Rightarrow> False | Some ids \<Rightarrow> i \<in> ids))
      | ContextMenu \<Rightarrow>
          (case truthy guildId of
             None \<Rightarrow> i \<in> globalContextMenuCommandIds s
           | Some g \<Rightarrow>
               (case guildIdToContextMenuCommandIds s g of None \<Rightarrow> False | Some ids \<Rightarrow> i \<in> ids)))"

text \<open>What a later log, or a later list of requests, holds beyond an earlier one.\<close>

definition appended :: "'a list \<Rightarrow> 'a list \<Rightarrow> 'a list" where
  "appended earlier later = drop (length earlier) later"

text \<open>
  \<^verbatim>\<open>handleAPICall\<close> logs one debug message when it takes up a scope, and that message
  holds the word for the kind of the command and the name of the command. These are
  the messages for a given kind and name, and their number in a log.
\<close>

definition scope_message :: "string \<Rightarrow> string \<Rightarrow> message \<Rightarrow> bool" where
  "scope_message label name m =
     (case m of
        MsgCheckingGlobal n l i \<Rightarrow> n = name \<and> l = label
      | MsgCreatingGlobal l n \<Rightarrow> n = name \<and> l = label
      | MsgDoingNothingGlobal l n \<Rightarrow> n = name \<and> l = label
      | MsgNoCommandsForGuild g l n \<Rightarrow> n = name \<and> l = label
      | MsgCheckingGuild l n i \<Rightarrow> n = name \<and> l = label
      | MsgCreatingGuild l n g \<Rightarrow> n = name \<and> l = label
      | MsgDoingNothingGuild l n g \<Rightarrow> n = name \<and> l = label
      | _ \<Rightarrow> False)"

definition scopes_entered :: "string \<Rightarrow> string \<Rightarrow> (level \<times> message) list \<Rightarrow> nat" where
  "scopes_entered label name lg =
     length (filter (\<lambda>(l, m). l = LDebug \<and> scope_message label name m) lg)"

text \<open>The number of scopes that the pending calls of a given kind and name target.\<close>

definition scopes_of :: "string \<Rightarrow> string \<Rightarrow> 'd InternalAPICall list \<Rightarrow> nat" where
  "scopes_of label name calls =
     sum_list
       (map (\<lambda>apiCall.
               if type_label apiCall = label \<and> data_name (builtData apiCall) = name
               then length (buckets apiCall) else 0)
          calls)"

text \<open>
  A request is handled when what follows its settling has happened: the error message
  of a rejected request, the debug message of an accepted edit or the info message of an
  accepted create is in the log, and the id of a created command is recorded in the set
  of the kind of its data.
\<close>

definition created_kind :: "'d APIData \<Rightarrow> InternalRegistryAPIType" where
  "created_kind apiData =
     (case data_type apiData of
        None \<Rightarrow> ChatInput
      | Some CmdChatInput \<Rightarrow> ChatInput
      | Some CmdMessage \<Rightarrow> ContextMenu
      | Some CmdUser \<Rightarrow> ContextMenu)"

definition created_entry ::
  "'d APIData \<Rightarrow> string option \<Rightarrow> 'd ApplicationCommand \<Rightarrow> level \<times> message \<Rightarrow> bool" where
  "created_entry apiData guildId created entry =
     (case entry of
        (LInfo, MsgCreated label g name i) \<Rightarrow>
          g = truthy guildId \<and> name = data_name apiData \<and> i = ac_id created
      | _ \<Rightarrow> False)"

definition handled :: "(level \<times> message) list \<Rightarrow> 'd registry \<Rightarrow> 'd remote_call \<Rightarrow> bool" where
  "handled lg s r =
     (case r of
        Create apiData guildId None \<Rightarrow>
          (LError, MsgFailedToRegister (truthy guildId) (data_name apiData)) \<in> set lg
      | Create apiData guildId (Some created) \<Rightarrow>
          list_ex (created_entry apiData guildId created) lg \<and>
          recorded (created_kind apiData) (ac_id created) guildId s
      | Edit applicationCommand apiData ok \<Rightarrow>
          (if ok
           then (LDebug, MsgUpdated (ac_name applicationCommand) (ac_id applicationCommand))
           else (LError, MsgFailedToUpdate (ac_name applicationCommand) (ac_id applicationCommand)))
          \<in> set lg)"

text \<open>The requests that the platform rejected, and the log entries that report one.\<close>

definition rejected :: "'d remote_call \<Rightarrow> bool" where
  "rejected r = (case r of Create apiData guildId result \<Rightarrow> result = None | Edit c apiData ok \<Rightarrow> \<not> ok)"

definition failure_entry :: "level \<times> message \<Rightarrow> bool" where
  "failure_entry entry =
     (case entry of
        (LError, MsgFailedToRegister guildId name) \<Rightarrow> True
      | (LError, MsgFailedToUpdate name i) \<Rightarrow> True
      | _ \<Rightarrow> False)"

text \<open>The entries that the report at the end of a flush writes.\<close>

definition report_entry :: "level \<times> message \<Rightarrow> bool" where
  "report_entry entry =
     (case entry of
        (l, MsgReceivedErrors n) \<Rightarrow> True
      | (l, MsgRejection reason) \<Rightarrow> True
      | _ \<Rightarrow> False)"

subsection \<open>Executions under way\<close>

text \<open>
  The number of guild ids a suspended execution has yet to visit, the request whose
  settling it waits for, and whether that request was rejected.
\<close>

definition scopes_left :: "'d execution \<Rightarrow> nat" where
  "scopes_left x =
     (case x of
        Settled outcome \<Rightarrow> 0
      | AwaitEdit applicationCommand ok rest \<Rightarrow> length rest
      | AwaitCreate apiData label guildId result rest \<Rightarrow> length rest
      | Continue rest \<Rightarrow> length rest)"

definition awaits :: "'d execution \<Rightarrow> 'd remote_call \<Rightarrow> bool" where
  "awaits x r =
     (case x of
        AwaitEdit applicationCommand ok rest \<Rightarrow>
          (case r of
             Edit c apiData ok' \<Rightarrow> c = applicationCommand \<and> ok' = ok
           | Create apiData guildId result \<Rightarrow> False)
      | AwaitCreate apiData label guildId result rest \<Rightarrow>
          (case r of
             Create apiData' guildId' result' \<Rightarrow>
               apiData' = apiData \<and> guildId' = guildId \<and> result' = result
           | Edit c apiData' ok \<Rightarrow> False)
      | _ \<Rightarrow> False)"

definition awaited_failures :: "'d execution \<Rightarrow> nat" where
  "awaited_failures x =
     (case x of
        AwaitEdit applicationCommand ok rest \<Rightarrow> (if ok then 0 else 1)
      | AwaitCreate apiData label guildId result rest \<Rightarrow> (if result = None then 1 else 0)
      | _ \<Rightarrow> 0)"

section \<open>Basic facts\<close>

lemma log_at_fields [simp]:
  "logger (log_at l m s) = logger s @ [(l, m)]"
  "remote (log_at l m s) = remote s"
  "apiCalls (log_at l m s) = apiCalls s"
  "commandName (log_at l m s) = commandName s"
  "chatInputCommands (log_at l m s) = chatInputCommands s"
  "contextMenuCommands (log_at l m s) = contextMenuCommands s"
  "guildIdsToFetch (log_at l m s) = guildIdsToFetch s"
  "globalCommandId (log_at l m s) = globalCommandId s"
  "globalChatInputCommandIds (log_at l m s) = globalChatInputCommandIds s"
  "globalContextMenuCommandIds (log_at l m s) = globalContextMenuCommandIds s"
  "guildCommandIds (log_at l m s) = guildCommandIds s"
  "guildIdToChatInputCommandIds (log_at l m s) = guildIdToChatInputCommandIds s"
  "guildIdToContextMenuCommandIds (log_at l m s) = guildIdToContextMenuCommandIds s"
  "allGuildIdsToFetchCommandsFor (log_at l m s) = allGuildIdsToFetchCommandsFor s"
  by (simp_all add: log_at_def)

section \<open>Continuations come to an end\<close>

text \<open>
  Every continuation of a suspended execution brings it nearer to its end, so an
  execution that runs alone ends, and so does a flush, whatever the order in which the
  platform lets the suspended executions go on.
\<close>

lemma settled_simps [simp]:
  "settled (Settled r)"
  "\<not> settled (AwaitEdit c ok rest)"
  "\<not> settled (AwaitCreate d l g result rest)"
  "\<not> settled (Continue rest)"
  by (simp_all add: settled_def)

lemma outcome_of_Settled [simp]: "outcome_of (Settled r) = r"
  by (simp add: outcome_of_def)

lemma updatePresentCommand_split:
  "updatePresentCommand p e c d b g s =
     (case comparePresentCommand p e c d b g s of
        (None, s') \<Rightarrow> s'
      | (Some ok, s') \<Rightarrow> editSettled c ok s')"
  by (simp add: updatePresentCommand_def comparePresentCommand_def editSettled_def Let_def)

lemma createMissingCommand_split:
  "createMissingCommand p e d l g s =
     createSettled e d l g (create p (remote s) d g)
       (s\<lparr>remote := remote s @ [Create d g (create p (remote s) d g)]\<rparr>)"
  by (simp add: createMissingCommand_def createSettled_def Let_def)

lemma remaining_beginCommandPresent:
  "remaining (fst (beginCommandPresent p e c d b g rest s)) \<le> 2 * length rest + 2"
  by (simp add: beginCommandPresent_def Let_def split: prod.splits option.splits)

lemma remaining_requestCreate:
  "remaining (fst (requestCreate p d l g rest s)) = 2 * length rest + 2"
  by (simp add: requestCreate_def Let_def)

lemma remaining_continueGuilds:
  "remaining (fst (continueGuilds p e agc c gs s)) \<le> 2 * length gs"
proof (induction gs arbitrary: s)
  case Nil
  show ?case by simp
next
  case (Cons g gs)
  show ?case
    using Cons.IH remaining_beginCommandPresent [of p e _ "builtData c" "behaviorOf e c" "Some g" gs]
    by (auto simp: Let_def remaining_requestCreate le_SucI split: option.splits)
qed

lemma remaining_resume:
  "\<not> settled x \<Longrightarrow> remaining (fst (resume p e agc c x s)) < remaining x"
  using remaining_continueGuilds [of p e agc c _ s]
  by (cases x) (auto simp: resume_def le_imp_less_Suc)

termination runAlone
  by (relation "measure (\<lambda>(p, e, agc, c, x, s). remaining x)") (simp_all add: case_prod_beta remaining_resume)

declare runAlone.simps [simp del]

lemma sum_list_map_update_less:
  fixes f :: "'a \<Rightarrow> nat"
  assumes "j < length xs" and "f y < f (xs ! j)"
  shows "sum_list (map f (xs[j := y])) < sum_list (map f xs)"
  using assms
proof (induction xs arbitrary: j)
  case Nil
  then show ?case by simp
next
  case (Cons x xs)
  then show ?case
    by (cases j) (simp_all add: add_less_mono1)
qed

lemma suspended_iff: "j \<in> set (suspended xs) \<longleftrightarrow> j < length xs \<and> \<not> settled (snd (xs ! j))"
  by (auto simp: suspended_def)

lemma chosen_suspended: "suspended xs \<noteq> [] \<Longrightarrow> chosen p k xs \<in> set (suspended xs)"
  by (simp add: chosen_def)

lemma resumeAt_less:
  assumes "suspended xs \<noteq> []"
  shows "sum_list (map (\<lambda>cx. remaining (snd cx)) (fst (resumeAt p e agc (chosen p k xs) xs s)))
           < sum_list (map (\<lambda>cx. remaining (snd cx)) xs)"
proof -
  let ?j = "chosen p k xs"
  have j: "?j < length xs" "\<not> settled (snd (xs ! ?j))"
    using chosen_suspended [OF assms, of p k] by (simp_all add: suspended_iff)
  show ?thesis
    unfolding resumeAt_def
    using remaining_resume [OF j(2), of p e agc "fst (xs ! ?j)" s] j(1)
    by (auto simp: case_prod_beta intro!: sum_list_map_update_less)
qed

termination settle
  by (relation "measure (\<lambda>(p, e, agc, k, xs, s). sum_list (map (\<lambda>cx. remaining (snd cx)) xs))")
     (simp_all add: case_prod_beta resumeAt_less)

declare settle.simps [simp del]

section \<open>An execution that runs alone\<close>

text \<open>
  The continuations of a call, run one after the other with nothing in between, are
  \<^verbatim>\<open>handleAPICall\<close> as the source writes it.
\<close>

lemma runAlone_Settled [simp]: "runAlone p e agc c (Settled r) s = (r, s)"
  by (subst runAlone.simps) simp

lemma runAlone_AwaitEdit [simp]:
  "runAlone p e agc c (AwaitEdit cmd ok rest) s = runAlone p e agc c (Continue rest) (editSettled cmd ok s)"
  by (subst runAlone.simps) (simp add: resume_def)

lemma runAlone_AwaitCreate [simp]:
  "runAlone p e agc c (AwaitCreate d l g result rest) s =
     runAlone p e agc c (Continue rest) (createSettled e d l g result s)"
  by (subst runAlone.simps) (simp add: resume_def)

lemma runAlone_Continue:
  "runAlone p e agc c (Continue rest) s =
     runAlone p e agc c (fst (continueGuilds p e agc c rest s)) (snd (continueGuilds p e agc c rest s))"
  by (subst runAlone.simps) (simp add: resume_def)

lemma runAlone_beginCommandPresent:
  "runAlone p e agc c (fst (beginCommandPresent p e cmd d b g rest s))
     (snd (beginCommandPresent p e cmd d b g rest s)) =
   (case handleCommandPresent p e cmd d b g s of
      (Some thrown, s') \<Rightarrow> (Some thrown, s')
    | (None, s') \<Rightarrow> runAlone p e agc c (Continue rest) s')"
  by (auto simp: beginCommandPresent_def handleCommandPresent_def updatePresentCommand_split Let_def
      split: prod.splits option.splits)

lemma runAlone_requestCreate:
  "runAlone p e agc c (fst (requestCreate p d l g rest s)) (snd (requestCreate p d l g rest s)) =
   runAlone p e agc c (Continue rest) (createMissingCommand p e d l g s)"
  by (simp add: requestCreate_def createMissingCommand_split Let_def)

lemma runAlone_continueGuilds:
  "runAlone p e agc c (fst (continueGuilds p e agc c gs s)) (snd (continueGuilds p e agc c gs s)) =
   handleAPICall_guilds p e agc c gs s"
proof (induction gs arbitrary: s)
  case Nil
  show ?case by simp
next
  case (Cons g gs)
  have later: "runAlone p e agc c (Continue gs) s' = handleAPICall_guilds p e agc c gs s'" for s'
    by (simp add: runAlone_Continue Cons.IH)
  show ?case
    by (simp add: Let_def handleAPICall_guild_def runAlone_beginCommandPresent runAlone_requestCreate
        later Cons.IH split: option.splits prod.splits)
qed

lemma runAlone_startGlobal:
  "runAlone p e agc c (fst (startGlobal p e gc c s)) (snd (startGlobal p e gc c s)) =
   handleAPICall_global p e gc c s"
proof -
  have later: "runAlone p e agc c (Continue []) s' = (None, s')" for s'
    by (simp add: runAlone_Continue)
  show ?thesis
    by (simp add: startGlobal_def handleAPICall_global_def Let_def runAlone_beginCommandPresent
        runAlone_requestCreate later split: option.splits prod.splits)
qed

lemma runAlone_start:
  "runAlone p e agc c (fst (start p e gc agc c s)) (snd (start p e gc agc c s)) =
   handleAPICall p e gc agc c s"
  by (simp add: start_def handleAPICall_def runAlone_startGlobal runAlone_continueGuilds
      split: option.splits)

section \<open>Properties kept by a flush\<close>

text \<open>
  A property of the state that is kept by logging, by \<^verbatim>\<open>handleIdAddition\<close> and by the
  recording of a request is kept by every continuation of a call, and so by the flush,
  whatever the order of the continuations.
\<close>

lemma preserved_fold:
  assumes "\<And>x s. P s \<Longrightarrow> P (f x s)" and "P s"
  shows "P (fold f xs s)"
  using assms(2) by (induction xs arbitrary: s) (simp_all add: assms(1))

lemma preserved_comparePresentCommand:
  assumes log: "\<And>l m s. P s \<Longrightarrow> P (log_at l m s)"
    and req: "\<And>r s. P s \<Longrightarrow> P (s\<lparr>remote := remote s @ [r]\<rparr>)"
    and "P s"
  shows "P (snd (comparePresentCommand p e c d b g s))"
  using assms(3)
  by (simp add: comparePresentCommand_def Let_def logCommandDifferencesFound_def log req
      del: log_at_fields)

lemma preserved_editSettled:
  assumes log: "\<And>l m s. P s \<Longrightarrow> P (log_at l m s)" and "P s"
  shows "P (editSettled c ok s)"
  using assms(2) by (simp add: editSettled_def log)

lemma preserved_createSettled:
  assumes log: "\<And>l m s. P s \<Longrightarrow> P (log_at l m s)"
    and ida: "\<And>t i g s. P s \<Longrightarrow> P (handleIdAddition e t i g s)"
    and "P s"
  shows "P (createSettled e d l g result s)"
  using assms(3)
  by (simp add: createSettled_def Let_def log ida split: option.splits ApplicationCommandType.splits)

lemma preserved_beginCommandPresent:
  assumes log: "\<And>l m s. P s \<Longrightarrow> P (log_at l m s)"
    and req: "\<And>r s. P s \<Longrightarrow> P (s\<lparr>remote := remote s @ [r]\<rparr>)"
    and "P s"
  shows "P (snd (beginCommandPresent p e c d b g rest s))"
proof -
  have "P (snd (comparePresentCommand p e c d b' g s'))" if "P s'" for b' s'
    by (rule preserved_comparePresentCommand [of P, OF log req that])
  then show ?thesis
    using assms(3) by (simp add: beginCommandPresent_def Let_def log case_prod_beta split: option.splits)
qed

lemma preserved_requestCreate:
  assumes req: "\<And>r s. P s \<Longrightarrow> P (s\<lparr>remote := remote s @ [r]\<rparr>)"
    and "P s"
  shows "P (snd (requestCreate p d l g rest s))"
  using assms(2) by (simp add: requestCreate_def Let_def req)

lemma preserved_startGlobal:
  assumes log: "\<And>l m s. P s \<Longrightarrow> P (log_at l m s)"
    and ida: "\<And>t i g s. P s \<Longrightarrow> P (handleIdAddition e t i g s)"
    and req: "\<And>r s. P s \<Longrightarrow> P (s\<lparr>remote := remote s @ [r]\<rparr>)"
    and "P s"
  shows "P (snd (startGlobal p e gc c s))"
proof -
  have present: "P (snd (beginCommandPresent p e c' d b g rest s'))" if "P s'" for c' d b g rest s'
    by (rule preserved_beginCommandPresent [of P, OF log req that])
  have missing: "P (snd (requestCreate p d l g rest s'))" if "P s'" for d l g rest s'
    by (rule preserved_requestCreate [of P, OF req that])
  show ?thesis
    using assms(4)
    by (simp add: startGlobal_def Let_def log ida present missing split: option.splits)
qed

lemma preserved_continueGuilds:
  assumes log: "\<And>l m s. P s \<Longrightarrow> P (log_at l m s)"
    and ida: "\<And>t i g s. P s \<Longrightarrow> P (handleIdAddition e t i g s)"
    and req: "\<And>r s. P s \<Longrightarrow> P (s\<lparr>remote := remote s @ [r]\<rparr>)"
    and "P s"
  shows "P (snd (continueGuilds p e agc c gs s))"
  using assms(4)
proof (induction gs arbitrary: s)
  case Nil
  then show ?case by simp
next
  case (Cons g gs)
  have present: "P (snd (beginCommandPresent p e c' d b g' rest s'))" if "P s'" for c' d b g' rest s'
    by (rule preserved_beginCommandPresent [of P, OF log req that])
  have missing: "P (snd (requestCreate p d l g' rest s'))" if "P s'" for d l g' rest s'
    by (rule preserved_requestCreate [of P, OF req that])
  show ?case
    using Cons.prems
    by (simp add: Let_def log ida present missing Cons.IH split: option.splits)
qed

lemma preserved_start:
  assumes log: "\<And>l m s. P s \<Longrightarrow> P (log_at l m s)"
    and ida: "\<And>t i g s. P s \<Longrightarrow> P (handleIdAddition e t i g s)"
    and req: "\<And>r s. P s \<Longrightarrow> P (s\<lparr>remote := remote s @ [r]\<rparr>)"
    and "P s"
  shows "P (snd (start p e gc agc c s))"
  using preserved_startGlobal [of P e s p gc c, OF log ida req assms(4)]
    preserved_continueGuilds [of P e s p agc c, OF log ida req assms(4)]
  by (simp add: start_def split: option.splits)

lemma preserved_resume:
  assumes log: "\<And>l m s. P s \<Longrightarrow> P (log_at l m s)"
    and ida: "\<And>t i g s. P s \<Longrightarrow> P (handleIdAddition e t i g s)"
    and req: "\<And>r s. P s \<Longrightarrow> P (s\<lparr>remote := remote s @ [r]\<rparr>)"
    and "P s"
  shows "P (snd (resume p e agc c x s))"
  using preserved_continueGuilds [of P e s p agc c, OF log ida req assms(4)]
    preserved_editSettled [of P s, OF log assms(4)]
    preserved_createSettled [of P e s, OF log ida assms(4)] assms(4)
  by (cases x) (simp_all add: resume_def)

section \<open>Properties kept by every order of the continuations\<close>

text \<open>
  A property of the executions and the state that holds when a call has started, and
  that every continuation of a suspended execution keeps, holds when the flush has
  settled, whatever the order the platform has chosen.
\<close>

lemma startAll_invariant:
  assumes step: "\<And>ys c s. Inv ys s \<Longrightarrow>
      Inv (ys @ [(c, fst (start p e gc agc c s))]) (snd (start p e gc agc c s))"
    and "Inv ys s"
  shows "Inv (ys @ fst (startAll p e gc agc cs s)) (snd (startAll p e gc agc cs s))"
  using assms(2)
proof (induction cs arbitrary: ys s)
  case Nil
  then show ?case by simp
next
  case (Cons c cs)
  have "Inv (ys @ [(c, fst (start p e gc agc c s))]) (snd (start p e gc agc c s))"
    by (rule step [OF Cons.prems])
  from Cons.IH [OF this] show ?case
    by (simp add: case_prod_beta)
qed

lemma settle_invariant:
  assumes "\<And>j xs s. Inv xs s \<Longrightarrow> j < length xs \<Longrightarrow> \<not> settled (snd (xs ! j)) \<Longrightarrow>
      Inv (fst (resumeAt p e agc j xs s)) (snd (resumeAt p e agc j xs s))"
    and "Inv xs s"
  shows "Inv (fst (settle p e agc k xs s)) (snd (settle p e agc k xs s))"
  using assms
proof (induction p e agc k xs s rule: settle.induct)
  case (1 p e agc k xs s)
  show ?case
  proof (cases "suspended xs = []")
    case True
    then show ?thesis
      using "1.prems"(2) by (subst (1 2) settle.simps) simp
  next
    case False
    have j: "chosen p k xs < length xs" "\<not> settled (snd (xs ! chosen p k xs))"
      using chosen_suspended [OF False, of p k] by (simp_all add: suspended_iff)
    have "Inv (fst (resumeAt p e agc (chosen p k xs) xs s)) (snd (resumeAt p e agc (chosen p k xs) xs s))"
      by (rule "1.prems"(1) [OF "1.prems"(2) j])
    from "1.IH" [OF False "1.prems"(1) this] show ?thesis
      using False by (subst (1 2) settle.simps) simp
  qed
qed

lemma settle_settled: "suspended (fst (settle p e agc k xs s)) = []"
proof (induction p e agc k xs s rule: settle.induct)
  case (1 p e agc k xs s)
  show ?case
  proof (cases "suspended xs = []")
    case True
    then show ?thesis by (subst settle.simps) simp
  next
    case False
    from "1.IH" [OF False] show ?thesis
      using False by (subst settle.simps) simp
  qed
qed

lemma suspended_empty: "suspended xs = [] \<Longrightarrow> cx \<in> set xs \<Longrightarrow> settled (snd cx)"
  by (auto simp: suspended_def filter_empty_conv in_set_conv_nth)

lemma map_fst_startAll [simp]: "map fst (fst (startAll p e gc agc cs s)) = cs"
  by (induction cs arbitrary: s) (simp_all add: case_prod_beta)

lemma map_fst_resumeAt [simp]: "map fst (fst (resumeAt p e agc j xs s)) = map fst xs"
  by (cases "j < length xs")
    (simp_all add: resumeAt_def case_prod_beta map_update list_update_same_conv list_update_beyond)

lemma map_fst_settle [simp]: "map fst (fst (settle p e agc k xs s)) = map fst xs"
  by (rule settle_invariant [of "\<lambda>ys s'. map fst ys = map fst xs"]) simp_all

lemma length_allSettled: "length (fst (allSettled p e gc agc cs s)) = length cs"
proof -
  have "map fst (fst (settle p e agc 0 (fst (startAll p e gc agc cs s))
      (snd (startAll p e gc agc cs s)))) = cs"
    by simp
  then have "length (fst (settle p e agc 0 (fst (startAll p e gc agc cs s))
      (snd (startAll p e gc agc cs s)))) = length cs"
    by (metis length_map)
  then show ?thesis
    by (simp add: allSettled_def case_prod_beta)
qed

lemma preserved_startAll:
  assumes log: "\<And>l m s. P s \<Longrightarrow> P (log_at l m s)"
    and ida: "\<And>t i g s. P s \<Longrightarrow> P (handleIdAddition e t i g s)"
    and req: "\<And>r s. P s \<Longrightarrow> P (s\<lparr>remote := remote s @ [r]\<rparr>)"
    and "P s"
  shows "P (snd (startAll p e gc agc cs s))"
proof (rule startAll_invariant [of "\<lambda>ys s. P s" p e gc agc "[]"])
  show "P s" by (rule assms(4))
next
  fix s' c
  assume kept: "P s'"
  show "P (snd (start p e gc agc c s'))"
    by (rule preserved_start [of P, OF log ida req kept])
qed

lemma preserved_settle:
  assumes log: "\<And>l m s. P s \<Longrightarrow> P (log_at l m s)"
    and ida: "\<And>t i g s. P s \<Longrightarrow> P (handleIdAddition e t i g s)"
    and req: "\<And>r s. P s \<Longrightarrow> P (s\<lparr>remote := remote s @ [r]\<rparr>)"
    and "P s"
  shows "P (snd (settle p e agc k xs s))"
proof (rule settle_invariant [of "\<lambda>ys s. P s"])
  show "P s" by (rule assms(4))
next
  fix j and ys :: "('a InternalAPICall \<times> 'a execution) list" and s'
  assume kept: "P s'"
  have "P (snd (resume p e agc (fst (ys ! j)) (snd (ys ! j)) s'))"
    by (rule preserved_resume [of P, OF log ida req kept])
  then show "P (snd (resumeAt p e agc j ys s'))"
    by (simp add: resumeAt_def case_prod_beta)
qed

lemma preserved_allSettled:
  assumes log: "\<And>l m s. P s \<Longrightarrow> P (log_at l m s)"
    and ida: "\<And>t i g s. P s \<Longrightarrow> P (handleIdAddition e t i g s)"
    and req: "\<And>r s. P s \<Longrightarrow> P (s\<lparr>remote := remote s @ [r]\<rparr>)"
    and "P s"
  shows "P (snd (allSettled p e gc agc cs s))"
proof -
  have started: "P (snd (startAll p e gc agc cs s))"
    by (rule preserved_startAll [of P, OF log ida req assms(4)])
  have "P (snd (settle p e agc 0 (fst (startAll p e gc agc cs s)) (snd (startAll p e gc agc cs s))))"
    by (rule preserved_settle [of P, OF log ida req started])
  then show ?thesis
    by (simp add: allSettled_def case_prod_beta)
qed

lemma preserved_reportErrored:
  assumes log: "\<And>l m s. P s \<Longrightarrow> P (log_at l m s)" and "P s"
  shows "P (reportErrored rs s)"
proof -
  have "P (fold (\<lambda>r s. case r of Some reason \<Rightarrow> error (MsgRejection reason) s | None \<Rightarrow> s) xs s')"
    if "P s'" for xs s'
    using that by (rule preserved_fold [rotated]) (simp add: log split: option.splits)
  then show ?thesis
    using assms(2) by (simp add: reportErrored_def Let_def log)
qed

lemma preserved_runAPICalls:
  assumes log: "\<And>l m s. P s \<Longrightarrow> P (log_at l m s)"
    and ida: "\<And>t i g s. P s \<Longrightarrow> P (handleIdAddition e t i g s)"
    and req: "\<And>r s. P s \<Longrightarrow> P (s\<lparr>remote := remote s @ [r]\<rparr>)"
    and "P s"
  shows "P (snd (runAPICalls p e gc agc s))"
proof -
  have prepared: "P (debug (MsgPreparing (length (apiCalls s))) s)"
    using assms(4) by (rule log)
  have flushed:
    "P (snd (allSettled p e gc agc (apiCalls s) (debug (MsgPreparing (length (apiCalls s))) s)))"
    by (rule preserved_allSettled [of P, OF log ida req prepared])
  have "P (reportErrored rs
      (snd (allSettled p e gc agc (apiCalls s) (debug (MsgPreparing (length (apiCalls s))) s))))" for rs
    by (rule preserved_reportErrored [of P, OF log flushed])
  then show ?thesis
    using assms(4) by (simp add: runAPICalls_def case_prod_beta log)
qed

lemma kept_allSettled:
  assumes first: "\<And>c s. P s \<Longrightarrow> P (snd (start p e gc agc c s))"
    and step: "\<And>c x s. P s \<Longrightarrow> P (snd (resume p e agc c x s))"
    and "P s"
  shows "P (snd (allSettled p e gc agc cs s))"
proof -
  have started: "P (snd (startAll p e gc agc cs s))"
    by (rule startAll_invariant [of "\<lambda>ys s. P s" p e gc agc "[]"]) (simp_all add: first assms(3))
  have "P (snd (settle p e agc 0 (fst (startAll p e gc agc cs s)) (snd (startAll p e gc agc cs s))))"
    by (rule settle_invariant [of "\<lambda>ys s. P s"])
      (simp_all add: resumeAt_def case_prod_beta step started)
  then show ?thesis
    by (simp add: allSettled_def case_prod_beta)
qed

section \<open>States only grow\<close>

lemma sets_grow_refl [simp]: "sets_grow m m"
  by (simp add: sets_grow_def)

lemma sets_grow_trans: "sets_grow a b \<Longrightarrow> sets_grow b c \<Longrightarrow> sets_grow a c"
  unfolding sets_grow_def by (meson subset_trans)

lemma sets_grow_ensure_add [simp]: "sets_grow m (ensure_add m g i)"
  by (auto simp: sets_grow_def ensure_add_def)

lemma grows_refl [simp]: "grows s s"
  by (simp add: grows_def)

lemma grows_trans:
  assumes "grows a b" and "grows b c"
  shows "grows a c"
proof -
  have "sets_grow (guildIdToChatInputCommandIds a) (guildIdToChatInputCommandIds c)"
    using assms by (auto simp: grows_def intro: sets_grow_trans)
  moreover have "sets_grow (guildIdToContextMenuCommandIds a) (guildIdToContextMenuCommandIds c)"
    using assms by (auto simp: grows_def intro: sets_grow_trans)
  moreover have "guildCommandIds a \<subseteq>\<^sub>m guildCommandIds c"
    using assms by (auto simp: grows_def intro: map_le_trans)
  moreover have "prefix (logger a) (logger c)" "prefix (remote a) (remote c)"
    using assms by (auto simp: grows_def intro: prefix_order.trans)
  ultimately show ?thesis
    using assms by (auto simp: grows_def)
qed

lemma grows_log_at [simp]: "grows s (log_at l m s)"
  by (simp add: grows_def)

lemma grows_fold: "(\<And>x s. grows s (f x s)) \<Longrightarrow> grows s (fold f xs s)"
  by (induction xs arbitrary: s) (auto intro: grows_trans)

lemma grows_addChatInputCommandNames: "grows s (addChatInputCommandNames a s)"
  unfolding addChatInputCommandNames_def
  by (rule grows_fold) (auto simp: grows_def Let_def)

lemma grows_addContextMenuCommandNames: "grows s (addContextMenuCommandNames a s)"
  unfolding addContextMenuCommandNames_def
  by (rule grows_fold) (auto simp: grows_def Let_def)

lemma grows_addChatInputCommandIds: "grows s (addChatInputCommandIds e a s)"
  unfolding addChatInputCommandIds_def
  by (rule grows_fold) (auto simp: grows_def Let_def)

lemma grows_addContextMenuCommandIds: "grows s (addContextMenuCommandIds e a s)"
  unfolding addContextMenuCommandIds_def
  by (rule grows_fold) (auto simp: grows_def Let_def)

lemma grows_handleIdAddition: "grows s (handleIdAddition e t i g s)"
  by (auto simp: handleIdAddition_def addChatInputCommandIds_def addContextMenuCommandIds_def
        grows_def Let_def map_le_def
      split: InternalRegistryAPIType.splits option.splits)

lemma grows_updatePresentCommand: "grows s (updatePresentCommand p e c d b g s)"
  by (auto simp: updatePresentCommand_def logCommandDifferencesFound_def grows_def Let_def)

lemma grows_createMissingCommand: "grows s (createMissingCommand p e d l g s)"
proof -
  define r where "r = create p (remote s) d g"
  define s1 where "s1 = s\<lparr>remote := remote s @ [Create d g r]\<rparr>"
  have first: "grows s s1"
    by (simp add: grows_def s1_def)
  show ?thesis
  proof (cases r)
    case None
    then have "createMissingCommand p e d l g s = error (MsgFailedToRegister (truthy g) (data_name d)) s1"
      by (simp add: createMissingCommand_def Let_def r_def [symmetric] s1_def)
    then show ?thesis
      using grows_trans [OF first grows_log_at] by simp
  next
    case (Some created)
    define s2 where "s2 = info (MsgCreated l (truthy g) (data_name d) (ac_id created)) s1"
    have second: "grows s s2"
      unfolding s2_def by (rule grows_trans [OF first grows_log_at])
    have "\<exists>t. createMissingCommand p e d l g s = handleIdAddition e t (ac_id created) g s2"
      using Some
      by (auto simp: createMissingCommand_def Let_def r_def [symmetric] s1_def s2_def
          split: option.splits ApplicationCommandType.splits)
    then show ?thesis
      using grows_trans [OF second grows_handleIdAddition] by auto
  qed
qed

lemma grows_request: "grows s (s\<lparr>remote := remote s @ [r]\<rparr>)"
  by (simp add: grows_def)

lemma grows_then:
  "grows s s' \<Longrightarrow> grows s (log_at l m s')"
  "grows s s' \<Longrightarrow> grows s (handleIdAddition e t i g s')"
  "grows s s' \<Longrightarrow> grows s (s'\<lparr>remote := remote s' @ [r]\<rparr>)"
  by (blast intro: grows_trans grows_log_at grows_handleIdAddition grows_request)+

lemma grows_start: "grows s (snd (start p e gc agc c s))"
  by (rule preserved_start [of "grows s"]) (simp_all add: grows_then)

lemma grows_resume: "grows s (snd (resume p e agc c x s))"
  by (rule preserved_resume [of "grows s"]) (simp_all add: grows_then)

lemma grows_allSettled: "grows s (snd (allSettled p e gc agc cs s))"
  by (rule preserved_allSettled [of "grows s"]) (simp_all add: grows_then)

lemma grows_reportErrored: "grows s (reportErrored rs s)"
  by (rule preserved_reportErrored [of "grows s"]) (simp_all add: grows_then)

lemma grows_runAPICalls: "grows s (snd (runAPICalls p e gc agc s))"
  by (rule preserved_runAPICalls [of "grows s"]) (simp_all add: grows_then)

section \<open>The flush rejects a process-wide default of BulkOverwrite\<close>

text \<open>
  Claim C7. A flush of a registry that holds at least one pending call, while the
  process-wide default behaviour is \<^verbatim>\<open>BulkOverwrite\<close>, throws the range error at once:
  the state it leaves is the state it found, so no request was sent to the platform,
  nothing was logged and no id was recorded.
\<close>

theorem runAPICalls_rejects_BulkOverwrite_default:
  assumes "apiCalls s \<noteq> []"
    and "getDefaultBehaviorWhenNotIdentical e = BulkOverwrite"
  shows "runAPICalls p e globalCommands guildCommands s =
           (Some RangeError_runAPICalls_BulkOverwrite, s)"
  using assms by (simp add: runAPICalls_def)

theorem runAPICalls_rejects_BulkOverwrite_default_witness:
  "runAPICalls accepting (example_env BulkOverwrite None) [remote_ping] Map.empty
     (fresh\<lparr>apiCalls := [ping_call (options_of None None None None)]\<rparr>) =
   (Some RangeError_runAPICalls_BulkOverwrite,
    fresh\<lparr>apiCalls := [ping_call (options_of None None None None)]\<rparr>)"
proof -
  have pending: "apiCalls (fresh\<lparr>apiCalls := [ping_call (options_of None None None None)]\<rparr>) \<noteq> []"
    by simp
  have default: "getDefaultBehaviorWhenNotIdentical (example_env BulkOverwrite None) = BulkOverwrite"
    by (simp add: example_env_def)
  show ?thesis
    by (rule runAPICalls_rejects_BulkOverwrite_default [OF pending default])
qed

section \<open>Matching\<close>

text \<open>
  Claim C6. A match requires the kinds to be the same. With id hints declared, an entry
  of the same kind whose id is among the hints matches whatever its name is. Without
  hints, an entry matches exactly when it has the same kind and the same name. In
  general an entry matches when it has the same kind and either its id is hinted or its
  name is the name of the definition.
\<close>

theorem findCallback_matching:
  "(findCallback apiCall entry \<longrightarrow> sameKind apiCall entry) \<and>
   (sameKind apiCall entry \<and> idHints (registerOptions apiCall) = Some hints \<and>
      ac_id entry \<in> set hints \<longrightarrow> findCallback apiCall entry) \<and>
   (idHints (registerOptions apiCall) = None \<longrightarrow>
      findCallback apiCall entry =
        (sameKind apiCall entry \<and> ac_name entry = data_name (builtData apiCall))) \<and>
   findCallback apiCall entry =
     (sameKind apiCall entry \<and>
      ((case idHints (registerOptions apiCall) of
          Some hs \<Rightarrow> ac_id entry \<in> set hs
        | None \<Rightarrow> False) \<or>
       ac_name entry = data_name (builtData apiCall)))"
  by (auto simp: findCallback_def sameKind_def
      split: InternalRegistryAPIType.splits option.splits)

theorem findCallback_matching_witness:
  "findCallback (ping_call (options_of None None None (Some [''1'']))) remote_pong \<and>
   \<not> findCallback (ping_call (options_of None None None None)) remote_pong \<and>
   findCallback (ping_call (options_of None None None None)) remote_ping"
proof -
  have kind: "sameKind (ping_call (options_of None None None (Some [''1'']))) remote_pong"
    by (simp add: sameKind_def example_defs)
  have hinted: "idHints (registerOptions (ping_call (options_of None None None (Some [''1''])))) =
      Some [''1'']"
    by (simp add: example_defs)
  have member: "ac_id remote_pong \<in> set [''1'']"
    by (simp add: example_defs)
  have none: "idHints (registerOptions (ping_call (options_of None None None None))) = None"
    by (simp add: example_defs)
  have first: "findCallback (ping_call (options_of None None None (Some [''1'']))) remote_pong"
    using findCallback_matching
      [of "ping_call (options_of None None None (Some [''1'']))" remote_pong "[''1'']"]
      kind hinted member
    by blast
  have second: "\<not> findCallback (ping_call (options_of None None None None)) remote_pong"
    using findCallback_matching [of "ping_call (options_of None None None None)" remote_pong "[]"] none
    by (simp add: example_defs)
  have third: "findCallback (ping_call (options_of None None None None)) remote_ping"
    using findCallback_matching [of "ping_call (options_of None None None None)" remote_ping "[]"] none
    by (simp add: sameKind_def example_defs)
  from first second third show ?thesis by blast
qed

section \<open>BulkOverwrite as the behaviour of a call\<close>

text \<open>
  Claim C1, as amended. \<^verbatim>\<open>handleCommandPresent\<close> throws exactly when the behaviour it is
  given is \<^verbatim>\<open>BulkOverwrite\<close> and the process-wide default is \<^verbatim>\<open>BulkOverwrite\<close> as well; it
  then has only logged the debug message, so it throws before any request for the
  matched command. When the behaviour is \<^verbatim>\<open>BulkOverwrite\<close> and the default is another
  behaviour, it logs the debug message and goes on as for the default behaviour.
\<close>

theorem handleCommandPresent_BulkOverwrite:
  "fst (handleCommandPresent p e applicationCommand apiData behaviorIfNotEqual guildId s) =
     (if behaviorIfNotEqual = BulkOverwrite \<and> getDefaultBehaviorWhenNotIdentical e = BulkOverwrite
      then Some Error_Invalid_behaviorIfNotEqual else None) \<and>
   handleCommandPresent p e applicationCommand apiData BulkOverwrite guildId s =
     (if getDefaultBehaviorWhenNotIdentical e = BulkOverwrite
      then (Some Error_Invalid_behaviorIfNotEqual, debug (MsgBulkOverwriteInvalid (commandName s)) s)
      else handleCommandPresent p e applicationCommand apiData (getDefaultBehaviorWhenNotIdentical e)
             guildId (debug (MsgBulkOverwriteInvalid (commandName s)) s))"
  by (simp add: handleCommandPresent_def Let_def)

text \<open>
  A call whose behaviour is \<^verbatim>\<open>BulkOverwrite\<close>, with a default of \<^verbatim>\<open>Overwrite\<close> and a matched
  command that differs: nothing is thrown and the command is edited.
\<close>

theorem handleCommandPresent_BulkOverwrite_counterexample:
  "behaviorOf (example_env Overwrite None) (ping_call (options_of None None (Some BulkOverwrite) None)) =
     BulkOverwrite \<and>
   find (findCallback (ping_call (options_of None None (Some BulkOverwrite) None))) [remote_ping] =
     Some remote_ping \<and>
   fst (handleAPICall accepting (example_env Overwrite None) [remote_ping] Map.empty
          (ping_call (options_of None None (Some BulkOverwrite) None)) fresh) = None \<and>
   remote (snd (handleAPICall accepting (example_env Overwrite None) [remote_ping] Map.empty
          (ping_call (options_of None None (Some BulkOverwrite) None)) fresh)) =
     [Edit remote_ping ping True]"
  by (simp add: example_defs executor_defs)

theorem handleCommandPresent_BulkOverwrite_witness:
  "handleCommandPresent accepting (example_env BulkOverwrite None) remote_ping ping BulkOverwrite None fresh =
     (Some Error_Invalid_behaviorIfNotEqual, debug (MsgBulkOverwriteInvalid ''ping'') fresh) \<and>
   handleCommandPresent accepting (example_env LogToConsole None) remote_ping ping BulkOverwrite None fresh =
     handleCommandPresent accepting (example_env LogToConsole None) remote_ping ping LogToConsole None
       (debug (MsgBulkOverwriteInvalid ''ping'') fresh)"
  using handleCommandPresent_BulkOverwrite
      [of accepting "example_env BulkOverwrite None" remote_ping ping BulkOverwrite None fresh]
    handleCommandPresent_BulkOverwrite
      [of accepting "example_env LogToConsole None" remote_ping ping BulkOverwrite None fresh]
  by (simp add: example_env_def fresh_def new_ApplicationCommandRegistry_def)

section \<open>Recorded ids are known\<close>

lemma ids_known_log_at [simp]: "ids_known (log_at l m s) = ids_known s"
  by (simp add: ids_known_def)

lemma ids_known_old_fields [simp]:
  "ids_known (s\<lparr>guildCommandIds := m\<rparr>) = ids_known s"
  "ids_known (s\<lparr>globalCommandId := x\<rparr>) = ids_known s"
  by (simp_all add: ids_known_def)

lemma ids_known_chat_update:
  "ids_known s \<Longrightarrow> chatInputCommands s \<subseteq> A \<Longrightarrow> ids_known (s\<lparr>chatInputCommands := A\<rparr>)"
  unfolding ids_known_def by simp blast

lemma ids_known_menu_update:
  "ids_known s \<Longrightarrow> contextMenuCommands s \<subseteq> A \<Longrightarrow> ids_known (s\<lparr>contextMenuCommands := A\<rparr>)"
  unfolding ids_known_def by simp blast

lemma ids_known_record_chat:
  assumes "ids_known s" and "i \<in> chatInputCommands s"
  shows "ids_known (s\<lparr>guildIdToChatInputCommandIds := ensure_add (guildIdToChatInputCommandIds s) g i\<rparr>)"
    and "ids_known (s\<lparr>globalChatInputCommandIds := insert i (globalChatInputCommandIds s)\<rparr>)"
  using assms unfolding ids_known_def ensure_add_def
  by (simp_all split: option.splits)

lemma ids_known_record_menu:
  assumes "ids_known s" and "i \<in> contextMenuCommands s"
  shows "ids_known (s\<lparr>guildIdToContextMenuCommandIds := ensure_add (guildIdToContextMenuCommandIds s) g i\<rparr>)"
    and "ids_known (s\<lparr>globalContextMenuCommandIds := insert i (globalContextMenuCommandIds s)\<rparr>)"
  using assms unfolding ids_known_def ensure_add_def
  by (simp_all split: option.splits)

lemma ids_known_addChatInputCommandNames:
  "ids_known s \<Longrightarrow> ids_known (addChatInputCommandNames a s)"
  unfolding addChatInputCommandNames_def
  by (rule preserved_fold) (simp_all add: Let_def ids_known_chat_update subset_insertI)

lemma ids_known_addContextMenuCommandNames:
  "ids_known s \<Longrightarrow> ids_known (addContextMenuCommandNames a s)"
  unfolding addContextMenuCommandNames_def
  by (rule preserved_fold) (simp_all add: Let_def ids_known_menu_update subset_insertI)

lemma ids_known_addChatInputCommandIds:
  "ids_known s \<Longrightarrow> ids_known (addChatInputCommandIds e a s)"
  unfolding addChatInputCommandIds_def
  by (rule preserved_fold) (simp_all add: Let_def ids_known_chat_update subset_insertI)

lemma ids_known_addContextMenuCommandIds:
  "ids_known s \<Longrightarrow> ids_known (addContextMenuCommandIds e a s)"
  unfolding addContextMenuCommandIds_def
  by (rule preserved_fold) (simp_all add: Let_def ids_known_menu_update subset_insertI)

lemma ids_known_handleIdAddition:
  assumes "ids_known s"
  shows "ids_known (handleIdAddition e t i g s)"
proof -
  let ?c = "addChatInputCommandIds e (Strings [i]) s"
  let ?m = "addContextMenuCommandIds e (Strings [i]) s"
  have c: "ids_known ?c" "i \<in> chatInputCommands ?c"
    using assms by (simp_all add: ids_known_addChatInputCommandIds) (simp add: addChatInputCommandIds_def Let_def)
  have m: "ids_known ?m" "i \<in> contextMenuCommands ?m"
    using assms by (simp_all add: ids_known_addContextMenuCommandIds) (simp add: addContextMenuCommandIds_def Let_def)
  have stage:
    "ids_known
       (case t of
          ChatInput \<Rightarrow>
            (case truthy g of
               Some g \<Rightarrow>
                 ?c\<lparr>guildIdToChatInputCommandIds := ensure_add (guildIdToChatInputCommandIds ?c) g i\<rparr>
             | None \<Rightarrow> ?c\<lparr>globalChatInputCommandIds := insert i (globalChatInputCommandIds ?c)\<rparr>)
        | ContextMenu \<Rightarrow>
            (case truthy g of
               Some g \<Rightarrow>
                 ?m\<lparr>guildIdToContextMenuCommandIds :=
                      ensure_add (guildIdToContextMenuCommandIds ?m) g i\<rparr>
             | None \<Rightarrow> ?m\<lparr>globalContextMenuCommandIds := insert i (globalContextMenuCommandIds ?m)\<rparr>))"
    using ids_known_record_chat [OF c] ids_known_record_menu [OF m]
    by (simp split: InternalRegistryAPIType.splits option.splits)
  have final:
    "ids_known
       (case truthy g of
          Some g \<Rightarrow>
            (if guildCommandIds s' g = None then s'\<lparr>guildCommandIds := (guildCommandIds s')(g \<mapsto> i)\<rparr>
             else s')
        | None \<Rightarrow>
            s'\<lparr>globalCommandId :=
                (case globalCommandId s' of None \<Rightarrow> Some i | Some old \<Rightarrow> Some old)\<rparr>)"
    if "ids_known s'" for s' :: "'a registry"
    using that by (simp split: option.splits)
  show ?thesis
    unfolding handleIdAddition_def Let_def by (rule final) (rule stage)
qed

lemma identity_log_at [simp]: "identity (log_at l m s) = identity s"
  by (simp add: identity_def)

lemma identity_updatePresentCommand [simp]:
  "identity (updatePresentCommand p e c d b g s) = identity s"
  by (simp add: updatePresentCommand_def logCommandDifferencesFound_def identity_def Let_def)

lemma ids_known_identity: "identity s' = identity s \<Longrightarrow> ids_known s' = ids_known s"
  by (simp add: identity_def ids_known_def)

lemma ids_known_updatePresentCommand:
  "ids_known s \<Longrightarrow> ids_known (updatePresentCommand p e c d b g s)"
  using ids_known_identity [OF identity_updatePresentCommand] by blast

lemma ids_known_createMissingCommand:
  assumes "ids_known s"
  shows "ids_known (createMissingCommand p e d l g s)"
proof -
  have "ids_known (s\<lparr>remote := r\<rparr>)" for r
    using assms by (simp add: ids_known_def)
  then show ?thesis
    by (simp add: createMissingCommand_def Let_def ids_known_handleIdAddition
        split: option.splits ApplicationCommandType.splits)
qed

lemma ids_known_request [simp]: "ids_known (s\<lparr>remote := r\<rparr>) = ids_known s"
  by (simp add: ids_known_def)

lemma ids_known_runAPICalls:
  "ids_known s \<Longrightarrow> ids_known (snd (runAPICalls p e gc agc s))"
  by (rule preserved_runAPICalls [of ids_known]) (simp_all add: ids_known_handleIdAddition)

lemma ids_known_processGuildIds:
  assumes "ids_known s"
  shows "ids_known (processGuildIds g s)"
proof -
  have "ids_known (fold (\<lambda>i s. s\<lparr>guildIdsToFetch := insert i (guildIdsToFetch s),
                        allGuildIdsToFetchCommandsFor := insert i (allGuildIdsToFetchCommandsFor s)\<rparr>)
                  ids s)" for ids
    using assms by (rule preserved_fold [rotated]) (simp add: ids_known_def)
  then show ?thesis
    using assms by (simp add: processGuildIds_def split: option.splits)
qed

lemma ids_known_registerChatInputCommand:
  assumes "ids_known s"
  shows "ids_known (registerChatInputCommand e d options s)"
proof -
  define s1 where "s1 = s\<lparr>chatInputCommands := insert (data_name d) (chatInputCommands s)\<rparr>"
  have "ids_known s1"
    unfolding s1_def using assms by (rule ids_known_chat_update) (rule subset_insertI)
  then have first: "ids_known (s1\<lparr>apiCalls := calls\<rparr>)" for calls
    by (simp add: ids_known_def)
  have hints: "ids_known (fold (\<lambda>hint s. s\<lparr>chatInputCommands := insert hint (chatInputCommands s)\<rparr>) hs s')"
    if "ids_known s'" for hs and s' :: "'a registry"
    using that by (rule preserved_fold [rotated]) (simp add: ids_known_chat_update subset_insertI)
  show ?thesis
    unfolding registerChatInputCommand_def Let_def s1_def [symmetric]
    by (simp add: ids_known_processGuildIds hints first split: option.splits)
qed

lemma ids_known_registerContextMenuCommand:
  assumes "ids_known s"
  shows "ids_known (registerContextMenuCommand e d options s)"
proof -
  define s1 where "s1 = s\<lparr>contextMenuCommands := insert (data_name d) (contextMenuCommands s)\<rparr>"
  have "ids_known s1"
    unfolding s1_def using assms by (rule ids_known_menu_update) (rule subset_insertI)
  then have first: "ids_known (s1\<lparr>apiCalls := calls\<rparr>)" for calls
    by (simp add: ids_known_def)
  have hints: "ids_known (fold (\<lambda>hint s. s\<lparr>contextMenuCommands := insert hint (contextMenuCommands s)\<rparr>) hs s')"
    if "ids_known s'" for hs and s' :: "'a registry"
    using that by (rule preserved_fold [rotated]) (simp add: ids_known_menu_update subset_insertI)
  show ?thesis
    unfolding registerContextMenuCommand_def Let_def s1_def [symmetric]
    by (simp add: ids_known_processGuildIds hints first split: option.splits)
qed

lemma ids_known_perform: "ids_known s \<Longrightarrow> ids_known (perform p e op s)"
  by (cases op)
     (simp_all add: ids_known_registerChatInputCommand ids_known_registerContextMenuCommand
        ids_known_addChatInputCommandNames ids_known_addContextMenuCommandNames
        ids_known_addChatInputCommandIds ids_known_addContextMenuCommandIds
        ids_known_runAPICalls ids_known_handleIdAddition)

lemma ids_known_new: "ids_known (new_ApplicationCommandRegistry nm f lg rq)"
  by (simp add: ids_known_def new_ApplicationCommandRegistry_def)

text \<open>
  Claim C10. In a new registry every recorded id is a known name or id of its kind; each
  operation of the registry keeps that, whatever the platform and the environment do;
  so it holds after any sequence of operations on a new registry.
\<close>

theorem recorded_ids_are_known:
  "ids_known (new_ApplicationCommandRegistry nm fetch lg rq) \<and>
   (ids_known s \<longrightarrow> ids_known (perform p e op s)) \<and>
   ids_known (fold (perform p e) ops (new_ApplicationCommandRegistry nm fetch lg rq))"
proof -
  have "ids_known (fold (perform p e) ops s')" if "ids_known s'" for s'
    using that by (rule preserved_fold [rotated]) (rule ids_known_perform)
  then show ?thesis
    by (simp add: ids_known_new ids_known_perform)
qed

theorem recorded_ids_are_known_witness:
  "ids_known (fresh\<lparr>apiCalls := [ping_call (options_of None None None None)]\<rparr>) \<and>
   ids_known (perform rejecting (example_env Overwrite None) (RunAPICalls [remote_ping] Map.empty)
                (fresh\<lparr>apiCalls := [ping_call (options_of None None None None)]\<rparr>)) \<and>
   globalChatInputCommandIds
     (perform rejecting (example_env Overwrite None) (RunAPICalls [remote_ping] Map.empty)
        (fresh\<lparr>apiCalls := [ping_call (options_of None None None None)]\<rparr>)) = {''1''}"
proof -
  have start: "ids_known (fresh\<lparr>apiCalls := [ping_call (options_of None None None None)]\<rparr>)"
    by (simp add: ids_known_def fresh_def new_ApplicationCommandRegistry_def)
  have "ids_known (perform rejecting (example_env Overwrite None) (RunAPICalls [remote_ping] Map.empty)
                (fresh\<lparr>apiCalls := [ping_call (options_of None None None None)]\<rparr>))"
    using recorded_ids_are_known
      [of "''ping''" "{}" "[]" "[]" "fresh\<lparr>apiCalls := [ping_call (options_of None None None None)]\<rparr>"
         rejecting "example_env Overwrite None" "RunAPICalls [remote_ping] Map.empty" "[]"]
      start
    by blast
  moreover have "globalChatInputCommandIds
     (perform rejecting (example_env Overwrite None) (RunAPICalls [remote_ping] Map.empty)
        (fresh\<lparr>apiCalls := [ping_call (options_of None None None None)]\<rparr>)) = {''1''}"
    by (simp add: runAPICalls_def reportErrored_def example_defs executor_defs flush_defs settle.simps)
  ultimately show ?thesis
    using start by blast
qed

section \<open>What the continuations log and request\<close>

text \<open>
  The entries that each part of an execution adds to the log, sorted into those that take
  up a scope, those that report a rejected request and those of the report at the end of
  a flush, and the requests it adds.
\<close>

lemma appended_append [simp]: "appended a (a @ b) = b"
  by (simp add: appended_def)

lemma appended_same [simp]: "appended a a = []"
  by (simp add: appended_def)

lemma appended_prefix: "prefix a b \<Longrightarrow> a @ appended a b = b"
  by (auto simp: prefix_def)

lemma scopes_entered_simps [simp]:
  "scopes_entered l n [] = 0"
  "scopes_entered l n (lg @ lg') = scopes_entered l n lg + scopes_entered l n lg'"
  by (simp_all add: scopes_entered_def)

lemma scopes_entered_entry:
  "scopes_entered l n ((lv, m) # lg) =
     (if lv = LDebug \<and> scope_message l n m then 1 else 0) + scopes_entered l n lg"
  by (simp add: scopes_entered_def)

lemma failure_entry_iff:
  "failure_entry (l, m) \<longleftrightarrow>
     l = LError \<and> ((\<exists>g n. m = MsgFailedToRegister g n) \<or> (\<exists>n i. m = MsgFailedToUpdate n i))"
  by (cases l; cases m) (simp_all add: failure_entry_def)

lemma report_entry_iff:
  "report_entry (l, m) \<longleftrightarrow> (\<exists>n. m = MsgReceivedErrors n) \<or> (\<exists>r. m = MsgRejection r)"
  by (cases m) (simp_all add: report_entry_def)

lemma logger_handleIdAddition:
  "logger (handleIdAddition e t i g s) =
     logger s @
       (if BigInt_accepts e i then [(LDebug, MsgRegisteringId t i)]
        else [(LDebug, MsgRegisteringName t i), (LWarn, MsgNameBypassNotRecommended t i)])"
  by (simp add: handleIdAddition_def addChatInputCommandIds_def addContextMenuCommandIds_def Let_def
      split: InternalRegistryAPIType.splits option.splits)

lemma remote_handleIdAddition [simp]: "remote (handleIdAddition e t i g s) = remote s"
  by (simp add: handleIdAddition_def addChatInputCommandIds_def addContextMenuCommandIds_def Let_def
      split: InternalRegistryAPIType.splits option.splits)

lemma quiet_handleIdAddition [simp]:
  "scopes_entered l n (logger (handleIdAddition e t i g s)) = scopes_entered l n (logger s)"
  "filter failure_entry (logger (handleIdAddition e t i g s)) = filter failure_entry (logger s)"
  "filter report_entry (logger (handleIdAddition e t i g s)) = filter report_entry (logger s)"
  by (simp_all add: logger_handleIdAddition scopes_entered_entry scope_message_def
      failure_entry_def report_entry_def)

lemma quiet_comparePresentCommand [simp]:
  "scopes_entered l n (logger (snd (comparePresentCommand p e c d b g s))) = scopes_entered l n (logger s)"
  "filter failure_entry (logger (snd (comparePresentCommand p e c d b g s))) =
     filter failure_entry (logger s)"
  "filter report_entry (logger (snd (comparePresentCommand p e c d b g s))) =
     filter report_entry (logger s)"
  by (simp_all add: comparePresentCommand_def logCommandDifferencesFound_def Let_def
      scopes_entered_entry scope_message_def failure_entry_def report_entry_def)

lemma remote_comparePresentCommand:
  "remote (snd (comparePresentCommand p e c d b g s)) =
     remote s @ (case fst (comparePresentCommand p e c d b g s) of
                   Some ok \<Rightarrow> [Edit c d ok] | None \<Rightarrow> [])"
  by (simp add: comparePresentCommand_def logCommandDifferencesFound_def Let_def)

lemma quiet_beginCommandPresent [simp]:
  "scopes_entered l n (logger (snd (beginCommandPresent p e c d b g rest s))) =
     scopes_entered l n (logger s)"
  "filter failure_entry (logger (snd (beginCommandPresent p e c d b g rest s))) =
     filter failure_entry (logger s)"
  "filter report_entry (logger (snd (beginCommandPresent p e c d b g rest s))) =
     filter report_entry (logger s)"
  by (simp_all add: beginCommandPresent_def Let_def case_prod_beta
      scopes_entered_entry scope_message_def failure_entry_def report_entry_def
      split: option.splits)

lemma remote_beginCommandPresent:
  "remote (snd (beginCommandPresent p e c d b g rest s)) =
     remote s @ (case fst (beginCommandPresent p e c d b g rest s) of
                   AwaitEdit c' ok rest' \<Rightarrow> [Edit c d ok] | _ \<Rightarrow> [])"
  by (simp add: beginCommandPresent_def Let_def case_prod_beta remote_comparePresentCommand
      split: option.splits)

lemma shape_beginCommandPresent:
  "fst (beginCommandPresent p e c d b g rest s) = Settled (Some Error_Invalid_behaviorIfNotEqual) \<and>
     b = BulkOverwrite \<and> getDefaultBehaviorWhenNotIdentical e = BulkOverwrite \<or>
   fst (beginCommandPresent p e c d b g rest s) = Continue rest \<or>
   (\<exists>ok. fst (beginCommandPresent p e c d b g rest s) = AwaitEdit c ok rest)"
  by (simp add: beginCommandPresent_def Let_def case_prod_beta split: option.splits)

lemma quiet_editSettled [simp]:
  "scopes_entered l n (logger (editSettled c ok s)) = scopes_entered l n (logger s)"
  "filter failure_entry (logger (editSettled c ok s)) =
     filter failure_entry (logger s) @
       (if ok then [] else [(LError, MsgFailedToUpdate (ac_name c) (ac_id c))])"
  "filter report_entry (logger (editSettled c ok s)) = filter report_entry (logger s)"
  "remote (editSettled c ok s) = remote s"
  by (simp_all add: editSettled_def scopes_entered_entry scope_message_def failure_entry_def
      report_entry_def)

lemma quiet_createSettled [simp]:
  "scopes_entered l n (logger (createSettled e d label g result s)) = scopes_entered l n (logger s)"
  "filter failure_entry (logger (createSettled e d label g result s)) =
     filter failure_entry (logger s) @
       (if result = None then [(LError, MsgFailedToRegister (truthy g) (data_name d))] else [])"
  "filter report_entry (logger (createSettled e d label g result s)) = filter report_entry (logger s)"
  "remote (createSettled e d label g result s) = remote s"
  by (simp_all add: createSettled_def Let_def scopes_entered_entry scope_message_def failure_entry_def
      report_entry_def split: option.splits ApplicationCommandType.splits)

lemma requestCreate_simps [simp]:
  "fst (requestCreate p d l g rest s) = AwaitCreate d l g (create p (remote s) d g) rest"
  "logger (snd (requestCreate p d l g rest s)) = logger s"
  "remote (snd (requestCreate p d l g rest s)) = remote s @ [Create d g (create p (remote s) d g)]"
  by (simp_all add: requestCreate_def Let_def)


lemma scopes_left_simps [simp]:
  "scopes_left (Settled r) = 0"
  "scopes_left (AwaitEdit c ok rest) = length rest"
  "scopes_left (AwaitCreate d l g result rest) = length rest"
  "scopes_left (Continue rest) = length rest"
  by (simp_all add: scopes_left_def)

lemma awaited_failures_simps [simp]:
  "awaited_failures (Settled r) = 0"
  "awaited_failures (AwaitEdit c ok rest) = (if ok then 0 else 1)"
  "awaited_failures (AwaitCreate d l g result rest) = (if result = None then 1 else 0)"
  "awaited_failures (Continue rest) = 0"
  by (simp_all add: awaited_failures_def)

lemma rejected_simps [simp]:
  "rejected (Create d g result) = (result = None)"
  "rejected (Edit c d ok) = (\<not> ok)"
  by (simp_all add: rejected_def)

lemma scopes_left_beginCommandPresent:
  "getDefaultBehaviorWhenNotIdentical e \<noteq> BulkOverwrite \<Longrightarrow>
   scopes_left (fst (beginCommandPresent p e c d b g rest s)) = length rest"
  using shape_beginCommandPresent [of p e c d b g rest s] by auto

lemma outcome_beginCommandPresent:
  "getDefaultBehaviorWhenNotIdentical e \<noteq> BulkOverwrite \<Longrightarrow>
   outcome_of (fst (beginCommandPresent p e c d b g rest s)) = None"
  using shape_beginCommandPresent [of p e c d b g rest s] by (auto simp: outcome_of_def)

lemma failures_beginCommandPresent:
  "awaited_failures (fst (beginCommandPresent p e c d b g rest s)) +
     length (filter rejected (remote s)) =
   length (filter rejected (remote (snd (beginCommandPresent p e c d b g rest s))))"
  using shape_beginCommandPresent [of p e c d b g rest s]
  by (auto simp: remote_beginCommandPresent)

lemma awaits_beginCommandPresent:
  "r \<in> set (appended (remote s) (remote (snd (beginCommandPresent p e c d b g rest s)))) \<Longrightarrow>
   awaits (fst (beginCommandPresent p e c d b g rest s)) r"
  using shape_beginCommandPresent [of p e c d b g rest s]
  by (auto simp: remote_beginCommandPresent awaits_def)

section \<open>Balances over a flush\<close>

text \<open>
  A quantity of the state and a quantity of the executions under way whose sum every
  start and every continuation keeps: when the flush has settled, the quantity of the
  state has gone up by what the calls brought in.
\<close>

lemma sum_list_map_update:
  fixes f :: "'a \<Rightarrow> nat"
  assumes "j < length xs"
  shows "sum_list (map f (xs[j := y])) + f (xs ! j) = sum_list (map f xs) + f y"
  using assms
proof (induction xs arbitrary: j)
  case Nil
  then show ?case by simp
next
  case (Cons x xs)
  then show ?case
    by (cases j) (simp_all add: add.assoc)
qed

lemma balance_startAll:
  fixes A B :: "'d registry \<Rightarrow> nat" and w :: "'d InternalAPICall \<Rightarrow> 'd execution \<Rightarrow> nat"
  assumes step: "\<And>c s. A (snd (start p e gc agc c s)) + w c (fst (start p e gc agc c s)) + B s =
      A s + w0 c + B (snd (start p e gc agc c s))"
  shows "A (snd (startAll p e gc agc cs s)) +
           sum_list (map (\<lambda>cx. w (fst cx) (snd cx)) (fst (startAll p e gc agc cs s))) + B s =
         A s + sum_list (map w0 cs) + B (snd (startAll p e gc agc cs s))"
proof (induction cs arbitrary: s)
  case Nil
  show ?case by simp
next
  case (Cons c cs)
  show ?case
    using step [of c s] Cons.IH [of "snd (start p e gc agc c s)"]
    by (simp add: case_prod_beta)
qed

lemma balance_settle:
  fixes A B :: "'d registry \<Rightarrow> nat" and w :: "'d InternalAPICall \<Rightarrow> 'd execution \<Rightarrow> nat"
  assumes step: "\<And>c x s. \<not> settled x \<Longrightarrow>
      A (snd (resume p e agc c x s)) + w c (fst (resume p e agc c x s)) + B s =
      A s + w c x + B (snd (resume p e agc c x s))"
  shows "A (snd (settle p e agc k xs s)) +
           sum_list (map (\<lambda>cx. w (fst cx) (snd cx)) (fst (settle p e agc k xs s))) + B s =
         A s + sum_list (map (\<lambda>cx. w (fst cx) (snd cx)) xs) + B (snd (settle p e agc k xs s))"
proof (rule settle_invariant
    [of "\<lambda>ys s'. A s' + sum_list (map (\<lambda>cx. w (fst cx) (snd cx)) ys) + B s =
                  A s + sum_list (map (\<lambda>cx. w (fst cx) (snd cx)) xs) + B s'"])
  show "A s + sum_list (map (\<lambda>cx. w (fst cx) (snd cx)) xs) + B s =
        A s + sum_list (map (\<lambda>cx. w (fst cx) (snd cx)) xs) + B s"
    by simp
next
  fix j and ys :: "('d InternalAPICall \<times> 'd execution) list" and s1
  assume inv: "A s1 + sum_list (map (\<lambda>cx. w (fst cx) (snd cx)) ys) + B s =
               A s + sum_list (map (\<lambda>cx. w (fst cx) (snd cx)) xs) + B s1"
    and j: "j < length ys" and unsettled: "\<not> settled (snd (ys ! j))"
  let ?c = "fst (ys ! j)"
  let ?r = "resume p e agc ?c (snd (ys ! j)) s1"
  have one: "A (snd ?r) + w ?c (fst ?r) + B s1 = A s1 + w ?c (snd (ys ! j)) + B (snd ?r)"
    by (rule step [OF unsettled])
  have two: "sum_list (map (\<lambda>cx. w (fst cx) (snd cx)) (ys[j := (?c, fst ?r)])) + w ?c (snd (ys ! j)) =
             sum_list (map (\<lambda>cx. w (fst cx) (snd cx)) ys) + w ?c (fst ?r)"
    using sum_list_map_update [OF j, of "\<lambda>cx. w (fst cx) (snd cx)" "(?c, fst ?r)"] by simp
  show "A (snd (resumeAt p e agc j ys s1)) +
          sum_list (map (\<lambda>cx. w (fst cx) (snd cx)) (fst (resumeAt p e agc j ys s1))) + B s =
        A s + sum_list (map (\<lambda>cx. w (fst cx) (snd cx)) xs) + B (snd (resumeAt p e agc j ys s1))"
    using inv one two by (simp add: resumeAt_def case_prod_beta)
qed

lemma settled_weightless:
  fixes w :: "'d InternalAPICall \<Rightarrow> 'd execution \<Rightarrow> nat"
  assumes "\<And>c r. w c (Settled r) = 0" and "suspended xs = []"
  shows "sum_list (map (\<lambda>cx. w (fst cx) (snd cx)) xs) = 0"
proof -
  have "w (fst cx) (snd cx) = 0" if "cx \<in> set xs" for cx
    using suspended_empty [OF assms(2) that] assms(1) by (cases "snd cx") simp_all
  then show ?thesis
    by simp
qed

lemma balance_allSettled:
  fixes A B :: "'d registry \<Rightarrow> nat" and w :: "'d InternalAPICall \<Rightarrow> 'd execution \<Rightarrow> nat"
  assumes first: "\<And>c s. A (snd (start p e gc agc c s)) + w c (fst (start p e gc agc c s)) + B s =
      A s + w0 c + B (snd (start p e gc agc c s))"
    and step: "\<And>c x s. \<not> settled x \<Longrightarrow>
      A (snd (resume p e agc c x s)) + w c (fst (resume p e agc c x s)) + B s =
      A s + w c x + B (snd (resume p e agc c x s))"
    and final: "\<And>c r. w c (Settled r) = 0"
  shows "A (snd (allSettled p e gc agc cs s)) + B s =
         A s + sum_list (map w0 cs) + B (snd (allSettled p e gc agc cs s))"
proof -
  let ?xs = "fst (startAll p e gc agc cs s)"
  let ?s1 = "snd (startAll p e gc agc cs s)"
  let ?ys = "fst (settle p e agc 0 ?xs ?s1)"
  let ?s2 = "snd (settle p e agc 0 ?xs ?s1)"
  have one: "A ?s1 + sum_list (map (\<lambda>cx. w (fst cx) (snd cx)) ?xs) + B s =
             A s + sum_list (map w0 cs) + B ?s1"
    by (rule balance_startAll [of A p e gc agc w B w0, OF first])
  have two: "A ?s2 + sum_list (map (\<lambda>cx. w (fst cx) (snd cx)) ?ys) + B ?s1 =
             A ?s1 + sum_list (map (\<lambda>cx. w (fst cx) (snd cx)) ?xs) + B ?s2"
    by (rule balance_settle [of A p e agc w B, OF step])
  have three: "sum_list (map (\<lambda>cx. w (fst cx) (snd cx)) ?ys) = 0"
    by (rule settled_weightless [of w, OF final settle_settled])
  have "A ?s2 + B s = A s + sum_list (map w0 cs) + B ?s2"
    using one two three by simp
  then show ?thesis
    by (simp add: allSettled_def case_prod_beta)
qed

section \<open>Every call takes up every one of its scopes\<close>

text \<open>
  The scopes taken up so far and the scopes the executions under way have yet to visit
  add up to the scopes of the calls, as long as no execution is rejected.
\<close>

lemma scopes_continueGuilds:
  assumes "getDefaultBehaviorWhenNotIdentical e \<noteq> BulkOverwrite"
  shows "scopes_entered l n (logger (snd (continueGuilds p e agc c gs s))) +
           (if type_label c = l \<and> data_name (builtData c) = n
            then scopes_left (fst (continueGuilds p e agc c gs s)) else 0) =
         scopes_entered l n (logger s) +
           (if type_label c = l \<and> data_name (builtData c) = n then length gs else 0)"
proof (induction gs arbitrary: s)
  case Nil
  show ?case by simp
next
  case (Cons g gs)
  show ?case
  proof (cases "agc g")
    case None
    then show ?thesis
      by (auto simp: Let_def scopes_entered_entry scope_message_def)
  next
    case (Some cmds)
    show ?thesis
    proof (cases "find (findCallback c) cmds")
      case (Some m)
      with \<open>agc g = Some cmds\<close> show ?thesis
        by (auto simp: Let_def scopes_entered_entry scope_message_def
            scopes_left_beginCommandPresent [OF assms])
    next
      case None
      show ?thesis
      proof (cases "registerIfMissing c")
        case True
        with None \<open>agc g = Some cmds\<close> show ?thesis
          by (auto simp: Let_def scopes_entered_entry scope_message_def)
      next
        case False
        with None \<open>agc g = Some cmds\<close>
          Cons.IH [of "debug (MsgDoingNothingGuild (type_label c) (data_name (builtData c)) g) s"]
        show ?thesis
          by (auto simp: Let_def scopes_entered_entry scope_message_def)
      qed
    qed
  qed
qed

lemma scopes_left_beginCommandPresent_global [simp]:
  "scopes_left (fst (beginCommandPresent p e m d b g [] s)) = 0"
  using shape_beginCommandPresent [of p e m d b g "[]" s] by auto

lemma scopes_startGlobal:
  "scopes_entered l n (logger (snd (startGlobal p e gc c s))) +
     (if type_label c = l \<and> data_name (builtData c) = n
      then scopes_left (fst (startGlobal p e gc c s)) else 0) =
   scopes_entered l n (logger s) +
     (if type_label c = l \<and> data_name (builtData c) = n then 1 else 0)"
  by (auto simp: startGlobal_def Let_def scopes_entered_entry scope_message_def
      split: option.splits)

lemma scopes_start:
  assumes "getDefaultBehaviorWhenNotIdentical e \<noteq> BulkOverwrite"
  shows "scopes_entered l n (logger (snd (start p e gc agc c s))) +
           (if type_label c = l \<and> data_name (builtData c) = n
            then scopes_left (fst (start p e gc agc c s)) else 0) =
         scopes_entered l n (logger s) +
           (if type_label c = l \<and> data_name (builtData c) = n then length (buckets c) else 0)"
  using scopes_startGlobal [of l n p e gc c s] scopes_continueGuilds [OF assms, of l n p agc c _ s]
  by (auto simp: start_def buckets_def split: option.splits if_splits)

lemma scopes_resume:
  assumes "getDefaultBehaviorWhenNotIdentical e \<noteq> BulkOverwrite"
  shows "scopes_entered l n (logger (snd (resume p e agc c x s))) +
           (if type_label c = l \<and> data_name (builtData c) = n
            then scopes_left (fst (resume p e agc c x s)) else 0) =
         scopes_entered l n (logger s) +
           (if type_label c = l \<and> data_name (builtData c) = n then scopes_left x else 0)"
  using scopes_continueGuilds [OF assms, of l n p agc c _ s]
  by (cases x) (auto simp: resume_def split: if_splits)

lemma scopes_allSettled:
  assumes "getDefaultBehaviorWhenNotIdentical e \<noteq> BulkOverwrite"
  shows "scopes_entered l n (logger (snd (allSettled p e gc agc cs s))) =
         scopes_entered l n (logger s) + scopes_of l n cs"
  using balance_allSettled
    [of "\<lambda>s. scopes_entered l n (logger s)" p e gc agc
        "\<lambda>c x. if type_label c = l \<and> data_name (builtData c) = n then scopes_left x else 0"
        "\<lambda>s. 0"
        "\<lambda>c. if type_label c = l \<and> data_name (builtData c) = n then length (buckets c) else 0"
        cs s]
    scopes_start [OF assms, of l n p gc agc] scopes_resume [OF assms, of l n p agc]
  by (simp add: scopes_of_def)

section \<open>Every rejected request is logged once\<close>

text \<open>
  The error entries logged so far and the rejected requests that executions still wait
  for add up to the rejected requests made so far.
\<close>

lemma failures_continueGuilds:
  "length (filter failure_entry (logger (snd (continueGuilds p e agc c gs s)))) +
     awaited_failures (fst (continueGuilds p e agc c gs s)) + length (filter rejected (remote s)) =
   length (filter failure_entry (logger s)) +
     length (filter rejected (remote (snd (continueGuilds p e agc c gs s))))"
proof (induction gs arbitrary: s)
  case Nil
  show ?case by simp
next
  case (Cons g gs)
  have present:
    "length (filter failure_entry (logger s)) +
       awaited_failures (fst (beginCommandPresent p e m (builtData c) (behaviorOf e c) (Some g) gs
         (handleIdAddition e (call_type c) (ac_id m) (Some g) (debug msg s)))) +
       length (filter rejected (remote s)) =
     length (filter failure_entry (logger s)) +
       length (filter rejected (remote (snd (beginCommandPresent p e m (builtData c) (behaviorOf e c)
         (Some g) gs (handleIdAddition e (call_type c) (ac_id m) (Some g) (debug msg s))))))"
    for m msg
    using failures_beginCommandPresent
      [of p e m "builtData c" "behaviorOf e c" "Some g" gs
          "handleIdAddition e (call_type c) (ac_id m) (Some g) (debug msg s)"]
    by simp
  show ?case
    using Cons.IH [of "debug (MsgDoingNothingGuild (type_label c) (data_name (builtData c)) g) s"]
    by (simp add: Let_def failure_entry_iff present split: option.splits)
qed

lemma failures_startGlobal:
  "length (filter failure_entry (logger (snd (startGlobal p e gc c s)))) +
     awaited_failures (fst (startGlobal p e gc c s)) + length (filter rejected (remote s)) =
   length (filter failure_entry (logger s)) +
     length (filter rejected (remote (snd (startGlobal p e gc c s))))"
proof -
  have present:
    "length (filter failure_entry (logger s)) +
       awaited_failures (fst (beginCommandPresent p e m (builtData c) (behaviorOf e c) None []
         (handleIdAddition e (call_type c) (ac_id m) None (debug msg s)))) +
       length (filter rejected (remote s)) =
     length (filter failure_entry (logger s)) +
       length (filter rejected (remote (snd (beginCommandPresent p e m (builtData c) (behaviorOf e c)
         None [] (handleIdAddition e (call_type c) (ac_id m) None (debug msg s))))))"
    for m msg
    using failures_beginCommandPresent
      [of p e m "builtData c" "behaviorOf e c" None "[]"
          "handleIdAddition e (call_type c) (ac_id m) None (debug msg s)"]
    by simp
  show ?thesis
    by (simp add: startGlobal_def Let_def failure_entry_iff present split: option.splits)
qed

lemma failures_start:
  "length (filter failure_entry (logger (snd (start p e gc agc c s)))) +
     awaited_failures (fst (start p e gc agc c s)) + length (filter rejected (remote s)) =
   length (filter failure_entry (logger s)) + 0 +
     length (filter rejected (remote (snd (start p e gc agc c s))))"
  using failures_startGlobal [of p e gc c s] failures_continueGuilds [of p e agc c _ s]
  by (simp add: start_def split: option.splits)

lemma failures_resume:
  "length (filter failure_entry (logger (snd (resume p e agc c x s)))) +
     awaited_failures (fst (resume p e agc c x s)) + length (filter rejected (remote s)) =
   length (filter failure_entry (logger s)) + awaited_failures x +
     length (filter rejected (remote (snd (resume p e agc c x s))))"
  using failures_continueGuilds [of p e agc c _ s]
  by (cases x) (simp_all add: resume_def)

lemma failures_allSettled:
  "length (filter failure_entry (logger (snd (allSettled p e gc agc cs s)))) +
     length (filter rejected (remote s)) =
   length (filter failure_entry (logger s)) +
     length (filter rejected (remote (snd (allSettled p e gc agc cs s))))"
  using balance_allSettled
    [of "\<lambda>s. length (filter failure_entry (logger s))" p e gc agc
        "\<lambda>c. awaited_failures" "\<lambda>s. length (filter rejected (remote s))" "\<lambda>c. 0" cs s]
    failures_start [of p e gc agc] failures_resume [of p e agc]
  by simp

section \<open>No continuation writes to the report\<close>

lemma reports_continueGuilds:
  "filter report_entry (logger (snd (continueGuilds p e agc c gs s))) = filter report_entry (logger s)"
proof (induction gs arbitrary: s)
  case Nil
  show ?case by simp
next
  case (Cons g gs)
  show ?case
    by (simp add: Let_def report_entry_iff Cons.IH split: option.splits)
qed

lemma reports_start:
  "filter report_entry (logger (snd (start p e gc agc c s))) = filter report_entry (logger s)"
  by (simp add: start_def startGlobal_def Let_def report_entry_iff reports_continueGuilds
      split: option.splits)

lemma reports_resume:
  "filter report_entry (logger (snd (resume p e agc c x s))) = filter report_entry (logger s)"
  by (cases x) (simp_all add: resume_def reports_continueGuilds)

lemma reports_allSettled:
  "filter report_entry (logger (snd (allSettled p e gc agc cs s))) = filter report_entry (logger s)"
  by (rule kept_allSettled
      [of "\<lambda>s'. filter report_entry (logger s') = filter report_entry (logger s)"])
    (simp_all add: reports_start reports_resume)

section \<open>What is thrown\<close>

lemma handleCommandPresent_thrown:
  "fst (handleCommandPresent p e c d b g s) =
     (if b = BulkOverwrite \<and> getDefaultBehaviorWhenNotIdentical e = BulkOverwrite
      then Some Error_Invalid_behaviorIfNotEqual else None)"
  by (simp add: handleCommandPresent_def Let_def)

lemma outcome_continueGuilds:
  assumes "getDefaultBehaviorWhenNotIdentical e \<noteq> BulkOverwrite"
  shows "outcome_of (fst (continueGuilds p e agc c gs s)) = None"
proof (induction gs arbitrary: s)
  case Nil
  show ?case by simp
next
  case (Cons g gs)
  show ?case
    by (simp add: Let_def outcome_of_def [of "AwaitCreate _ _ _ _ _"]
        outcome_beginCommandPresent [OF assms] Cons.IH split: option.splits)
qed

lemma outcome_start:
  assumes "getDefaultBehaviorWhenNotIdentical e \<noteq> BulkOverwrite"
  shows "outcome_of (fst (start p e gc agc c s)) = None"
  by (simp add: start_def startGlobal_def Let_def outcome_of_def [of "AwaitCreate _ _ _ _ _"]
      outcome_beginCommandPresent [OF assms] outcome_continueGuilds [OF assms] split: option.splits)

lemma outcome_resume:
  assumes "getDefaultBehaviorWhenNotIdentical e \<noteq> BulkOverwrite" and "outcome_of x = None"
  shows "outcome_of (fst (resume p e agc c x s)) = None"
  using assms(2)
  by (cases x) (simp_all add: resume_def outcome_of_def [of "Continue _"]
      outcome_continueGuilds [OF assms(1)])

lemma allSettled_fulfilled:
  assumes "getDefaultBehaviorWhenNotIdentical e \<noteq> BulkOverwrite"
  shows "fst (allSettled p e gc agc cs s) = map (\<lambda>c. None) cs"
proof -
  let ?xs = "fst (startAll p e gc agc cs s)"
  let ?s1 = "snd (startAll p e gc agc cs s)"
  let ?ys = "fst (settle p e agc 0 ?xs ?s1)"
  have started: "\<forall>cx\<in>set ([] @ ?xs). outcome_of (snd cx) = None"
    by (rule startAll_invariant [of "\<lambda>ys s. \<forall>cx\<in>set ys. outcome_of (snd cx) = None"])
      (simp_all add: outcome_start [OF assms])
  have step: "\<forall>cx\<in>set (fst (resumeAt p e agc j ys s')). outcome_of (snd cx) = None"
    if "\<forall>cx\<in>set ys. outcome_of (snd cx) = None" and "j < length ys"
    for j s' and ys :: "('a InternalAPICall \<times> 'a execution) list"
  proof
    fix cx
    assume "cx \<in> set (fst (resumeAt p e agc j ys s'))"
    then have "cx \<in> set ys \<or> cx = (fst (ys ! j), fst (resume p e agc (fst (ys ! j)) (snd (ys ! j)) s'))"
      using set_update_subset_insert [of ys j]
      by (auto simp: resumeAt_def case_prod_beta)
    then show "outcome_of (snd cx) = None"
      using that outcome_resume [OF assms, of "snd (ys ! j)" p agc "fst (ys ! j)" s']
      by auto
  qed
  have "\<forall>cx\<in>set ?ys. outcome_of (snd cx) = None"
    using started
    by (intro settle_invariant [of "\<lambda>ys s. \<forall>cx\<in>set ys. outcome_of (snd cx) = None"] step) simp_all
  then have "map (\<lambda>(call, x). outcome_of x) ?ys = map (\<lambda>cx. None) ?ys"
    by (simp add: case_prod_beta)
  moreover have "length ?ys = length cs"
    using length_allSettled [of p e gc agc cs s] by (simp add: allSettled_def case_prod_beta)
  ultimately show ?thesis
    by (simp add: allSettled_def case_prod_beta map_replicate_const)
qed

lemma reportErrored_fulfilled: "reportErrored (map (\<lambda>c. None) cs) s = s"
  by (simp add: reportErrored_def)

lemma runAPICalls_thrown:
  "fst (runAPICalls p e gc agc s) =
     (if apiCalls s \<noteq> [] \<and> getDefaultBehaviorWhenNotIdentical e = BulkOverwrite
      then Some RangeError_runAPICalls_BulkOverwrite else None)"
  by (simp add: runAPICalls_def case_prod_beta)

lemma runAPICalls_state:
  "snd (runAPICalls p e gc agc s) =
     (if apiCalls s = [] then trace MsgNoAPICalls s
      else if getDefaultBehaviorWhenNotIdentical e = BulkOverwrite then s
      else snd (allSettled p e gc agc (apiCalls s) (debug (MsgPreparing (length (apiCalls s))) s)))"
  by (simp add: runAPICalls_def case_prod_beta allSettled_fulfilled reportErrored_fulfilled)

section \<open>Every request of a flush is handled\<close>

text \<open>
  At every moment of a flush, each request made since its start is either handled or
  waited for by an execution under way; when the flush has settled no execution waits.
\<close>

lemma recorded_identity: "identity s' = identity s \<Longrightarrow> recorded t i g s' = recorded t i g s"
  by (auto simp: identity_def recorded_def split: InternalRegistryAPIType.splits option.splits)

lemma recorded_handleIdAddition: "recorded t i g (handleIdAddition e t i g s)"
  by (simp add: recorded_def handleIdAddition_def addChatInputCommandIds_def
        addContextMenuCommandIds_def ensure_add_def Let_def
      split: InternalRegistryAPIType.splits option.splits)
lemma sets_grow_member:
  assumes "sets_grow m m'" and "case m g of None \<Rightarrow> False | Some ids \<Rightarrow> i \<in> ids"
  shows "case m' g of None \<Rightarrow> False | Some ids \<Rightarrow> i \<in> ids"
proof (cases "m g")
  case None
  with assms(2) show ?thesis by simp
next
  case (Some ids)
  with assms(1) obtain ids' where "m' g = Some ids'" and "ids \<subseteq> ids'"
    unfolding sets_grow_def by blast
  with Some assms(2) show ?thesis by auto
qed

lemma recorded_grows:
  assumes "grows s s'" and "recorded t i g s"
  shows "recorded t i g s'"
proof (cases "truthy g")
  case None
  with assms show ?thesis
    by (cases t) (auto simp: recorded_def grows_def)
next
  case (Some g')
  show ?thesis
  proof (cases t)
    case ChatInput
    with Some assms
      sets_grow_member
        [where m = "guildIdToChatInputCommandIds s" and m' = "guildIdToChatInputCommandIds s'"
           and g = g' and i = i]
    show ?thesis by (simp add: recorded_def grows_def)
  next
    case ContextMenu
    with Some assms
      sets_grow_member
        [where m = "guildIdToContextMenuCommandIds s" and m' = "guildIdToContextMenuCommandIds s'"
           and g = g' and i = i]
    show ?thesis by (simp add: recorded_def grows_def)
  qed
qed


lemma appended_longer: "length a \<le> length b \<Longrightarrow> appended a (b @ c) = appended a b @ c"
  by (simp add: appended_def)

lemma grows_appended:
  assumes "grows s0 s1" and "grows s1 s2"
  shows "appended (logger s0) (logger s2) =
           appended (logger s0) (logger s1) @ appended (logger s1) (logger s2)"
    and "appended (remote s0) (remote s2) =
           appended (remote s0) (remote s1) @ appended (remote s1) (remote s2)"
proof -
  have "logger s2 = logger s1 @ appended (logger s1) (logger s2)"
    using assms(2) by (simp add: grows_def appended_prefix)
  moreover have "length (logger s0) \<le> length (logger s1)"
    using assms(1) by (simp add: grows_def prefix_length_le)
  ultimately show "appended (logger s0) (logger s2) =
      appended (logger s0) (logger s1) @ appended (logger s1) (logger s2)"
    using appended_longer [of "logger s0" "logger s1" "appended (logger s1) (logger s2)"] by simp
  have "remote s2 = remote s1 @ appended (remote s1) (remote s2)"
    using assms(2) by (simp add: grows_def appended_prefix)
  moreover have "length (remote s0) \<le> length (remote s1)"
    using assms(1) by (simp add: grows_def prefix_length_le)
  ultimately show "appended (remote s0) (remote s2) =
      appended (remote s0) (remote s1) @ appended (remote s1) (remote s2)"
    using appended_longer [of "remote s0" "remote s1" "appended (remote s1) (remote s2)"] by simp
qed

lemma handled_more:
  assumes "set lg \<subseteq> set lg'" and "grows s s'" and "handled lg s r"
  shows "handled lg' s' r"
proof (cases r)
  case (Create d g result)
  show ?thesis
  proof (cases result)
    case None
    with Create assms(1,3) show ?thesis
      by (auto simp: handled_def)
  next
    case (Some created)
    with Create assms(1,3) recorded_grows [OF assms(2), of "created_kind d" "ac_id created" g]
    show ?thesis
      by (auto simp: handled_def list_ex_iff)
  qed
next
  case (Edit c d ok)
  with assms(1,3) show ?thesis
    by (auto simp: handled_def)
qed

lemma awaits_simps [simp]:
  "\<not> awaits (Settled outcome) r"
  "\<not> awaits (Continue rest) r"
  "awaits (AwaitEdit c ok rest) r = (\<exists>d. r = Edit c d ok)"
  "awaits (AwaitCreate d l g result rest) r = (r = Create d g result)"
  by (cases r; auto simp: awaits_def)+

lemma issued_continueGuilds:
  "\<exists>rq. remote (snd (continueGuilds p e agc c gs s)) = remote s @ rq \<and>
        (\<forall>r\<in>set rq. awaits (fst (continueGuilds p e agc c gs s)) r)"
proof (induction gs arbitrary: s)
  case Nil
  show ?case by simp
next
  case (Cons g gs)
  have present:
    "\<exists>rq. remote (snd (beginCommandPresent p e m d b g' rest s')) = remote s' @ rq \<and>
          (\<forall>r\<in>set rq. awaits (fst (beginCommandPresent p e m d b g' rest s')) r)"
    for m d b g' rest s'
    using shape_beginCommandPresent [of p e m d b g' rest s']
    by (auto simp: remote_beginCommandPresent)
  show ?case
  proof (cases "agc g")
    case None
    then show ?thesis by (simp add: Let_def)
  next
    case (Some cmds)
    show ?thesis
    proof (cases "find (findCallback c) cmds")
      case (Some m)
      with \<open>agc g = Some cmds\<close>
        present [of m "builtData c" "behaviorOf e c" "Some g" gs
          "handleIdAddition e (call_type c) (ac_id m) (Some g)
             (debug (MsgCheckingGuild (type_label c) (data_name (builtData c)) (ac_id m)) s)"]
      show ?thesis by (simp add: Let_def)
    next
      case None
      with \<open>agc g = Some cmds\<close>
        Cons.IH [of "debug (MsgDoingNothingGuild (type_label c) (data_name (builtData c)) g) s"]
      show ?thesis by (simp add: Let_def)
    qed
  qed
qed

lemma issued_startGlobal:
  "\<exists>rq. remote (snd (startGlobal p e gc c s)) = remote s @ rq \<and>
        (\<forall>r\<in>set rq. awaits (fst (startGlobal p e gc c s)) r)"
proof (cases "find (findCallback c) gc")
  case None
  then show ?thesis by (simp add: startGlobal_def Let_def)
next
  case (Some m)
  let ?s = "handleIdAddition e (call_type c) (ac_id m) None
     (debug (MsgCheckingGlobal (data_name (builtData c)) (type_label c) (ac_id m)) s)"
  show ?thesis
    using Some shape_beginCommandPresent [of p e m "builtData c" "behaviorOf e c" None "[]" ?s]
    by (auto simp: startGlobal_def Let_def remote_beginCommandPresent)
qed

lemma awaited_continueGuilds:
  assumes "r \<in> set (appended (remote s) (remote (snd (continueGuilds p e agc c gs s))))"
  shows "awaits (fst (continueGuilds p e agc c gs s)) r"
proof -
  obtain rq where "remote (snd (continueGuilds p e agc c gs s)) = remote s @ rq"
    and "\<forall>r\<in>set rq. awaits (fst (continueGuilds p e agc c gs s)) r"
    using issued_continueGuilds [of p e agc c gs s] by blast
  with assms show ?thesis by simp
qed

lemma awaited_startGlobal:
  assumes "r \<in> set (appended (remote s) (remote (snd (startGlobal p e gc c s))))"
  shows "awaits (fst (startGlobal p e gc c s)) r"
proof -
  obtain rq where "remote (snd (startGlobal p e gc c s)) = remote s @ rq"
    and "\<forall>r\<in>set rq. awaits (fst (startGlobal p e gc c s)) r"
    using issued_startGlobal [of p e gc c s] by blast
  with assms show ?thesis by simp
qed

lemma issued_start:
  "r \<in> set (appended (remote s) (remote (snd (start p e gc agc c s)))) \<Longrightarrow>
   awaits (fst (start p e gc agc c s)) r"
  by (simp add: start_def awaited_startGlobal awaited_continueGuilds split: option.splits if_splits)

lemma issued_resume:
  "r \<in> set (appended (remote s) (remote (snd (resume p e agc c x s)))) \<Longrightarrow>
   awaits (fst (resume p e agc c x s)) r"
  by (cases x) (simp_all add: resume_def awaited_continueGuilds)

lemma logger_createSettled:
  "logger (createSettled e d l g (Some created) s) =
     logger s @ (LInfo, MsgCreated l (truthy g) (data_name d) (ac_id created)) #
       (if BigInt_accepts e (ac_id created)
        then [(LDebug, MsgRegisteringId (created_kind d) (ac_id created))]
        else [(LDebug, MsgRegisteringName (created_kind d) (ac_id created)),
              (LWarn, MsgNameBypassNotRecommended (created_kind d) (ac_id created))])"
  by (simp add: createSettled_def created_kind_def Let_def logger_handleIdAddition
      split: option.splits ApplicationCommandType.splits)

lemma recorded_createSettled:
  "recorded (created_kind d) (ac_id created) g (createSettled e d l g (Some created) s)"
  by (simp add: createSettled_def created_kind_def Let_def recorded_handleIdAddition
      split: option.splits ApplicationCommandType.splits)

lemma resume_handles:
  assumes "awaits x r"
  shows "handled (appended (logger s) (logger (snd (resume p e agc c x s))))
           (snd (resume p e agc c x s)) r"
proof (cases x)
  case (Settled outcome)
  with assms show ?thesis by simp
next
  case (AwaitEdit m ok rest)
  with assms show ?thesis
    by (auto simp: resume_def editSettled_def handled_def)
next
  case (AwaitCreate d l g result rest)
  show ?thesis
  proof (cases result)
    case None
    with AwaitCreate assms show ?thesis
      by (simp add: resume_def createSettled_def handled_def)
  next
    case (Some created)
    have "list_ex (created_entry d g created)
        (appended (logger s) (logger (createSettled e d l g (Some created) s)))"
      by (subst logger_createSettled) (simp add: created_entry_def)
    with Some AwaitCreate assms show ?thesis
      by (simp add: resume_def handled_def recorded_createSettled)
  qed
next
  case (Continue rest)
  with assms show ?thesis by simp
qed

lemma set_update_other: "cx \<in> set ys \<Longrightarrow> cx \<noteq> ys ! j \<Longrightarrow> cx \<in> set (ys[j := y])"
  by (metis in_set_conv_nth length_list_update nth_list_update_neq)

lemma cover_step:
  assumes grew: "grows s0 s1"
    and inv: "\<forall>r\<in>set (appended (remote s0) (remote s1)).
        handled (appended (logger s0) (logger s1)) s1 r \<or> (\<exists>cx\<in>set ys. awaits (snd cx) r)"
    and grow: "grows s1 s2"
    and new: "\<forall>r\<in>set (appended (remote s1) (remote s2)). \<exists>cx\<in>set ys'. awaits (snd cx) r"
    and kept: "\<forall>cx\<in>set ys. \<forall>r. awaits (snd cx) r \<longrightarrow>
        cx \<in> set ys' \<or> handled (appended (logger s1) (logger s2)) s2 r"
  shows "\<forall>r\<in>set (appended (remote s0) (remote s2)).
        handled (appended (logger s0) (logger s2)) s2 r \<or> (\<exists>cx\<in>set ys'. awaits (snd cx) r)"
proof
  fix r
  assume "r \<in> set (appended (remote s0) (remote s2))"
  then consider (old) "r \<in> set (appended (remote s0) (remote s1))"
    | (new) "r \<in> set (appended (remote s1) (remote s2))"
    using grows_appended(2) [OF grew grow] by auto
  then show "handled (appended (logger s0) (logger s2)) s2 r \<or> (\<exists>cx\<in>set ys'. awaits (snd cx) r)"
  proof cases
    case new
    with assms(4) show ?thesis by blast
  next
    case old
    have earlier: "set (appended (logger s0) (logger s1)) \<subseteq> set (appended (logger s0) (logger s2))"
      and later: "set (appended (logger s1) (logger s2)) \<subseteq> set (appended (logger s0) (logger s2))"
      using grows_appended(1) [OF grew grow] by auto
    from old inv consider (answered) "handled (appended (logger s0) (logger s1)) s1 r"
      | (waiting) cx where "cx \<in> set ys" "awaits (snd cx) r"
      by blast
    then show ?thesis
    proof cases
      case answered
      then show ?thesis
        using handled_more [OF earlier grow] by blast
    next
      case waiting
      with kept have "cx \<in> set ys' \<or> handled (appended (logger s1) (logger s2)) s2 r"
        by blast
      then show ?thesis
        using waiting(2) handled_more [OF later grows_refl] by blast
    qed
  qed
qed

lemma cover_allSettled:
  "list_all
     (handled (appended (logger s) (logger (snd (allSettled p e gc agc cs s))))
        (snd (allSettled p e gc agc cs s)))
     (appended (remote s) (remote (snd (allSettled p e gc agc cs s))))"
proof -
  define Inv where "Inv ys s1 \<longleftrightarrow>
      grows s s1 \<and>
      (\<forall>r\<in>set (appended (remote s) (remote s1)).
          handled (appended (logger s) (logger s1)) s1 r \<or> (\<exists>cx\<in>set ys. awaits (snd cx) r))"
    for ys :: "('a InternalAPICall \<times> 'a execution) list" and s1
  have first: "Inv (ys @ [(c, fst (start p e gc agc c s1))]) (snd (start p e gc agc c s1))"
    if "Inv ys s1" for ys c s1
  proof -
    let ?x = "fst (start p e gc agc c s1)"
    let ?s2 = "snd (start p e gc agc c s1)"
    have grew: "grows s s1"
      and inv: "\<forall>r\<in>set (appended (remote s) (remote s1)).
          handled (appended (logger s) (logger s1)) s1 r \<or> (\<exists>cx\<in>set ys. awaits (snd cx) r)"
      using that by (simp_all add: Inv_def)
    have grow: "grows s1 ?s2"
      by (rule grows_start)
    have new: "\<forall>r\<in>set (appended (remote s1) (remote ?s2)). \<exists>cx\<in>set (ys @ [(c, ?x)]). awaits (snd cx) r"
      using issued_start [of _ s1 p e gc agc c] by auto
    have kept: "\<forall>cx\<in>set ys. \<forall>r. awaits (snd cx) r \<longrightarrow>
        cx \<in> set (ys @ [(c, ?x)]) \<or> handled (appended (logger s1) (logger ?s2)) ?s2 r"
      by simp
    show ?thesis
      unfolding Inv_def
      using grows_trans [OF grew grow] cover_step [OF grew inv grow new kept] by blast
  qed
  have step: "Inv (fst (resumeAt p e agc j ys s1)) (snd (resumeAt p e agc j ys s1))"
    if "Inv ys s1" and j: "j < length ys" for j ys s1
  proof -
    let ?c = "fst (ys ! j)"
    let ?x = "fst (resume p e agc ?c (snd (ys ! j)) s1)"
    let ?s2 = "snd (resume p e agc ?c (snd (ys ! j)) s1)"
    have grew: "grows s s1"
      and inv: "\<forall>r\<in>set (appended (remote s) (remote s1)).
          handled (appended (logger s) (logger s1)) s1 r \<or> (\<exists>cx\<in>set ys. awaits (snd cx) r)"
      using that(1) by (simp_all add: Inv_def)
    have grow: "grows s1 ?s2"
      by (rule grows_resume)
    have "(?c, ?x) \<in> set (ys[j := (?c, ?x)])"
      using j by (rule set_update_memI)
    then have new: "\<forall>r\<in>set (appended (remote s1) (remote ?s2)).
        \<exists>cx\<in>set (ys[j := (?c, ?x)]). awaits (snd cx) r"
      using issued_resume [of _ s1 p e agc ?c "snd (ys ! j)"] by force
    have kept: "\<forall>cx\<in>set ys. \<forall>r. awaits (snd cx) r \<longrightarrow>
        cx \<in> set (ys[j := (?c, ?x)]) \<or> handled (appended (logger s1) (logger ?s2)) ?s2 r"
    proof (intro ballI allI impI)
      fix cx r
      assume member: "cx \<in> set ys" and waiting: "awaits (snd cx) r"
      show "cx \<in> set (ys[j := (?c, ?x)]) \<or> handled (appended (logger s1) (logger ?s2)) ?s2 r"
      proof (cases "cx = ys ! j")
        case True
        with waiting show ?thesis
          using resume_handles [of "snd (ys ! j)" r s1 p e agc ?c] by simp
      next
        case False
        with member show ?thesis
          by (simp add: set_update_other)
      qed
    qed
    show ?thesis
      unfolding Inv_def resumeAt_def
      using grows_trans [OF grew grow] cover_step [OF grew inv grow new kept]
      by (simp add: case_prod_beta)
  qed
  let ?xs = "fst (startAll p e gc agc cs s)"
  let ?s1 = "snd (startAll p e gc agc cs s)"
  let ?ys = "fst (settle p e agc 0 ?xs ?s1)"
  let ?s2 = "snd (settle p e agc 0 ?xs ?s1)"
  have "Inv [] s"
    by (simp add: Inv_def)
  then have "Inv ([] @ ?xs) ?s1"
    by (intro startAll_invariant [of Inv] first)
  then have "Inv ?xs ?s1"
    by simp
  then have "Inv ?ys ?s2"
    by (intro settle_invariant [of Inv] step)
  moreover have "\<not> awaits (snd cx) r" if "cx \<in> set ?ys" for cx r
    using suspended_empty [OF settle_settled that] by (cases "snd cx") simp_all
  ultimately have "\<forall>r\<in>set (appended (remote s) (remote ?s2)).
      handled (appended (logger s) (logger ?s2)) ?s2 r"
    unfolding Inv_def by blast
  then show ?thesis
    by (simp add: allSettled_def case_prod_beta list_all_iff)
qed

section \<open>What a flush does\<close>

lemma filter_appended:
  "prefix a b \<Longrightarrow> filter P b = filter P a @ filter P (appended a b)"
  by (auto simp: prefix_def)

lemma flush_scopes:
  assumes "getDefaultBehaviorWhenNotIdentical e \<noteq> BulkOverwrite"
  shows "scopes_entered l n (logger (snd (runAPICalls p e gc agc s))) =
         scopes_entered l n (logger s) + scopes_of l n (apiCalls s)"
  using assms
  by (simp add: runAPICalls_state scopes_allSettled scopes_entered_entry scope_message_def
      scopes_of_def)

lemma flush_handled:
  "list_all
     (handled (appended (logger s) (logger (snd (runAPICalls p e gc agc s))))
        (snd (runAPICalls p e gc agc s)))
     (appended (remote s) (remote (snd (runAPICalls p e gc agc s))))"
proof (cases "apiCalls s \<noteq> [] \<and> getDefaultBehaviorWhenNotIdentical e \<noteq> BulkOverwrite")
  case False
  then show ?thesis
    by (auto simp: runAPICalls_state)
next
  case True
  let ?s1 = "debug (MsgPreparing (length (apiCalls s))) s"
  let ?s2 = "snd (allSettled p e gc agc (apiCalls s) ?s1)"
  have state: "snd (runAPICalls p e gc agc s) = ?s2"
    using True by (simp add: runAPICalls_state)
  have split: "appended (logger s) (logger ?s2) =
      appended (logger s) (logger ?s1) @ appended (logger ?s1) (logger ?s2)"
    by (rule grows_appended(1)) (simp_all add: grows_allSettled)
  have more: "set (appended (logger ?s1) (logger ?s2)) \<subseteq> set (appended (logger s) (logger ?s2))"
    unfolding split by (simp only: set_append Un_upper2)
  have "list_all (handled (appended (logger ?s1) (logger ?s2)) ?s2)
      (appended (remote ?s1) (remote ?s2))"
    by (rule cover_allSettled)
  then have "list_all (handled (appended (logger s) (logger ?s2)) ?s2)
      (appended (remote s) (remote ?s2))"
    using handled_more [OF more grows_refl] by (auto simp: list_all_iff)
  then show ?thesis
    by (simp add: state)
qed

lemma flush_failures:
  "length (filter failure_entry (appended (logger s) (logger (snd (runAPICalls p e gc agc s))))) =
   length (filter rejected (appended (remote s) (remote (snd (runAPICalls p e gc agc s)))))"
proof (cases "apiCalls s \<noteq> [] \<and> getDefaultBehaviorWhenNotIdentical e \<noteq> BulkOverwrite")
  case False
  then show ?thesis
    by (auto simp: runAPICalls_state failure_entry_iff)
next
  case True
  let ?s1 = "debug (MsgPreparing (length (apiCalls s))) s"
  let ?s2 = "snd (allSettled p e gc agc (apiCalls s) ?s1)"
  have state: "snd (runAPICalls p e gc agc s) = ?s2"
    using True by (simp add: runAPICalls_state)
  have grew: "grows s ?s2"
    using grows_runAPICalls [of s p e gc agc] by (simp add: state)
  have logs: "filter failure_entry (logger ?s2) =
      filter failure_entry (logger s) @ filter failure_entry (appended (logger s) (logger ?s2))"
    using grew by (intro filter_appended) (simp add: grows_def)
  have requests: "filter rejected (remote ?s2) =
      filter rejected (remote s) @ filter rejected (appended (remote s) (remote ?s2))"
    using grew by (intro filter_appended) (simp add: grows_def)
  show ?thesis
    using failures_allSettled [of p e gc agc "apiCalls s" ?s1]
    by (simp add: state logs requests failure_entry_iff)
qed

lemma flush_reports:
  "filter report_entry (appended (logger s) (logger (snd (runAPICalls p e gc agc s)))) = []"
proof (cases "apiCalls s \<noteq> [] \<and> getDefaultBehaviorWhenNotIdentical e \<noteq> BulkOverwrite")
  case False
  then show ?thesis
    by (auto simp: runAPICalls_state report_entry_iff)
next
  case True
  let ?s1 = "debug (MsgPreparing (length (apiCalls s))) s"
  let ?s2 = "snd (allSettled p e gc agc (apiCalls s) ?s1)"
  have state: "snd (runAPICalls p e gc agc s) = ?s2"
    using True by (simp add: runAPICalls_state)
  have grew: "grows s ?s2"
    using grows_runAPICalls [of s p e gc agc] by (simp add: state)
  have logs: "filter report_entry (logger ?s2) =
      filter report_entry (logger s) @ filter report_entry (appended (logger s) (logger ?s2))"
    using grew by (intro filter_appended) (simp add: grows_def)
  show ?thesis
    using reports_allSettled [of p e gc agc "apiCalls s" ?s1]
    by (simp add: state logs report_entry_iff)
qed

section \<open>Pending calls stay pending\<close>

text \<open>
  Claim C9, as amended. A flush never changes the list of pending calls: no call is
  discarded. A flush that is not refused for a process-wide default of \<^verbatim>\<open>BulkOverwrite\<close>
  runs every pending call exactly once: for every kind and name of command, the number of
  scopes taken up during the flush is the number of scopes that the pending calls of that
  kind and name target, whatever the platform answers and in whatever order its answers
  arrive. The next flush, whatever platform and snapshot it is given, runs the same calls
  once more.
\<close>

theorem runAPICalls_runs_once_and_keeps_apiCalls:
  "apiCalls (snd (runAPICalls p e globalCommands guildCommands s)) = apiCalls s \<and>
   (getDefaultBehaviorWhenNotIdentical e \<noteq> BulkOverwrite \<longrightarrow>
      scopes_entered label name (logger (snd (runAPICalls p e globalCommands guildCommands s))) =
        scopes_entered label name (logger s) + scopes_of label name (apiCalls s) \<and>
      scopes_entered label name
        (logger (snd (runAPICalls p' e globalCommands' guildCommands'
                        (snd (runAPICalls p e globalCommands guildCommands s))))) =
        scopes_entered label name (logger s) + 2 * scopes_of label name (apiCalls s))"
proof -
  have kept: "apiCalls (snd (runAPICalls p e globalCommands guildCommands s)) = apiCalls s"
    using grows_runAPICalls [of s p e globalCommands guildCommands] by (simp add: grows_def)
  then show ?thesis
    by (simp add: flush_scopes)
qed

text \<open>
  After a flush of one pending call the call is still pending, and a second flush sends
  the create request of the first flush a second time.
\<close>

theorem runAPICalls_runs_once_and_keeps_apiCalls_counterexample:
  "apiCalls (snd (runAPICalls rejecting (example_env Overwrite None) [] Map.empty
     (pending [ping_call (options_of None None None None)]))) =
     [ping_call (options_of None None None None)] \<and>
   remote (snd (runAPICalls rejecting (example_env Overwrite None) [] Map.empty
     (snd (runAPICalls rejecting (example_env Overwrite None) [] Map.empty
       (pending [ping_call (options_of None None None None)]))))) =
     [Create ping None None, Create ping None None]"
  by (simp add: runAPICalls_def example_defs executor_defs flush_defs settle.simps reportErrored_def)

text \<open>
  Two pending calls for the chat input command \<^verbatim>\<open>ping\<close>, one for two guilds and one for the
  global scope: each flush takes up three scopes.
\<close>

theorem runAPICalls_runs_once_and_keeps_apiCalls_witness:
  "apiCalls (snd (runAPICalls (second_first rejecting) (example_env Overwrite None) []
     [''g1'' \<mapsto> [remote_ping]]
     (pending [two_guilds_call, ping_call (options_of None None None None)]))) =
     [two_guilds_call, ping_call (options_of None None None None)] \<and>
   scopes_entered ''chat input'' ''ping''
     (logger (snd (runAPICalls (second_first rejecting) (example_env Overwrite None) []
        [''g1'' \<mapsto> [remote_ping]]
        (pending [two_guilds_call, ping_call (options_of None None None None)])))) = 3 \<and>
   scopes_entered ''chat input'' ''ping''
     (logger (snd (runAPICalls accepting (example_env Overwrite None) [remote_ping] Map.empty
        (snd (runAPICalls (second_first rejecting) (example_env Overwrite None) []
           [''g1'' \<mapsto> [remote_ping]]
           (pending [two_guilds_call, ping_call (options_of None None None None)])))))) = 6"
  using runAPICalls_runs_once_and_keeps_apiCalls
    [of "second_first rejecting" "example_env Overwrite None" "[]" "[''g1'' \<mapsto> [remote_ping]]"
        "pending [two_guilds_call, ping_call (options_of None None None None)]"
        "''chat input''" "''ping''" accepting "[remote_ping]" Map.empty]
  by (simp add: example_defs scopes_of_def buckets_def type_label_def)

section \<open>Rejected requests\<close>

lemma identity_handleCommandPresent [simp]:
  "identity (snd (handleCommandPresent p e c d b g s)) = identity s"
  by (simp add: handleCommandPresent_def Let_def)

lemma identity_failed_create:
  "create p (remote s) d g = None \<Longrightarrow> identity (createMissingCommand p e d l g s) = identity s"
  by (simp add: createMissingCommand_def Let_def identity_def)

lemma recorded_after_present:
  "recorded t i g' (snd (handleCommandPresent p e c d b g (handleIdAddition e t i g' s)))"
  using recorded_identity [OF identity_handleCommandPresent] recorded_handleIdAddition by blast

lemma handleAPICall_global_records:
  "find (findCallback c) gc = Some m \<Longrightarrow>
   recorded (call_type c) (ac_id m) None (snd (handleAPICall_global p e gc c s))"
  by (simp add: handleAPICall_global_def Let_def recorded_after_present)

lemma handleAPICall_guild_records:
  "agc g = Some cmds \<Longrightarrow> find (findCallback c) cmds = Some m \<Longrightarrow>
   recorded (call_type c) (ac_id m) (Some g) (snd (handleAPICall_guild p e agc c g s))"
  by (simp add: handleAPICall_guild_def Let_def recorded_after_present)

lemma identity_request [simp]: "identity (s\<lparr>remote := r\<rparr>) = identity s"
  by (simp add: identity_def)

lemma failed_create:
  "create p (remote s) d g = None \<Longrightarrow>
   createMissingCommand p e d l g s =
     error (MsgFailedToRegister (truthy g) (data_name d)) (s\<lparr>remote := remote s @ [Create d g None]\<rparr>)"
  by (simp add: createMissingCommand_def Let_def)

lemma failed_edit:
  assumes "appended (remote s) (remote (snd (handleCommandPresent p e c d b g s))) = [Edit c d False]"
  shows "fst (handleCommandPresent p e c d b g s) = None"
    and "last (logger (snd (handleCommandPresent p e c d b g s))) =
           (LError, MsgFailedToUpdate (ac_name c) (ac_id c))"
proof -
  show "fst (handleCommandPresent p e c d b g s) = None"
    using assms by (auto simp: handleCommandPresent_def Let_def split: if_splits)
  have "last (logger (editSettled c ok s')) = (LError, MsgFailedToUpdate (ac_name c) (ac_id c))"
    if "\<not> ok" for ok s'
    using that by (simp add: editSettled_def)
  moreover have "remote (updatePresentCommand p e c d b' g s') =
      remote s' @ (case fst (comparePresentCommand p e c d b' g s') of
                     Some ok \<Rightarrow> [Edit c d ok] | None \<Rightarrow> [])" for b' s'
    by (simp add: updatePresentCommand_split case_prod_beta remote_comparePresentCommand
        split: option.splits)
  ultimately show "last (logger (snd (handleCommandPresent p e c d b g s))) =
      (LError, MsgFailedToUpdate (ac_name c) (ac_id c))"
    using assms
    by (auto simp: handleCommandPresent_def Let_def updatePresentCommand_split case_prod_beta
        split: if_splits option.splits)
qed

text \<open>
  Claim C5, as amended. A rejected create is caught where it is made: the state after
  \<^verbatim>\<open>createMissingCommand\<close> is the state before it with the request made and the error
  logged, so the identity state is as it was and the command stays unrecorded. A rejected
  edit is caught where it is made too: \<^verbatim>\<open>handleCommandPresent\<close> throws nothing, its last
  log entry is the error, and the identity state after it is the one before it, as it is
  after an accepted edit; the id of the matched command was recorded at matching time,
  before the edit, so it stays recorded. No rejection blocks another command: unless the
  process-wide default is \<^verbatim>\<open>BulkOverwrite\<close>, the flush throws nothing and every pending call
  takes up every one of its scopes, and every request of the flush is followed by its
  handling, whatever the platform answers and in whatever order its answers arrive.
\<close>

theorem rejected_requests_are_caught_and_logged:
  "(create p (remote s) d g = None \<longrightarrow>
      createMissingCommand p e d label g s =
        error (MsgFailedToRegister (truthy g) (data_name d))
          (s\<lparr>remote := remote s @ [Create d g None]\<rparr>) \<and>
      identity (createMissingCommand p e d label g s) = identity s) \<and>
   identity (snd (handleCommandPresent p e existing d b g s)) = identity s \<and>
   (appended (remote s) (remote (snd (handleCommandPresent p e existing d b g s))) =
      [Edit existing d False] \<longrightarrow>
      fst (handleCommandPresent p e existing d b g s) = None \<and>
      last (logger (snd (handleCommandPresent p e existing d b g s))) =
        (LError, MsgFailedToUpdate (ac_name existing) (ac_id existing))) \<and>
   (find (findCallback apiCall) globalCommands = Some existing \<longrightarrow>
      recorded (call_type apiCall) (ac_id existing) None
        (snd (handleAPICall_global p e globalCommands apiCall s))) \<and>
   (allGuildsCommands guildId = Some guildCommands \<and>
    find (findCallback apiCall) guildCommands = Some existing \<longrightarrow>
      recorded (call_type apiCall) (ac_id existing) (Some guildId)
        (snd (handleAPICall_guild p e allGuildsCommands apiCall guildId s))) \<and>
   (getDefaultBehaviorWhenNotIdentical e \<noteq> BulkOverwrite \<longrightarrow>
      fst (runAPICalls p e globalCommands allGuildsCommands s) = None \<and>
      scopes_entered kind name (logger (snd (runAPICalls p e globalCommands allGuildsCommands s))) =
        scopes_entered kind name (logger s) + scopes_of kind name (apiCalls s)) \<and>
   list_all
     (handled (appended (logger s) (logger (snd (runAPICalls p e globalCommands allGuildsCommands s))))
        (snd (runAPICalls p e globalCommands allGuildsCommands s)))
     (appended (remote s) (remote (snd (runAPICalls p e globalCommands allGuildsCommands s))))"
  by (simp add: identity_failed_create failed_create failed_edit handleAPICall_global_records
      handleAPICall_guild_records runAPICalls_thrown flush_scopes flush_handled)

text \<open>
  The platform rejects the edit of the matched command \<^verbatim>\<open>1\<close>: the flush throws nothing,
  the error is logged, and the id \<^verbatim>\<open>1\<close> is recorded all the same.
\<close>

theorem rejected_requests_are_caught_and_logged_counterexample:
  "fst (runAPICalls rejecting (example_env Overwrite None) [remote_ping] Map.empty
          (pending [ping_call (options_of None None None None)])) = None \<and>
   remote (snd (runAPICalls rejecting (example_env Overwrite None) [remote_ping] Map.empty
          (pending [ping_call (options_of None None None None)]))) =
     [Edit remote_ping ping False] \<and>
   logger (snd (runAPICalls rejecting (example_env Overwrite None) [remote_ping] Map.empty
          (pending [ping_call (options_of None None None None)]))) =
     [(LDebug, MsgPreparing 1),
      (LDebug, MsgCheckingGlobal ''ping'' ''chat input'' ''1''),
      (LDebug, MsgRegisteringId ChatInput ''1''),
      (LDebug, MsgTookFast),
      (LDebug, MsgFoundDifferences ''ping'' ''1'' []),
      (LError, MsgFailedToUpdate ''ping'' ''1'')] \<and>
   globalChatInputCommandIds
     (snd (runAPICalls rejecting (example_env Overwrite None) [remote_ping] Map.empty
             (pending [ping_call (options_of None None None None)]))) = {''1''} \<and>
   chatInputCommands
     (snd (runAPICalls rejecting (example_env Overwrite None) [remote_ping] Map.empty
             (pending [ping_call (options_of None None None None)]))) = {''1''}"
  by (simp add: runAPICalls_def example_defs executor_defs flush_defs settle.simps reportErrored_def)

theorem rejected_requests_are_caught_and_logged_witness:
  "createMissingCommand rejecting (example_env Overwrite None) ping ''chat input'' None
     (pending [two_guilds_call]) =
     error (MsgFailedToRegister None ''ping'')
       ((pending [two_guilds_call])\<lparr>remote := [Create ping None None]\<rparr>) \<and>
   last (logger (snd (handleCommandPresent rejecting (example_env Overwrite None) remote_ping ping
                        Overwrite None (pending [two_guilds_call])))) =
     (LError, MsgFailedToUpdate ''ping'' ''1'') \<and>
   recorded ChatInput ''1'' None
     (snd (handleAPICall_global rejecting (example_env Overwrite None) [remote_ping]
             two_guilds_call (pending [two_guilds_call]))) \<and>
   recorded ChatInput ''1'' (Some ''g1'')
     (snd (handleAPICall_guild rejecting (example_env Overwrite None) [''g1'' \<mapsto> [remote_ping]]
             two_guilds_call ''g1'' (pending [two_guilds_call]))) \<and>
   fst (runAPICalls rejecting (example_env Overwrite None) [remote_ping] [''g1'' \<mapsto> [remote_ping]]
          (pending [two_guilds_call])) = None \<and>
   scopes_entered ''chat input'' ''ping''
     (logger (snd (runAPICalls rejecting (example_env Overwrite None) [remote_ping]
                     [''g1'' \<mapsto> [remote_ping]] (pending [two_guilds_call])))) = 2"
proof -
  have edit: "appended (remote (pending [two_guilds_call]))
      (remote (snd (handleCommandPresent rejecting (example_env Overwrite None) remote_ping ping
                      Overwrite None (pending [two_guilds_call])))) =
      [Edit remote_ping ping False]"
    by (simp add: example_defs executor_defs appended_def)
  show ?thesis
    using rejected_requests_are_caught_and_logged
      [where p = rejecting and s = "pending [two_guilds_call]" and d = ping and g = None
         and e = "example_env Overwrite None" and label = "''chat input''" and b = Overwrite
         and existing = remote_ping and apiCall = two_guilds_call
         and globalCommands = "[remote_ping]" and allGuildsCommands = "[''g1'' \<mapsto> [remote_ping]]"
         and guildId = "''g1''" and guildCommands = "[remote_ping]"
         and kind = "''chat input''" and name = "''ping''"]
      edit
    by (simp add: example_defs findCallback_def scopes_of_def buckets_def type_label_def truthy_def)
qed

section \<open>The scope of a registered call\<close>

lemma fold_insert_apiCalls:
  "apiCalls (fold (\<lambda>hint s. s\<lparr>chatInputCommands := insert hint (chatInputCommands s)\<rparr>) hints s) =
     apiCalls s"
  by (induction hints arbitrary: s) simp_all

lemma processGuildIds_apiCalls [simp]: "apiCalls (processGuildIds g s) = apiCalls s"
proof -
  have "apiCalls (fold (\<lambda>i s. s\<lparr>guildIdsToFetch := insert i (guildIdsToFetch s),
                        allGuildIdsToFetchCommandsFor := insert i (allGuildIdsToFetchCommandsFor s)\<rparr>)
                  ids s) = apiCalls s" for ids
    by (induction ids arbitrary: s) simp_all
  then show ?thesis
    by (simp add: processGuildIds_def split: option.splits)
qed

text \<open>
  The call that \<^verbatim>\<open>registerChatInputCommand\<close> queues: the guild ids with their fallback
  are stored only when no options were given.
\<close>

lemma registerChatInputCommand_apiCalls:
  "apiCalls (registerChatInputCommand e command options s) =
     apiCalls s @
       [\<lparr> builtData = command,
          registerOptions =
            (case options of
               Some opts \<Rightarrow> opts
             | None \<Rightarrow>
                 \<lparr> guildIds = getGuildIdsToRegister e options,
                   registerCommandIfMissing = Some True,
                   behaviorWhenNotIdentical = Some (getDefaultBehaviorWhenNotIdentical e),
                   idHints = None \<rparr>),
          call_type = ChatInput \<rparr>]"
  by (simp add: registerChatInputCommand_def Let_def fold_insert_apiCalls split: option.splits)

lemma registerContextMenuCommand_apiCalls:
  "apiCalls (registerContextMenuCommand e command options s) =
     apiCalls s @
       [\<lparr> builtData = command,
          registerOptions =
            (case options of
               Some opts \<Rightarrow> opts
             | None \<Rightarrow>
                 \<lparr> guildIds = getGuildIdsToRegister e options,
                   registerCommandIfMissing = Some True,
                   behaviorWhenNotIdentical = Some (getDefaultBehaviorWhenNotIdentical e),
                   idHints = None \<rparr>),
          call_type = ContextMenu \<rparr>]"
proof -
  have "apiCalls (fold (\<lambda>hint s. s\<lparr>contextMenuCommands := insert hint (contextMenuCommands s)\<rparr>) hints s') =
     apiCalls s'" for hints and s' :: "'a registry"
    by (induction hints arbitrary: s') simp_all
  then show ?thesis
    by (simp add: registerContextMenuCommand_def Let_def split: option.splits)
qed

text \<open>
  Without options the queued call targets the configured default guild ids when there
  are any and the global scope otherwise; guild ids given in the options are used as
  given.
\<close>

lemma register_without_options_scope:
  "buckets (last (apiCalls (registerChatInputCommand e command None s))) =
     (case getDefaultGuildIds e of
        None \<Rightarrow> [None]
      | Some ids \<Rightarrow> if ids = [] then [None] else map Some ids)"
  "buckets (last (apiCalls (registerContextMenuCommand e command None s))) =
     (case getDefaultGuildIds e of
        None \<Rightarrow> [None]
      | Some ids \<Rightarrow> if ids = [] then [None] else map Some ids)"
  by (simp_all add: registerChatInputCommand_apiCalls registerContextMenuCommand_apiCalls buckets_def
        getGuildIdsToRegister_def isNullishOrEmpty_def split: option.splits)

lemma register_with_guilds_scope:
  assumes "guildIds opts = Some ids" and "ids \<noteq> []"
  shows "buckets (last (apiCalls (registerChatInputCommand e command (Some opts) s))) = map Some ids"
    and "buckets (last (apiCalls (registerContextMenuCommand e command (Some opts) s))) = map Some ids"
  using assms
  by (simp_all add: registerChatInputCommand_apiCalls registerContextMenuCommand_apiCalls buckets_def)

text \<open>
  Claim C4, on an input where the code departs from it. The register call gives options
  that hold an id hint and no guild ids, and the configured default guild ids are the
  one guild \<^verbatim>\<open>g1\<close>. The guild is added to the guilds to fetch, but the pending call keeps
  the options as given: its only scope is the global one, and its execution creates the
  command globally.
\<close>

theorem registerChatInputCommand_default_guilds_dropped:
  "apiCalls (registerChatInputCommand (example_env Overwrite (Some [''g1''])) ping
               (Some (options_of None None None (Some [''1'']))) fresh) =
     [ping_call (options_of None None None (Some [''1'']))] \<and>
   buckets (ping_call (options_of None None None (Some [''1'']))) = [None] \<and>
   guildIdsToFetch (registerChatInputCommand (example_env Overwrite (Some [''g1''])) ping
               (Some (options_of None None None (Some [''1'']))) fresh) = {''g1''} \<and>
   remote (snd (handleAPICall accepting (example_env Overwrite (Some [''g1''])) [] Map.empty
                  (ping_call (options_of None None None (Some [''1''])))
                  fresh)) =
     [Create ping None (create accepting [] ping None)]"
  by (simp add: registerChatInputCommand_def getGuildIdsToRegister_def isNullishOrEmpty_def
        processGuildIds_def buckets_def example_defs executor_defs)

section \<open>A missing command that must not be registered\<close>

text \<open>
  With a command list for the scope, no match in it and \<^verbatim>\<open>registerCommandIfMissing\<close>
  false, the execution only logs the miss.
\<close>

lemma handleAPICall_global_skip:
  assumes "find (findCallback apiCall) globalCommands = None" and "\<not> registerIfMissing apiCall"
  shows "handleAPICall_global p e globalCommands apiCall s =
           (None, debug (MsgDoingNothingGlobal (type_label apiCall) (data_name (builtData apiCall))) s)"
  using assms by (simp add: handleAPICall_global_def)

lemma handleAPICall_guild_skip:
  assumes "allGuildsCommands guildId = Some guildCommands"
    and "find (findCallback apiCall) guildCommands = None" and "\<not> registerIfMissing apiCall"
  shows "handleAPICall_guild p e allGuildsCommands apiCall guildId s =
           (None, debug (MsgDoingNothingGuild (type_label apiCall) (data_name (builtData apiCall))
                           guildId) s)"
  using assms by (simp add: handleAPICall_guild_def)

text \<open>
  When every scope of the call has a command list without a match and
  \<^verbatim>\<open>registerCommandIfMissing\<close> is false, the execution throws nothing, sends no request
  and leaves the identity state as it was.
\<close>

lemma handleAPICall_guilds_skip:
  assumes "\<not> registerIfMissing apiCall"
    and "\<forall>g\<in>set gs. \<exists>cmds. allGuildsCommands g = Some cmds \<and> find (findCallback apiCall) cmds = None"
  shows "fst (handleAPICall_guilds p e allGuildsCommands apiCall gs s) = None \<and>
         remote (snd (handleAPICall_guilds p e allGuildsCommands apiCall gs s)) = remote s \<and>
         identity (snd (handleAPICall_guilds p e allGuildsCommands apiCall gs s)) = identity s"
  using assms(2)
proof (induction gs arbitrary: s)
  case Nil
  show ?case by simp
next
  case (Cons g gs)
  then obtain cmds where listed: "allGuildsCommands g = Some cmds"
    and missing: "find (findCallback apiCall) cmds = None"
    by auto
  let ?s' = "debug (MsgDoingNothingGuild (type_label apiCall) (data_name (builtData apiCall)) g) s"
  have step: "handleAPICall_guild p e allGuildsCommands apiCall g s = (None, ?s')"
    using listed missing assms(1) by (simp add: handleAPICall_guild_def)
  from Cons.prems have "\<forall>g\<in>set gs. \<exists>cmds. allGuildsCommands g = Some cmds \<and>
      find (findCallback apiCall) cmds = None"
    by simp
  from Cons.IH [OF this, of ?s'] show ?case
    by (simp add: step)
qed

lemma handleAPICall_skips_missing:
  assumes "\<not> registerIfMissing apiCall"
    and "\<forall>scope\<in>set (buckets apiCall).
           case scope of
             None \<Rightarrow> find (findCallback apiCall) globalCommands = None
           | Some g \<Rightarrow>
               (case allGuildsCommands g of
                  None \<Rightarrow> False
                | Some cmds \<Rightarrow> find (findCallback apiCall) cmds = None)"
  shows "fst (handleAPICall p e globalCommands allGuildsCommands apiCall s) = None \<and>
         remote (snd (handleAPICall p e globalCommands allGuildsCommands apiCall s)) = remote s \<and>
         identity (snd (handleAPICall p e globalCommands allGuildsCommands apiCall s)) = identity s"
proof (cases "isNullishOrEmpty (guildIds (registerOptions apiCall))")
  case True
  then have global: "buckets apiCall = [None]"
    and run: "handleAPICall p e globalCommands allGuildsCommands apiCall s =
      handleAPICall_global p e globalCommands apiCall s"
    by (simp_all add: buckets_def handleAPICall_def isNullishOrEmpty_def split: option.splits)
  from assms(2) have "find (findCallback apiCall) globalCommands = None"
    by (simp add: global)
  then show ?thesis
    using assms(1) by (simp add: run handleAPICall_global_def)
next
  case False
  then obtain ids where ids: "guildIds (registerOptions apiCall) = Some ids" "ids \<noteq> []"
    by (auto simp: isNullishOrEmpty_def split: option.splits)
  then have run: "handleAPICall p e globalCommands allGuildsCommands apiCall s =
      handleAPICall_guilds p e allGuildsCommands apiCall ids s"
    by (simp add: handleAPICall_def)
  have "\<forall>g\<in>set ids. \<exists>cmds. allGuildsCommands g = Some cmds \<and> find (findCallback apiCall) cmds = None"
    using assms(2) ids by (auto simp: buckets_def split: option.splits)
  from handleAPICall_guilds_skip [OF assms(1) this] show ?thesis
    by (simp add: run)
qed

text \<open>
  Claim C3, on an input where the code departs from it. The call targets the guild
  \<^verbatim>\<open>g1\<close> with \<^verbatim>\<open>registerCommandIfMissing\<close> false, and the snapshot holds no command list
  for that guild. The execution sends a create request for the guild and records the
  id of the created command.
\<close>

theorem handleAPICall_creates_for_unlisted_guild:
  "registerIfMissing (ping_call (options_of (Some [''g1'']) (Some False) None None)) = False \<and>
   remote (snd (handleAPICall accepting (example_env Overwrite None) [] Map.empty
                  (ping_call (options_of (Some [''g1'']) (Some False) None None)) fresh)) =
     [Create ping (Some ''g1'') (create accepting [] ping (Some ''g1''))] \<and>
   guildIdToChatInputCommandIds
     (snd (handleAPICall accepting (example_env Overwrite None) [] Map.empty
             (ping_call (options_of (Some [''g1'']) (Some False) None None)) fresh)) ''g1'' =
     Some {''2''}"
  by (simp add: example_defs executor_defs)

section \<open>Every execution of a flush runs to its end\<close>

text \<open>
  Claim C8, as amended. The only thing a flush throws is the range error for a
  process-wide default of \<^verbatim>\<open>BulkOverwrite\<close>: it throws nothing because of a rejected
  request. In a flush that is not refused, every execution runs to its end whatever the
  platform answers to the requests of the other executions and in whatever order its
  answers arrive: every pending call takes up every one of its scopes. Every request of
  a flush is followed by its handling, which is the error message for a rejected request,
  the debug message for an accepted edit, and the info message and the recording of the
  created id for an accepted create. Each rejected request is logged with an error
  message of its own: the flush writes as many of these as requests were rejected. The
  rejected requests are not aggregated: the flush logs no count of errors and no reason
  of a rejection.
\<close>

theorem flush_runs_every_execution_to_its_end:
  "fst (runAPICalls p e globalCommands guildCommands s) =
     (if apiCalls s \<noteq> [] \<and> getDefaultBehaviorWhenNotIdentical e = BulkOverwrite
      then Some RangeError_runAPICalls_BulkOverwrite else None) \<and>
   (getDefaultBehaviorWhenNotIdentical e \<noteq> BulkOverwrite \<longrightarrow>
      scopes_entered label name (logger (snd (runAPICalls p e globalCommands guildCommands s))) =
        scopes_entered label name (logger s) + scopes_of label name (apiCalls s)) \<and>
   list_all
     (handled (appended (logger s) (logger (snd (runAPICalls p e globalCommands guildCommands s))))
        (snd (runAPICalls p e globalCommands guildCommands s)))
     (appended (remote s) (remote (snd (runAPICalls p e globalCommands guildCommands s)))) \<and>
   length (filter failure_entry
     (appended (logger s) (logger (snd (runAPICalls p e globalCommands guildCommands s))))) =
   length (filter rejected
     (appended (remote s) (remote (snd (runAPICalls p e globalCommands guildCommands s))))) \<and>
   filter report_entry
     (appended (logger s) (logger (snd (runAPICalls p e globalCommands guildCommands s)))) = []"
  using flush_handled [of s p e globalCommands guildCommands]
    flush_failures [of s p e globalCommands guildCommands]
    flush_reports [of s p e globalCommands guildCommands]
  by (simp add: runAPICalls_thrown flush_scopes)

text \<open>
  A call for two guilds: the platform rejects the edit for the first guild and the create
  for the second. The flush throws nothing and logs each rejection where it was caught;
  it logs no count of the failures and no reason.
\<close>

theorem flush_runs_every_execution_to_its_end_counterexample:
  "fst (runAPICalls rejecting (example_env Overwrite None) [] [''g1'' \<mapsto> [remote_ping]]
          (pending [two_guilds_call])) = None \<and>
   remote (snd (runAPICalls rejecting (example_env Overwrite None) [] [''g1'' \<mapsto> [remote_ping]]
          (pending [two_guilds_call]))) =
     [Edit remote_ping ping False, Create ping (Some ''g2'') None] \<and>
   logger (snd (runAPICalls rejecting (example_env Overwrite None) [] [''g1'' \<mapsto> [remote_ping]]
          (pending [two_guilds_call]))) =
     [(LDebug, MsgPreparing 1),
      (LDebug, MsgCheckingGuild ''chat input'' ''ping'' ''1''),
      (LDebug, MsgRegisteringId ChatInput ''1''),
      (LDebug, MsgTookFast),
      (LDebug, MsgFoundDifferences ''ping'' ''1'' []),
      (LError, MsgFailedToUpdate ''ping'' ''1''),
      (LDebug, MsgNoCommandsForGuild ''g2'' ''chat input'' ''ping''),
      (LError, MsgFailedToRegister (Some ''g2'') ''ping'')]"
  by (simp add: runAPICalls_def example_defs executor_defs flush_defs settle.simps reportErrored_def)

text \<open>
  Two pending calls, one for two guilds and one for the global scope, on a platform that
  rejects every request and answers the second of the waiting executions first.
\<close>

theorem flush_runs_every_execution_to_its_end_witness:
  "fst (runAPICalls (second_first rejecting) (example_env Overwrite None) []
          [''g1'' \<mapsto> [remote_ping]]
          (pending [two_guilds_call, ping_call (options_of None None None None)])) = None \<and>
   scopes_entered ''chat input'' ''ping''
     (logger (snd (runAPICalls (second_first rejecting) (example_env Overwrite None) []
        [''g1'' \<mapsto> [remote_ping]]
        (pending [two_guilds_call, ping_call (options_of None None None None)])))) = 3 \<and>
   length (filter failure_entry
     (logger (snd (runAPICalls (second_first rejecting) (example_env Overwrite None) []
        [''g1'' \<mapsto> [remote_ping]]
        (pending [two_guilds_call, ping_call (options_of None None None None)]))))) =
   length (filter rejected
     (remote (snd (runAPICalls (second_first rejecting) (example_env Overwrite None) []
        [''g1'' \<mapsto> [remote_ping]]
        (pending [two_guilds_call, ping_call (options_of None None None None)]))))) \<and>
   filter report_entry
     (logger (snd (runAPICalls (second_first rejecting) (example_env Overwrite None) []
        [''g1'' \<mapsto> [remote_ping]]
        (pending [two_guilds_call, ping_call (options_of None None None None)])))) = []"
  using flush_runs_every_execution_to_its_end
    [of "second_first rejecting" "example_env Overwrite None" "[]" "[''g1'' \<mapsto> [remote_ping]]"
        "pending [two_guilds_call, ping_call (options_of None None None None)]"
        "''chat input''" "''ping''"]
  by (simp add: example_defs scopes_of_def buckets_def type_label_def appended_def)

section \<open>The two paths of the difference engine agree\<close>

lemma field_difference_empty [simp]: "(field_difference p render a b = []) = (a = b)"
  by (simp add: field_difference_def)

lemma verbose_empty:
  "(verbose_option p x y = []) = (\<not> fast_option x y)"
  "(verbose_options p i xs ys = []) = (\<not> fast_options xs ys)"
  by (induction p x y and p i xs ys rule: verbose_option_verbose_options.induct) auto

lemma fast_is_inequality:
  "fast_option x y = (x \<noteq> y)"
  "fast_options xs ys = (xs \<noteq> ys)"
  by (induction x y and xs ys rule: fast_option_fast_options.induct) auto

text \<open>
  Claim C2. For every remote command and every definition, the fast difference is false
  exactly when the verbose difference has no record.
\<close>

theorem fastDiff_iff_verboseDiff_empty: "(fastDiff a b = False) = (verboseDiff a b = [])"
  by (auto simp: fastDiff_def verboseDiff_def verbose_empty)

theorem fastDiff_iff_verboseDiff_empty_witness:
  "fastDiff
     \<lparr> field_name = ''ping'', field_description = Some ''old'', field_options = Some [],
       field_permissions = None, field_localization = None, field_contexts = None \<rparr>
     \<lparr> field_name = ''ping'', field_description = Some ''new'', field_options = None,
       field_permissions = None, field_localization = None, field_contexts = None \<rparr> \<and>
   verboseDiff
     \<lparr> field_name = ''ping'', field_description = Some ''old'', field_options = Some [],
       field_permissions = None, field_localization = None, field_contexts = None \<rparr>
     \<lparr> field_name = ''ping'', field_description = Some ''new'', field_options = None,
       field_permissions = None, field_localization = None, field_contexts = None \<rparr> =
     [\<lparr> path = ''description'', original_value = Text ''old'', expected_value = Text ''new'' \<rparr>]"
  using fastDiff_iff_verboseDiff_empty
    [of "\<lparr> field_name = ''ping'', field_description = Some ''old'', field_options = Some [],
          field_permissions = None, field_localization = None, field_contexts = None \<rparr>"
        "\<lparr> field_name = ''ping'', field_description = Some ''new'', field_options = None,
          field_permissions = None, field_localization = None, field_contexts = None \<rparr>"]
  by (simp add: verboseDiff_def field_difference_def omitted_as_empty_def)

end
